theory Spec2Isabelle
  imports Complex_Main "HOL-Library.AList" "HOL-Library.Multiset"
begin

section \<open>Instrumental-variable estimators of \<open>panel/iv/iv.py\<close>\<close>

text \<open>
  The module estimates linear models by 2SLS, LIML and GMM.  Its arrays are numpy arrays of
  float64; here an array is a list of rows over the reals, so every statement below is about
  exact arithmetic, the idealisation the module's formulas are written in.  Shapes are not
  stored: a matrix with no rows has no column count.  numpy raises on operands whose shapes
  do not conform; the operations here are total, and the theorems that need the shapes of
  the module's documentation (\<open>nobs\<close> by 1, \<open>nobs\<close> by \<open>nvar\<close>, \<open>nobs\<close> by \<open>ninstr\<close>) say so in
  their hypotheses.
\<close>

subsection \<open>Errors\<close>

datatype error =
    ValueError string
  | KeyError string
  | LinAlgError
  | UnboundLocalError string
  | TypeError
  | IndexError

definition bind_e :: "error + 'a \<Rightarrow> ('a \<Rightarrow> error + 'b) \<Rightarrow> error + 'b" where
  "bind_e r f = (case r of Inl e \<Rightarrow> Inl e | Inr v \<Rightarrow> f v)"

subsection \<open>The numpy operations the module uses\<close>

type_synonym vec = "real list"
type_synonym mat = "real list list"

definition is_mat :: "nat \<Rightarrow> nat \<Rightarrow> mat \<Rightarrow> bool" where
  "is_mat n m A \<longleftrightarrow> length A = n \<and> (\<forall>r \<in> set A. length r = m)"

definition ncols :: "mat \<Rightarrow> nat" where
  "ncols A = (case A of [] \<Rightarrow> 0 | r # _ \<Rightarrow> length r)"

definition col :: "mat \<Rightarrow> nat \<Rightarrow> vec" where
  "col A j = map (\<lambda>r. r ! j) A"

text \<open>\<open>A.T\<close>\<close>

definition T :: "mat \<Rightarrow> mat" where
  "T A = map (col A) [0..<ncols A]"

definition dot :: "vec \<Rightarrow> vec \<Rightarrow> real" where
  "dot u v = sum_list (map2 (*) u v)"

text \<open>\<open>A @ B\<close>\<close>

definition matmul :: "mat \<Rightarrow> mat \<Rightarrow> mat" where
  "matmul A B = map (\<lambda>r. map (\<lambda>j. dot r (col B j)) [0..<ncols B]) A"

text \<open>\<open>c * A\<close> and \<open>A * c\<close> for a scalar \<open>c\<close>, \<open>A / c\<close>, \<open>A + B\<close>, \<open>A - B\<close>\<close>

definition scale :: "real \<Rightarrow> mat \<Rightarrow> mat" where
  "scale c A = map (map (\<lambda>v. c * v)) A"

definition divide_by :: "mat \<Rightarrow> real \<Rightarrow> mat" where
  "divide_by A c = map (map (\<lambda>v. v / c)) A"

definition madd :: "mat \<Rightarrow> mat \<Rightarrow> mat" where
  "madd A B = map2 (map2 (+)) A B"

definition msub :: "mat \<Rightarrow> mat \<Rightarrow> mat" where
  "msub A B = map2 (map2 (-)) A B"

definition eye :: "nat \<Rightarrow> mat" where
  "eye n = map (\<lambda>i. map (\<lambda>j. if i = j then 1 else 0) [0..<n]) [0..<n]"

definition zeros :: "nat \<Rightarrow> nat \<Rightarrow> mat" where
  "zeros n m = replicate n (replicate m 0)"

subsubsection \<open>\<open>numpy.linalg.inv\<close>\<close>

text \<open>
  The inverse of a square matrix, by Gauss-Jordan elimination on the rows of \<open>[A | I]\<close>;
  \<open>LinAlgError\<close> when the matrix is not square or no pivot is found (a singular matrix).
  When the last column is done the left block is the identity and the right block is the
  inverse.  numpy picks the pivot of largest magnitude, which changes rounding only: in
  exact arithmetic every nonzero pivot leads to the same inverse.
\<close>

definition eliminate :: "nat \<Rightarrow> mat \<Rightarrow> mat option" where
  "eliminate j rows =
     (case find (\<lambda>p. rows ! p ! j \<noteq> 0) [j..<length rows] of
        None \<Rightarrow> None
      | Some p \<Rightarrow>
          let rows1 = rows[j := rows ! p, p := rows ! j];
              prow = map (\<lambda>v. v / (rows1 ! j ! j)) (rows1 ! j)
          in Some (map (\<lambda>i. if i = j then prow
                               else map2 (\<lambda>a b. a - (rows1 ! i ! j) * b) (rows1 ! i) prow)
                       [0..<length rows]))"

fun gauss_jordan :: "nat list \<Rightarrow> mat \<Rightarrow> mat option" where
  "gauss_jordan [] rows = Some rows"
| "gauss_jordan (j # js) rows =
     (case eliminate j rows of None \<Rightarrow> None | Some rows' \<Rightarrow> gauss_jordan js rows')"

definition linalg_inv :: "mat \<Rightarrow> error + mat" where
  "linalg_inv A =
     (let n = length A in
      if \<not> list_all (\<lambda>r. length r = n) A then Inl LinAlgError
      else case gauss_jordan [0..<n] (map2 (@) A (eye n)) of
             None \<Rightarrow> Inl LinAlgError
           | Some rows \<Rightarrow> Inr (map (drop n) rows))"

subsubsection \<open>\<open>numpy.linalg.pinv\<close>\<close>

text \<open>
  The Moore-Penrose pseudoinverse.  For a matrix of full column rank it is
  \<open>(Z\<^sup>t Z)\<^sup>-\<^sup>1 Z\<^sup>t\<close>; for any other matrix it is built column by column (Greville's
  recursion).  numpy computes the same matrix from a singular value decomposition.  The
  validator lets only instruments of full column rank through, which is the first case.
\<close>

definition lincomb :: "nat \<Rightarrow> vec \<Rightarrow> vec list \<Rightarrow> vec" where
  "lincomb n cs vs =
     foldr (\<lambda>(c, v) acc. map2 (+) (map (\<lambda>a. c * a) v) acc) (zip cs vs) (replicate n 0)"

definition greville_step :: "nat \<Rightarrow> vec list \<times> mat \<Rightarrow> vec \<Rightarrow> vec list \<times> mat" where
  "greville_step n st a =
     (let cs = fst st; P = snd st;
          d = map (\<lambda>prow. dot prow a) P;
          c = map2 (-) a (lincomb n d cs);
          b = (if list_ex (\<lambda>v. v \<noteq> 0) c then map (\<lambda>v. v / dot c c) c
               else map (\<lambda>v. v / (1 + dot d d)) (lincomb n d P))
      in (cs @ [a], map2 (\<lambda>dj prow. map2 (\<lambda>p bv. p - dj * bv) prow b) d P @ [b]))"

definition greville :: "mat \<Rightarrow> mat" where
  "greville Z = snd (foldl (greville_step (length Z)) ([], []) (T Z))"

definition linalg_pinv :: "mat \<Rightarrow> mat" where
  "linalg_pinv Z =
     (case linalg_inv (matmul (T Z) Z) of
        Inr B \<Rightarrow> matmul B (T Z)
      | Inl _ \<Rightarrow> greville Z)"

subsubsection \<open>\<open>numpy.linalg.matrix_rank\<close>\<close>

text \<open>
  The rank, by elimination over the columns from the left.  numpy counts the singular
  values above a rounding tolerance; in exact arithmetic that is the rank.
\<close>

fun rank_elim :: "nat \<Rightarrow> mat \<Rightarrow> nat" where
  "rank_elim 0 rows = 0"
| "rank_elim (Suc c) rows =
     (case filter (\<lambda>r. hd r \<noteq> 0) rows of
        [] \<Rightarrow> rank_elim c (map tl rows)
      | p # _ \<Rightarrow>
          Suc (rank_elim c
                 (map (\<lambda>r. map2 (\<lambda>a b. a - (hd r / hd p) * b) (tl r) (tl p))
                      (remove1 p rows))))"

definition matrix_rank :: "mat \<Rightarrow> nat" where
  "matrix_rank A = rank_elim (ncols A) A"

subsection \<open>\<open>IV2SLS.estimate_parameters\<close> and \<open>IVLIML.estimate_parameters\<close>\<close>

definition IV2SLS_estimate_parameters :: "mat \<Rightarrow> mat \<Rightarrow> mat \<Rightarrow> error + mat" where
  "IV2SLS_estimate_parameters x y z =
     (let pinvz = linalg_pinv z in
      bind_e (linalg_inv (matmul (matmul (T x) z) (matmul pinvz x)))
        (\<lambda>a. Inr (matmul a (matmul (matmul (T x) z) (matmul pinvz y)))))"

definition IVLIML_estimate_parameters :: "mat \<Rightarrow> mat \<Rightarrow> mat \<Rightarrow> real \<Rightarrow> error + mat" where
  "IVLIML_estimate_parameters x y z kappa =
     (let pinvz = linalg_pinv z;
          p1 = madd (scale (1 - kappa) (matmul (T x) x))
                    (scale kappa (matmul (matmul (T x) z) (matmul pinvz x)));
          p2 = madd (scale (1 - kappa) (matmul (T x) y))
                    (scale kappa (matmul (matmul (T x) z) (matmul pinvz y)))
      in bind_e (linalg_inv p1) (\<lambda>a. Inr (matmul a p2)))"

definition IVGMM_estimate_parameters :: "mat \<Rightarrow> mat \<Rightarrow> mat \<Rightarrow> mat \<Rightarrow> error + mat" where
  "IVGMM_estimate_parameters x y z w =
     (let xpz = matmul (T x) z;
          zpy = matmul (T z) y
      in bind_e (linalg_inv (matmul (matmul xpz w) (T xpz)))
           (\<lambda>a. Inr (matmul a (matmul (matmul xpz w) zpy))))"

text \<open>
  The ordinary least squares solution \<open>(X\<^sup>t X)\<^sup>-\<^sup>1 X\<^sup>t y\<close>, written from the specification's
  formula; the module has no function for it.
\<close>

definition ols :: "mat \<Rightarrow> mat \<Rightarrow> error + mat" where
  "ols x y = bind_e (linalg_inv (matmul (T x) x)) (\<lambda>a. Inr (matmul a (matmul (T x) y)))"

subsection \<open>Keyword configurations\<close>

text \<open>
  A \<open>**config\<close> dictionary, in the order the keywords were given.  The values the module
  reads are booleans, \<open>None\<close>, integers (a bandwidth), strings (a kernel name) and an array of
  cluster labels.
\<close>

datatype cfg_val = CNone | CBool bool | CInt int | CStr string | CLabels "int list"

type_synonym config = "(string \<times> cfg_val) list"

text \<open>\<open>wc[key]\<close>\<close>

definition getitem :: "config \<Rightarrow> string \<Rightarrow> error + cfg_val" where
  "getitem wc key = (case map_of wc key of None \<Rightarrow> Inl (KeyError key) | Some v \<Rightarrow> Inr v)"

text \<open>The truth value Python gives a configuration value in \<open>if wc['center']\<close>.\<close>

definition truthy :: "cfg_val \<Rightarrow> error + bool" where
  "truthy v =
     (case v of
        CNone \<Rightarrow> Inr False
      | CBool b \<Rightarrow> Inr b
      | CInt i \<Rightarrow> Inr (i \<noteq> 0)
      | CStr s \<Rightarrow> Inr (s \<noteq> [])
      | CLabels ls \<Rightarrow>
          (case ls of
             [] \<Rightarrow> Inr False
           | [l] \<Rightarrow> Inr (l \<noteq> 0)
           | _ \<Rightarrow> Inl (ValueError ''The truth value of an array with more than one element is ambiguous'')))"

subsection \<open>The weight matrix classes\<close>

datatype weight_class =
    HomoskedasticWeightMatrix
  | HeteroskedasticWeightMatrix
  | KernelWeightMatrix
  | OneWayClusteredWeightMatrix

fun defaults :: "weight_class \<Rightarrow> config" where
  "defaults HomoskedasticWeightMatrix = [(''center'', CBool False)]"
| "defaults HeteroskedasticWeightMatrix = [(''center'', CBool False)]"
| "defaults KernelWeightMatrix =
     [(''kernel'', CStr ''bartlett''), (''center'', CBool False), (''bw'', CNone)]"
| "defaults OneWayClusteredWeightMatrix = [(''clusters'', CNone), (''center'', CBool False)]"

record weight_object =
  w_class :: weight_class
  w_config :: config
  w_bandwidth :: int

text \<open>
  \<open>HomoskedasticWeightMatrix.__init__\<close>, which every subclass calls: the first keyword that
  is not a key of the class's \<open>defaults\<close> raises; otherwise the defaults are updated with
  the keywords.
\<close>

definition WeightMatrix_init :: "weight_class \<Rightarrow> config \<Rightarrow> error + weight_object" where
  "WeightMatrix_init c weight_config =
     (case find (\<lambda>kv. map_of (defaults c) (fst kv) = None) weight_config of
        Some kv \<Rightarrow>
          Inl (ValueError (''Unknown weighting matrix configuration parameter '' @ fst kv))
      | None \<Rightarrow>
          Inr \<lparr>w_class = c,
               w_config = fold (\<lambda>kv wc. AList.update (fst kv) (snd kv) wc) weight_config (defaults c),
               w_bandwidth = 0\<rparr>)"

text \<open>
  \<open>A * B\<close> on two arrays: numpy stretches an axis of length one to the other operand's
  length (\<open>s2 * z.T\<close> with \<open>s2\<close> of shape 1 by 1, \<open>z * eps\<close> with \<open>eps\<close> of shape nobs by 1).
\<close>

definition bget :: "mat \<Rightarrow> nat \<Rightarrow> nat \<Rightarrow> real" where
  "bget A i j = A ! (if length A = 1 then 0 else i) ! (if ncols A = 1 then 0 else j)"

definition bmul :: "mat \<Rightarrow> mat \<Rightarrow> mat" where
  "bmul A B =
     map (\<lambda>i. map (\<lambda>j. bget A i j * bget B i j) [0..<max (ncols A) (ncols B)])
         [0..<max (length A) (length B)]"

text \<open>\<open>mu = ze.mean(axis=0) if wc['center'] else 0\<close>, then \<open>ze -= mu\<close>\<close>

definition mean_axis0 :: "mat \<Rightarrow> vec" where
  "mean_axis0 ze = map (\<lambda>j. sum_list (col ze j) / real (length ze)) [0..<ncols ze]"

definition demean :: "bool \<Rightarrow> mat \<Rightarrow> mat" where
  "demean center ze =
     (if center then map (\<lambda>r. map2 (-) r (mean_axis0 ze)) ze
      else map (map (\<lambda>v. v - 0)) ze)"

definition homoskedastic_weight_matrix :: "mat \<Rightarrow> mat \<Rightarrow> mat \<Rightarrow> mat" where
  "homoskedastic_weight_matrix x z eps =
     (let nobs = real (length x);
          s2 = divide_by (matmul (T eps) eps) nobs
      in divide_by (matmul (bmul s2 (T z)) z) nobs)"

definition heteroskedastic_weight_matrix :: "config \<Rightarrow> mat \<Rightarrow> mat \<Rightarrow> mat \<Rightarrow> error + mat" where
  "heteroskedastic_weight_matrix wc x z eps =
     (let nobs = real (length x) in
      bind_e (getitem wc ''center'') (\<lambda>c.
      bind_e (truthy c) (\<lambda>center.
        let ze = demean center (bmul z eps)
        in Inr (divide_by (matmul (T ze) ze) nobs))))"

text \<open>
  The kernel weight functions live in \<open>panel/iv/covariance.py\<close>, which is not part of the
  module: \<open>kw f bw\<close> stands for the array the function named \<open>f\<close> returns for bandwidth
  \<open>bw\<close>.  A lag \<open>i\<close> at or beyond the number of rows contributes a zero matrix.
\<close>

datatype kernel_fn =
    kernel_weight_bartlett
  | kernel_weight_parzen
  | kernel_weight_quadratic_spectral

definition kernels :: "string \<Rightarrow> kernel_fn option" where
  "kernels = map_of
     [(''bartlett'', kernel_weight_bartlett),
      (''newey-west'', kernel_weight_bartlett),
      (''parzen'', kernel_weight_parzen),
      (''gallant'', kernel_weight_parzen),
      (''andrews'', kernel_weight_quadratic_spectral),
      (''quadratic-spectral'', kernel_weight_quadratic_spectral),
      (''qs'', kernel_weight_quadratic_spectral)]"

fun lag_sum :: "real list \<Rightarrow> mat \<Rightarrow> nat \<Rightarrow> mat \<Rightarrow> nat list \<Rightarrow> error + mat" where
  "lag_sum w ze ninstr s [] = Inr s"
| "lag_sum w ze ninstr s (i # lags) =
     (if length w \<le> i then Inl IndexError
      else lag_sum w ze ninstr
             (madd s (if i < length ze
                      then matmul (scale (w ! i) (T (drop i ze))) (take (length ze - i) ze)
                      else zeros ninstr ninstr))
             lags)"

definition kernel_weight_matrix ::
  "(kernel_fn \<Rightarrow> int \<Rightarrow> real list) \<Rightarrow> config \<Rightarrow> mat \<Rightarrow> mat \<Rightarrow> mat \<Rightarrow> error + mat" where
  "kernel_weight_matrix kw wc x z eps =
     bind_e (getitem wc ''center'') (\<lambda>c.
     bind_e (truthy c) (\<lambda>center.
       let ze = demean center (bmul z eps);
           nobs = length z;
           ninstr = ncols z
       in
     bind_e (getitem wc ''bw'') (\<lambda>b.
     bind_e (getitem wc ''kernel'') (\<lambda>kernel.
     bind_e (case kernel of
               CStr name \<Rightarrow> (case kernels name of None \<Rightarrow> Inl (KeyError name) | Some f \<Rightarrow> Inr f)
             | CLabels _ \<Rightarrow> Inl TypeError
             | _ \<Rightarrow> Inl (KeyError [])) (\<lambda>f.
     bind_e (case b of
               CNone \<Rightarrow> Inr (int nobs - 2)
             | CInt v \<Rightarrow> Inr v
             | CBool v \<Rightarrow> Inr (if v then 1 else 0)
             | _ \<Rightarrow> Inl TypeError) (\<lambda>bw.
     bind_e (lag_sum (kw f bw) ze ninstr (matmul (T ze) ze) (map nat [1..bw])) (\<lambda>s.
       Inr (divide_by s (real nobs)))))))))"

definition arange :: "nat \<Rightarrow> int list" where
  "arange n = map int [0..<n]"

text \<open>
  \<open>numpy.argsort\<close>: the indices in the order of their labels.  Equal labels are kept in their
  order here; numpy's default sort may order them otherwise, which permutes rows inside a
  cluster only.
\<close>

definition argsort :: "int list \<Rightarrow> nat list" where
  "argsort cs = sort_key (\<lambda>i. cs ! i) [0..<length cs]"

definition nonzero :: "bool list \<Rightarrow> nat list" where
  "nonzero bs = filter (\<lambda>i. bs ! i) [0..<length bs]"

definition one_way_clustered_weight_matrix :: "config \<Rightarrow> mat \<Rightarrow> mat \<Rightarrow> mat \<Rightarrow> error + mat" where
  "one_way_clustered_weight_matrix wc x z eps =
     (let nobs = length z;
          ninstr = ncols z
      in
      bind_e (getitem wc ''center'') (\<lambda>c.
      bind_e (truthy c) (\<lambda>center.
        let ze = demean center (bmul z eps) in
      bind_e (getitem wc ''clusters'') (\<lambda>cl.
      bind_e (case cl of
                CNone \<Rightarrow> Inr (arange nobs)
              | CLabels ls \<Rightarrow> Inr ls
              | _ \<Rightarrow> Inl TypeError) (\<lambda>clusters.
        let ind = argsort clusters in
        if list_ex (\<lambda>i. length ze \<le> i) ind then Inl IndexError
        else
          let ze = map (\<lambda>i. ze ! i) ind;
              clusters = map (\<lambda>i. clusters ! i) ind;
              locs = nonzero (True # map2 (\<lambda>a b. a \<noteq> b) (tl clusters) (butlast clusters) @ [True]);
              st = butlast locs;
              en = tl locs;
              s = foldl (\<lambda>s se. let zec = take (snd se - fst se) (drop (fst se) ze)
                                 in madd s (matmul (T zec) zec))
                        (zeros ninstr ninstr) (zip st en)
          in Inr (divide_by s (real nobs)))))))"

text \<open>\<open>self._weight.weight_matrix(x, z, eps)\<close>, by the class of the object.\<close>

definition weight_matrix ::
  "(kernel_fn \<Rightarrow> int \<Rightarrow> real list) \<Rightarrow> weight_object \<Rightarrow> mat \<Rightarrow> mat \<Rightarrow> mat \<Rightarrow> error + mat" where
  "weight_matrix kw w x z eps =
     (case w_class w of
        HomoskedasticWeightMatrix \<Rightarrow> Inr (homoskedastic_weight_matrix x z eps)
      | HeteroskedasticWeightMatrix \<Rightarrow> heteroskedastic_weight_matrix (w_config w) x z eps
      | KernelWeightMatrix \<Rightarrow> kernel_weight_matrix kw (w_config w) x z eps
      | OneWayClusteredWeightMatrix \<Rightarrow> one_way_clustered_weight_matrix (w_config w) x z eps)"

definition WEIGHT_MATRICES :: "string \<Rightarrow> weight_class option" where
  "WEIGHT_MATRICES = map_of
     [(''unadjusted'', HomoskedasticWeightMatrix),
      (''homoskedastic'', HomoskedasticWeightMatrix),
      (''robust'', HeteroskedasticWeightMatrix),
      (''heteroskedastic'', HeteroskedasticWeightMatrix),
      (''kernel'', KernelWeightMatrix),
      (''clustered'', OneWayClusteredWeightMatrix)]"

subsection \<open>The covariance registry\<close>

text \<open>
  The covariance estimators are classes of \<open>panel/iv/covariance.py\<close>, outside the module.
  An estimator is built from \<open>(x, y, z, params, **cov_config)\<close> and read through \<open>.cov\<close>;
  the functions below take that step as a parameter \<open>covariance\<close> (and \<open>gmm_covariance\<close> for
  \<open>IVGMMCovariance\<close>, which is given the weight matrix too).
\<close>

datatype covariance_class =
    HomoskedasticCovariance
  | HeteroskedasticCovariance
  | KernelCovariance
  | OneWayClusteredCovariance

definition COVARIANCE_ESTIMATORS :: "string \<Rightarrow> covariance_class option" where
  "COVARIANCE_ESTIMATORS = map_of
     [(''homoskedastic'', HomoskedasticCovariance),
      (''unadjusted'', HomoskedasticCovariance),
      (''homo'', HomoskedasticCovariance),
      (''robust'', HeteroskedasticCovariance),
      (''heteroskedastic'', HeteroskedasticCovariance),
      (''hccm'', HeteroskedasticCovariance),
      (''newey-west'', KernelCovariance),
      (''bartlett'', KernelCovariance),
      (''one-way'', OneWayClusteredCovariance)]"

type_synonym covariance_fn =
  "covariance_class \<Rightarrow> mat \<Rightarrow> mat \<Rightarrow> mat \<Rightarrow> mat \<Rightarrow> config \<Rightarrow> error + mat"

type_synonym gmm_covariance_fn =
  "mat \<Rightarrow> mat \<Rightarrow> mat \<Rightarrow> mat \<Rightarrow> mat \<Rightarrow> config \<Rightarrow> error + mat"

text \<open>
  Modelled from the spec: \<open>has_constant\<close> of \<open>panel/utility.py\<close> is not part of the module;
  the specification calls it a generic "has a constant column" utility.  The general
  theorems take it as a parameter \<open>has_const\<close>; the evaluations on concrete data use this
  reading: some column has all its entries equal.
\<close>

definition has_constant_column :: "mat \<Rightarrow> bool" where
  "has_constant_column x =
     list_ex (\<lambda>j. list_all (\<lambda>v. v = hd (col x j)) (col x j)) [0..<ncols x]"

text \<open>
  Modelled from the spec: the covariance estimators of \<open>panel/iv/covariance.py\<close> are not
  part of the module, and the specification fixes their interface only: built from
  \<open>(X, y, Z, \<beta>, config)\<close>, and for GMM the weight matrix too, \<open>.cov\<close> is a \<open>k\<close> by \<open>k\<close> matrix.
  The general theorems take them as parameters; the evaluations on concrete data use the
  \<open>k\<close> by \<open>k\<close> zero matrix in their place, and none of them reads an entry of it.
\<close>

definition zero_covariance :: covariance_fn where
  "zero_covariance c x y z params cov_config = Inr (zeros (ncols x) (ncols x))"

definition zero_gmm_covariance :: gmm_covariance_fn where
  "zero_gmm_covariance x y z params w cov_config = Inr (zeros (ncols x) (ncols x))"

text \<open>
  Modelled from the spec: the kernel weight functions of \<open>panel/iv/covariance.py\<close> are not
  part of the module, and the specification gives their names only.  The evaluations on
  concrete data use weight classes that never call them, and pass this empty table.
\<close>

definition no_kernel_weights :: "kernel_fn \<Rightarrow> int \<Rightarrow> real list" where
  "no_kernel_weights f bw = []"

subsection \<open>\<open>IV2SLS\<close>: construction and validation\<close>

record iv_model =
  endog :: mat
  exog :: mat
  instruments :: mat
  has_constant :: bool
  regressor_is_exog :: "bool list"

text \<open>\<open>xc.ptp(axis=0)\<close>, the largest entry minus the smallest\<close>

definition ptp :: "vec \<Rightarrow> real" where
  "ptp xc = fold max xc (hd xc) - fold min xc (hd xc)"

text \<open>\<open>A @ v\<close> for a one-dimensional \<open>v\<close>\<close>

definition mv :: "mat \<Rightarrow> vec \<Rightarrow> vec" where
  "mv A v = map (\<lambda>r. dot r v) A"

text \<open>
  The body of the loop of \<open>_validate_inputs\<close> for column \<open>c\<close>: the value stored in
  \<open>_regressor_is_exog[c]\<close>.  Where \<open>xc.T @ xc\<close> is zero the quotient is \<open>nan\<close> or \<open>inf\<close> in
  floating point and the comparison is false.
\<close>

definition is_exog_column :: "mat \<Rightarrow> mat \<Rightarrow> nat \<Rightarrow> bool" where
  "is_exog_column x z c =
     (let xc = col x c;
          pinvz = linalg_pinv z
      in if list_all (\<lambda>v. v = 1) xc \<or> (ptp xc = 0 \<and> hd xc \<noteq> 0) then True
         else if list_ex (\<lambda>j. col z j = xc) [0..<ncols z] then True
         else
           let params = mv pinvz xc;
               e = map2 (-) xc (mv z params)
           in dot xc xc \<noteq> 0 \<and> dot e e / dot xc xc < 1 / 10 ^ 8)"

definition validate_inputs ::
  "(mat \<Rightarrow> bool) \<Rightarrow> mat \<Rightarrow> mat \<Rightarrow> bool list \<Rightarrow> error + bool \<times> bool list" where
  "validate_inputs has_const x z flags =
     (let c = has_const x in
      if matrix_rank x < ncols x
      then Inl (ValueError ''exogenous data does not have full column rank'')
      else if matrix_rank z < ncols z
      then Inl (ValueError ''exogenous data does not have full column rank'')
      else Inr (c, foldl (\<lambda>fl j. fl[j := is_exog_column x z j]) flags [0..<ncols x]))"

definition IV2SLS_init :: "(mat \<Rightarrow> bool) \<Rightarrow> mat \<Rightarrow> mat \<Rightarrow> mat \<Rightarrow> error + iv_model" where
  "IV2SLS_init has_const y x z =
     bind_e (validate_inputs has_const x z (replicate (ncols x) True))
       (\<lambda>v. Inr \<lparr>endog = y, exog = x, instruments = z,
                 has_constant = fst v, regressor_is_exog = snd v\<rparr>)"

subsection \<open>Results\<close>

text \<open>
  \<open>r2 = 1 - residual_ss / model_ss\<close> divides floats: a zero divisor gives \<open>inf\<close> or \<open>nan\<close>,
  not an exception, so the quotient is a value of its own type.
\<close>

datatype fval = Finite real | PosInf | NegInf | NaN

definition fdiv :: "real \<Rightarrow> real \<Rightarrow> fval" where
  "fdiv a b =
     (if b \<noteq> 0 then Finite (a / b)
      else if 0 < a then PosInf else if a < 0 then NegInf else NaN)"

definition one_minus :: "fval \<Rightarrow> fval" where
  "one_minus v =
     (case v of Finite r \<Rightarrow> Finite (1 - r) | PosInf \<Rightarrow> NegInf | NegInf \<Rightarrow> PosInf | NaN \<Rightarrow> NaN)"

record 'm iv_results =
  r_params :: mat
  r_cov :: mat
  rsquared :: "fval list list"
  r_cov_type :: string
  resid_ss :: mat
  total_ss :: mat
  r_model :: 'm
  r_kappa :: real

record 'm ivgmm_results = "'m iv_results" +
  weight_mat :: mat
  r_weight_type :: string
  r_weight_config :: config
  iterations :: int

text \<open>\<open>self.endog.mean()\<close>, the mean of all entries\<close>

definition mean :: "mat \<Rightarrow> real" where
  "mean y = sum_list (concat y) / real (length (concat y))"

definition sub_scalar :: "mat \<Rightarrow> real \<Rightarrow> mat" where
  "sub_scalar y mu = map (map (\<lambda>v. v - mu)) y"

definition resids :: "'a iv_model_scheme \<Rightarrow> mat \<Rightarrow> mat" where
  "resids m params = msub (endog m) (matmul (exog m) params)"

text \<open>
  The four lines each \<open>fit\<close> ends with: \<open>mu\<close>, \<open>residual_ss\<close>, \<open>model_ss\<close> and \<open>r2\<close>,
  returned as \<open>(r2, residual_ss, model_ss)\<close>.
\<close>

definition sums_of_squares ::
  "'a iv_model_scheme \<Rightarrow> mat \<Rightarrow> fval list list \<times> mat \<times> mat" where
  "sums_of_squares m eps =
     (let y = endog m;
          mu = (if has_constant m then mean y else 0);
          residual_ss = matmul (T eps) eps;
          model_ss = matmul (T (sub_scalar y mu)) (sub_scalar y mu);
          r2 = map2 (map2 (\<lambda>a b. one_minus (fdiv a b))) residual_ss model_ss
      in (r2, residual_ss, model_ss))"

subsection \<open>\<open>IV2SLS.fit\<close>\<close>

definition IV2SLS_fit ::
  "covariance_fn \<Rightarrow> iv_model \<Rightarrow> string \<Rightarrow> config \<Rightarrow> error + iv_model iv_results" where
  "IV2SLS_fit covariance m cov_type cov_config =
     (let y = endog m; x = exog m; z = instruments m in
      bind_e (IV2SLS_estimate_parameters x y z) (\<lambda>params.
        case COVARIANCE_ESTIMATORS cov_type of
          None \<Rightarrow> Inl (KeyError cov_type)
        | Some cov_estimator \<Rightarrow>
            let eps = resids m params in
            bind_e (covariance cov_estimator x y z params cov_config) (\<lambda>cov.
              let ss = sums_of_squares m eps
              in Inr \<lparr>r_params = params, r_cov = cov, rsquared = fst ss,
                      r_cov_type = cov_type, resid_ss = fst (snd ss), total_ss = snd (snd ss),
                      r_model = m, r_kappa = 1\<rparr>)))"

subsection \<open>\<open>IVLIML\<close>\<close>

datatype kappa_arg = KappaNone | KappaScalar real | KappaArray mat

record liml_model = iv_model +
  m_kappa :: "real option"

definition IVLIML_init ::
  "(mat \<Rightarrow> bool) \<Rightarrow> mat \<Rightarrow> mat \<Rightarrow> mat \<Rightarrow> kappa_arg \<Rightarrow> error + liml_model" where
  "IVLIML_init has_const y x z kappa =
     bind_e (IV2SLS_init has_const y x z) (\<lambda>m.
       case kappa of
         KappaArray _ \<Rightarrow> Inl (ValueError ''kappa must be None or a scalar'')
       | KappaNone \<Rightarrow> Inr (iv_model.extend m \<lparr>m_kappa = None\<rparr>)
       | KappaScalar k \<Rightarrow> Inr (iv_model.extend m \<lparr>m_kappa = Some k\<rparr>))"

text \<open>\<open>x[:, mask]\<close> and \<open>c_[a, b]\<close>\<close>

definition select_columns :: "mat \<Rightarrow> bool list \<Rightarrow> mat" where
  "select_columns x keep = map (\<lambda>r. map snd (filter fst (zip keep r))) x"

definition column_stack :: "mat \<Rightarrow> mat \<Rightarrow> mat" where
  "column_stack a b = map2 (@) a b"

text \<open>
  The default \<open>kappa\<close>.  \<open>inv_sqrth\<close> (of \<open>panel/utility.py\<close>) and \<open>numpy.linalg.eigvalsh\<close> are
  parameters: eigenvalues are not rational functions of the entries.
\<close>

definition liml_kappa ::
  "(mat \<Rightarrow> error + mat) \<Rightarrow> (mat \<Rightarrow> error + real list) \<Rightarrow> liml_model \<Rightarrow> error + real" where
  "liml_kappa inv_sqrth eigvalsh m =
     (let y = endog m; x = exog m; z = instruments m;
          is_exog = regressor_is_exog m;
          e = column_stack y (select_columns x (map Not is_exog));
          x1 = select_columns x is_exog;
          ez = msub e (matmul z (matmul (linalg_pinv z) e));
          ex1 = msub e (matmul x1 (matmul (linalg_pinv x1) e))
      in bind_e (inv_sqrth (matmul (T ez) ez)) (\<lambda>vpmzv_sqinv.
           let q = matmul (matmul vpmzv_sqinv (matmul (T ex1) ex1)) vpmzv_sqinv
           in bind_e (eigvalsh q) (\<lambda>ev.
                case ev of
                  [] \<Rightarrow> Inl (ValueError ''min() arg is an empty sequence'')
                | v # vs \<Rightarrow> Inr (fold min vs v))))"

definition IVLIML_fit ::
  "(mat \<Rightarrow> error + mat) \<Rightarrow> (mat \<Rightarrow> error + real list) \<Rightarrow> covariance_fn \<Rightarrow>
     liml_model \<Rightarrow> string \<Rightarrow> config \<Rightarrow> error + liml_model iv_results" where
  "IVLIML_fit inv_sqrth eigvalsh covariance m cov_type cov_config =
     (let y = endog m; x = exog m; z = instruments m in
      bind_e (case m_kappa m of
                None \<Rightarrow> liml_kappa inv_sqrth eigvalsh m
              | Some k \<Rightarrow> Inr k) (\<lambda>kappa.
      bind_e (IVLIML_estimate_parameters x y z kappa) (\<lambda>params.
        case COVARIANCE_ESTIMATORS cov_type of
          None \<Rightarrow> Inl (KeyError cov_type)
        | Some cov_estimator \<Rightarrow>
            let eps = resids m params in
            bind_e (covariance cov_estimator x y z params cov_config) (\<lambda>cov.
              let ss = sums_of_squares m eps
              in Inr \<lparr>r_params = params, r_cov = cov, rsquared = fst ss,
                      r_cov_type = cov_type, resid_ss = fst (snd ss), total_ss = snd (snd ss),
                      r_model = m, r_kappa = kappa\<rparr>))))"

subsection \<open>\<open>IVGMM\<close>\<close>

record gmm_model = iv_model +
  m_weight :: weight_object
  m_weight_type :: string
  m_weight_config :: config

definition IVGMM_init ::
  "(mat \<Rightarrow> bool) \<Rightarrow> mat \<Rightarrow> mat \<Rightarrow> mat \<Rightarrow> string \<Rightarrow> config \<Rightarrow> error + gmm_model" where
  "IVGMM_init has_const y x z weight_type weight_config =
     bind_e (IV2SLS_init has_const y x z) (\<lambda>m.
       case WEIGHT_MATRICES weight_type of
         None \<Rightarrow> Inl (KeyError weight_type)
       | Some weight_matrix_estimator \<Rightarrow>
           bind_e (WeightMatrix_init weight_matrix_estimator weight_config) (\<lambda>w.
             Inr (iv_model.extend m
                    \<lparr>m_weight = w, m_weight_type = weight_type, m_weight_config = w_config w\<rparr>)))"

text \<open>
  The local variables of \<open>IVGMM.fit\<close> that its loop assigns.  \<open>eps\<close>, \<open>w\<close> and \<open>vinv\<close> are
  unbound until the loop body has run; \<open>norm\<close> is the entry of the 1 by 1 array
  \<open>delta.T @ vinv @ delta\<close>.
\<close>

record gmm_state =
  st_norm :: real
  st_params :: mat
  st_prev_params :: mat
  st_eps :: "mat option"
  st_w :: "mat option"
  st_vinv :: "mat option"

definition item :: "mat \<Rightarrow> real" where
  "item A = hd (hd A)"

text \<open>One pass through the body of the \<open>while\<close> loop, with the counter \<open>i\<close> it starts from.\<close>

definition gmm_body ::
  "(mat \<Rightarrow> mat \<Rightarrow> mat \<Rightarrow> error + mat) \<Rightarrow> mat \<Rightarrow> mat \<Rightarrow> mat \<Rightarrow> int \<Rightarrow> gmm_state
     \<Rightarrow> error + gmm_state" where
  "gmm_body wm x y z i s =
     (let nobs = real (length y);
          eps = msub y (matmul x (st_params s))
      in
      bind_e (wm x z eps) (\<lambda>wmat.
      bind_e (linalg_inv wmat) (\<lambda>w.
      bind_e (IVGMM_estimate_parameters x y z w) (\<lambda>params.
        let delta = msub params (st_prev_params s);
            xpz = divide_by (matmul (T x) z) nobs
        in
      bind_e (if i = 1
              then linalg_inv (divide_by (matmul (matmul xpz w) (T xpz)) nobs)
              else (case st_vinv s of
                      None \<Rightarrow> Inl (UnboundLocalError ''vinv'')
                    | Some v \<Rightarrow> Inr v)) (\<lambda>vinv.
        Inr \<lparr>st_norm = item (matmul (matmul (T delta) vinv) delta),
             st_params = params,
             st_prev_params = params,
             st_eps = Some eps,
             st_w = Some w,
             st_vinv = Some vinv\<rparr>)))))"

text \<open>\<open>while i < iter_limit and norm > tol\<close>: the result is the final counter and state.\<close>

function gmm_loop ::
  "(mat \<Rightarrow> mat \<Rightarrow> mat \<Rightarrow> error + mat) \<Rightarrow> mat \<Rightarrow> mat \<Rightarrow> mat \<Rightarrow> int \<Rightarrow> real \<Rightarrow> int \<Rightarrow> gmm_state
     \<Rightarrow> error + int \<times> gmm_state" where
  "gmm_loop wm x y z iter_limit tol i s =
     (if i < iter_limit \<and> st_norm s > tol
      then (case gmm_body wm x y z i s of
              Inl e \<Rightarrow> Inl e
            | Inr s' \<Rightarrow> gmm_loop wm x y z iter_limit tol (i + 1) s')
      else Inr (i, s))"
  by pat_completeness auto
termination
  by (relation "measure (\<lambda>(wm, x, y, z, iter_limit, tol, i, s). nat (iter_limit - i))") auto

declare gmm_loop.simps [simp del]

definition IVGMM_fit ::
  "(kernel_fn \<Rightarrow> int \<Rightarrow> real list) \<Rightarrow> gmm_covariance_fn \<Rightarrow> gmm_model \<Rightarrow> int \<Rightarrow> real
     \<Rightarrow> string \<Rightarrow> config \<Rightarrow> error + gmm_model ivgmm_results" where
  "IVGMM_fit kw gmm_covariance m iter_limit tol cov_type cov_config =
     (let y = endog m; x = exog m; z = instruments m;
          ninstr = ncols z
      in
      bind_e (IVGMM_estimate_parameters x y z (eye ninstr)) (\<lambda>params.
      bind_e (gmm_loop (weight_matrix kw (m_weight m)) x y z iter_limit tol 1
                \<lparr>st_norm = 10 * tol, st_params = params, st_prev_params = params,
                 st_eps = None, st_w = None, st_vinv = None\<rparr>) (\<lambda>res.
        let i = fst res; s = snd res in
        case st_w s of
          None \<Rightarrow> Inl (UnboundLocalError ''w'')
        | Some w \<Rightarrow>
            bind_e (gmm_covariance x y z (st_params s) w cov_config) (\<lambda>cov.
              case st_eps s of
                None \<Rightarrow> Inl (UnboundLocalError ''eps'')
              | Some eps \<Rightarrow>
                  let ss = sums_of_squares m eps
                  in Inr \<lparr>r_params = st_params s, r_cov = cov, rsquared = fst ss,
                          r_cov_type = cov_type, resid_ss = fst (snd ss),
                          total_ss = snd (snd ss), r_model = m, r_kappa = 1,
                          weight_mat = w, r_weight_type = m_weight_type m,
                          r_weight_config = m_weight_config m, iterations = i\<rparr>))))"

subsection \<open>Predicates of the proofs\<close>

text \<open>\<open>gmm_iterate k\<close> runs the body of the loop \<open>k\<close> times from counter \<open>i\<close>, whatever \<open>norm\<close> is.\<close>

fun gmm_iterate ::
  "nat \<Rightarrow> (mat \<Rightarrow> mat \<Rightarrow> mat \<Rightarrow> error + mat) \<Rightarrow> mat \<Rightarrow> mat \<Rightarrow> mat \<Rightarrow> int \<Rightarrow> gmm_state
     \<Rightarrow> error + gmm_state" where
  "gmm_iterate 0 wm x y z i s = Inr s"
| "gmm_iterate (Suc k) wm x y z i s =
     (case gmm_body wm x y z i s of
        Inl e \<Rightarrow> Inl e
      | Inr s' \<Rightarrow> gmm_iterate k wm x y z (i + 1) s')"

text \<open>
  \<open>vm r A\<close> is the row vector \<open>r\<close> times \<open>A\<close>; \<open>gj_inv A n row\<close> says that a row \<open>[l | r]\<close> of
  the elimination satisfies \<open>l = r A\<close>, which every row operation keeps.
\<close>

definition vm :: "vec \<Rightarrow> mat \<Rightarrow> vec" where
  "vm r A = map (\<lambda>j. dot r (col A j)) [0..<ncols A]"

definition gj_inv :: "mat \<Rightarrow> nat \<Rightarrow> vec \<Rightarrow> bool" where
  "gj_inv A n row \<longleftrightarrow> length row = 2 * n \<and> take n row = vm (drop n row) A"

text \<open>
  \<open>reduced n j rows\<close>: the first \<open>j\<close> columns of the \<open>n\<close> rows of the elimination are
  already those of the identity.
\<close>

definition reduced :: "nat \<Rightarrow> nat \<Rightarrow> mat \<Rightarrow> bool" where
  "reduced n j rows \<longleftrightarrow>
     length rows = n \<and> (\<forall>i<n. length (rows ! i) = 2 * n) \<and>
     (\<forall>i<n. \<forall>c<j. rows ! i ! c = (if i = c then 1 else 0))"

section \<open>Shapes and matrix algebra\<close>

lemma length_T: "length (T A) = ncols A"
  by (simp add: T_def)

lemma length_matmul: "length (matmul A B) = length A"
  by (simp add: matmul_def)

lemma row_matmul: "i < length A \<Longrightarrow> length (matmul A B ! i) = ncols B"
  by (simp add: matmul_def)

lemma ncols_matmul_le: "ncols (matmul A B) \<le> ncols B"
  by (cases A) (simp_all add: matmul_def ncols_def)

lemma madd_zero_one:
  assumes "length A = length B"
    and "\<And>i. i < length B \<Longrightarrow> length (B ! i) \<le> length (A ! i)"
  shows "madd (scale 0 A) (scale 1 B) = B"
proof (rule nth_equalityI)
  show "length (madd (scale 0 A) (scale 1 B)) = length B"
    using assms(1) by (simp add: madd_def scale_def)
next
  fix i assume "i < length (madd (scale 0 A) (scale 1 B))"
  then have i: "i < length B" "i < length A"
    using assms(1) by (simp_all add: madd_def scale_def)
  have "map2 (+) (map (\<lambda>v. 0 * v) (A ! i)) (map (\<lambda>v. 1 * v) (B ! i)) = B ! i"
  proof (rule nth_equalityI)
    show "length (map2 (+) (map (\<lambda>v. 0 * v) (A ! i)) (map (\<lambda>v. 1 * v) (B ! i))) = length (B ! i)"
      using assms(2)[OF i(1)] by simp
  next
    fix j assume "j < length (map2 (+) (map (\<lambda>v. 0 * v) (A ! i)) (map (\<lambda>v. 1 * v) (B ! i)))"
    then show "map2 (+) (map (\<lambda>v. 0 * v) (A ! i)) (map (\<lambda>v. 1 * v) (B ! i)) ! j = B ! i ! j"
      by simp
  qed
  then show "madd (scale 0 A) (scale 1 B) ! i = B ! i"
    using i by (simp add: madd_def scale_def)
qed

lemma kappa_one_combination:
  "madd (scale 0 (matmul (T x) M)) (scale 1 (matmul (matmul (T x) z) (matmul P M)))
     = matmul (matmul (T x) z) (matmul P M)"
proof (rule madd_zero_one)
  show "length (matmul (T x) M) = length (matmul (matmul (T x) z) (matmul P M))"
    by (simp add: length_matmul)
next
  fix i assume "i < length (matmul (matmul (T x) z) (matmul P M))"
  then have i: "i < length (T x)" by (simp add: length_matmul)
  then have "length (matmul (matmul (T x) z) (matmul P M) ! i) = ncols (matmul P M)"
    by (simp add: row_matmul length_matmul)
  moreover have "length (matmul (T x) M ! i) = ncols M"
    using i by (simp add: row_matmul)
  ultimately show "length (matmul (matmul (T x) z) (matmul P M) ! i) \<le> length (matmul (T x) M ! i)"
    using ncols_matmul_le[of P M] by simp
qed



lemma is_mat_row: "is_mat n m A \<Longrightarrow> i < n \<Longrightarrow> length (A ! i) = m"
  by (simp add: is_mat_def)

lemma is_mat_length: "is_mat n m A \<Longrightarrow> length A = n"
  by (simp add: is_mat_def)

lemma is_mat_ncols: "is_mat n m A \<Longrightarrow> 0 < n \<Longrightarrow> ncols A = m"
  by (cases A) (auto simp: is_mat_def ncols_def)

lemma is_matI: "length A = n \<Longrightarrow> (\<And>i. i < n \<Longrightarrow> length (A ! i) = m) \<Longrightarrow> is_mat n m A"
  by (auto simp: is_mat_def in_set_conv_nth)

lemma mat_eqI:
  assumes "is_mat n m A" "is_mat n m B"
    and "\<And>i j. i < n \<Longrightarrow> j < m \<Longrightarrow> A ! i ! j = B ! i ! j"
  shows "A = B"
proof (rule nth_equalityI)
  show "length A = length B" using assms(1,2) by (simp add: is_mat_def)
next
  fix i assume "i < length A"
  then have i: "i < n" using assms(1) by (simp add: is_mat_def)
  show "A ! i = B ! i"
  proof (rule nth_equalityI)
    show "length (A ! i) = length (B ! i)"
      using i assms(1,2) by (simp add: is_mat_row)
  next
    fix j assume "j < length (A ! i)"
    then have "j < m" using i assms(1) by (simp add: is_mat_row)
    then show "A ! i ! j = B ! i ! j" using i assms(3) by simp
  qed
qed

lemma col_nth: "i < length A \<Longrightarrow> col A j ! i = A ! i ! j"
  by (simp add: col_def)

lemma length_col: "length (col A j) = length A"
  by (simp add: col_def)

lemma T_nth: "is_mat n m A \<Longrightarrow> 0 < n \<Longrightarrow> j < m \<Longrightarrow> i < n \<Longrightarrow> T A ! j ! i = A ! i ! j"
  by (simp add: T_def is_mat_ncols col_nth is_mat_length)

lemma is_mat_T: "is_mat n m A \<Longrightarrow> 0 < n \<Longrightarrow> is_mat m n (T A)"
  by (rule is_matI) (simp_all add: T_def is_mat_ncols length_col is_mat_length)

lemma dot_sum: "length u = length v \<Longrightarrow> dot u v = (\<Sum>k<length u. u ! k * v ! k)"
proof -
  assume l: "length u = length v"
  have "dot u v = (\<Sum>k = 0..<length (map2 (*) u v). map2 (*) u v ! k)"
    unfolding dot_def by (rule sum_list_sum_nth)
  also have "\<dots> = (\<Sum>k = 0..<length u. u ! k * v ! k)"
    using l by (intro sum.cong) simp_all
  finally show ?thesis by (simp add: atLeast0LessThan)
qed

lemma matmul_nth:
  assumes "is_mat n p A" "is_mat p q B" "0 < p" "i < n" "j < q"
  shows "matmul A B ! i ! j = (\<Sum>k<p. A ! i ! k * B ! k ! j)"
proof -
  have "matmul A B ! i ! j = dot (A ! i) (col B j)"
    using assms by (simp add: matmul_def is_mat_length is_mat_ncols)
  also have "\<dots> = (\<Sum>k<p. A ! i ! k * col B j ! k)"
    using assms by (simp add: dot_sum is_mat_row length_col is_mat_length)
  also have "\<dots> = (\<Sum>k<p. A ! i ! k * B ! k ! j)"
    using assms by (intro sum.cong) (simp_all add: col_nth is_mat_length)
  finally show ?thesis .
qed

lemma is_mat_matmul:
  "is_mat n p A \<Longrightarrow> is_mat p q B \<Longrightarrow> 0 < p \<Longrightarrow> is_mat n q (matmul A B)"
  by (rule is_matI) (simp_all add: matmul_def is_mat_length is_mat_ncols)

lemma matmul_assoc:
  assumes A: "is_mat n p A" and B: "is_mat p q B" and C: "is_mat q r C"
    and p: "0 < p" and q: "0 < q"
  shows "matmul (matmul A B) C = matmul A (matmul B C)"
proof (rule mat_eqI)
  show "is_mat n r (matmul (matmul A B) C)"
    by (rule is_mat_matmul[OF is_mat_matmul[OF A B p] C q])
  show "is_mat n r (matmul A (matmul B C))"
    by (rule is_mat_matmul[OF A is_mat_matmul[OF B C q] p])
next
  fix i j assume i: "i < n" and j: "j < r"
  have "matmul (matmul A B) C ! i ! j = (\<Sum>l<q. matmul A B ! i ! l * C ! l ! j)"
    by (rule matmul_nth[OF is_mat_matmul[OF A B p] C q i j])
  also have "\<dots> = (\<Sum>l<q. (\<Sum>k<p. A ! i ! k * B ! k ! l) * C ! l ! j)"
    by (intro sum.cong refl) (simp add: matmul_nth[OF A B p i])
  also have "\<dots> = (\<Sum>l<q. \<Sum>k<p. A ! i ! k * (B ! k ! l * C ! l ! j))"
    by (simp add: sum_distrib_right mult.assoc)
  also have "\<dots> = (\<Sum>k<p. \<Sum>l<q. A ! i ! k * (B ! k ! l * C ! l ! j))"
    by (rule sum.swap)
  also have "\<dots> = (\<Sum>k<p. A ! i ! k * matmul B C ! k ! j)"
    by (intro sum.cong refl) (simp add: matmul_nth[OF B C q _ j] sum_distrib_left)
  also have "\<dots> = matmul A (matmul B C) ! i ! j"
    by (rule matmul_nth[OF A is_mat_matmul[OF B C q] p i j, symmetric])
  finally show "matmul (matmul A B) C ! i ! j = matmul A (matmul B C) ! i ! j" .
qed

lemma is_mat_eye: "is_mat n n (eye n)"
  by (rule is_matI) (simp_all add: eye_def)

lemma eye_nth: "i < n \<Longrightarrow> j < n \<Longrightarrow> eye n ! i ! j = (if i = j then 1 else 0)"
  by (simp add: eye_def)

lemma matmul_eye_left:
  assumes A: "is_mat n m A" and n: "0 < n"
  shows "matmul (eye n) A = A"
proof (rule mat_eqI[OF is_mat_matmul[OF is_mat_eye A n] A])
  fix i j assume i: "i < n" and j: "j < m"
  have "matmul (eye n) A ! i ! j = (\<Sum>k<n. eye n ! i ! k * A ! k ! j)"
    by (rule matmul_nth[OF is_mat_eye A n i j])
  also have "\<dots> = (\<Sum>k<n. if k = i then A ! k ! j else 0)"
    using i by (intro sum.cong refl) (auto simp: eye_nth)
  also have "\<dots> = A ! i ! j"
    using i by simp
  finally show "matmul (eye n) A ! i ! j = A ! i ! j" .
qed

lemma matmul_eye_right:
  assumes A: "is_mat n m A" and m: "0 < m"
  shows "matmul A (eye m) = A"
proof (rule mat_eqI[OF is_mat_matmul[OF A is_mat_eye m] A])
  fix i j assume i: "i < n" and j: "j < m"
  have "matmul A (eye m) ! i ! j = (\<Sum>k<m. A ! i ! k * eye m ! k ! j)"
    by (rule matmul_nth[OF A is_mat_eye m i j])
  also have "\<dots> = (\<Sum>k<m. if k = j then A ! i ! k else 0)"
    using j by (intro sum.cong refl) (auto simp: eye_nth)
  also have "\<dots> = A ! i ! j"
    using j by simp
  finally show "matmul A (eye m) ! i ! j = A ! i ! j" .
qed

lemma T_matmul:
  assumes A: "is_mat n p A" and B: "is_mat p q B" and n: "0 < n" and p: "0 < p" and q: "0 < q"
  shows "T (matmul A B) = matmul (T B) (T A)"
proof (rule mat_eqI)
  show "is_mat q n (T (matmul A B))"
    by (rule is_mat_T[OF is_mat_matmul[OF A B p] n])
  show "is_mat q n (matmul (T B) (T A))"
    by (rule is_mat_matmul[OF is_mat_T[OF B p] is_mat_T[OF A n] p])
next
  fix j i assume j: "j < q" and i: "i < n"
  have "T (matmul A B) ! j ! i = matmul A B ! i ! j"
    by (rule T_nth[OF is_mat_matmul[OF A B p] n j i])
  also have "\<dots> = (\<Sum>k<p. A ! i ! k * B ! k ! j)"
    by (rule matmul_nth[OF A B p i j])
  also have "\<dots> = (\<Sum>k<p. T B ! j ! k * T A ! k ! i)"
    using i j by (intro sum.cong refl) (simp add: T_nth[OF A n] T_nth[OF B p])
  also have "\<dots> = matmul (T B) (T A) ! j ! i"
    by (rule matmul_nth[OF is_mat_T[OF B p] is_mat_T[OF A n] p j i, symmetric])
  finally show "T (matmul A B) ! j ! i = matmul (T B) (T A) ! j ! i" .
qed

lemma T_T:
  assumes A: "is_mat n m A" and n: "0 < n" and m: "0 < m"
  shows "T (T A) = A"
proof (rule mat_eqI[OF is_mat_T[OF is_mat_T[OF A n] m] A])
  fix i j assume "i < n" "j < m"
  then show "T (T A) ! i ! j = A ! i ! j"
    by (simp add: T_nth[OF is_mat_T[OF A n] m] T_nth[OF A n])
qed

lemma T_eye: "0 < n \<Longrightarrow> T (eye n) = eye n"
  by (rule mat_eqI[OF is_mat_T[OF is_mat_eye] is_mat_eye])
     (auto simp: T_nth[OF is_mat_eye] eye_nth)


section \<open>The inverse is a left inverse\<close>


lemma matmul_vm: "matmul A B = map (\<lambda>r. vm r B) A"
  by (simp add: matmul_def vm_def)

lemma dot_scale: "dot (map (\<lambda>v. v / c) r) u = dot r u / c"
  unfolding dot_def
proof (induction r arbitrary: u)
  case Nil then show ?case by simp
next
  case (Cons a r) then show ?case by (cases u) (simp_all add: add_divide_distrib)
qed

lemma dot_axpy:
  "length r = length s \<Longrightarrow> dot (map2 (\<lambda>a b. a - c * b) r s) u = dot r u - c * dot s u"
  unfolding dot_def
proof (induction r s arbitrary: u rule: list_induct2)
  case Nil then show ?case by simp
next
  case (Cons a r b s) then show ?case by (cases u) (simp_all add: algebra_simps)
qed

lemma gj_inv_scale: "gj_inv A n r \<Longrightarrow> gj_inv A n (map (\<lambda>v. v / c) r)"
  by (simp add: gj_inv_def take_map drop_map vm_def dot_scale)

lemma gj_inv_axpy:
  assumes "gj_inv A n r" "gj_inv A n s"
  shows "gj_inv A n (map2 (\<lambda>a b. a - c * b) r s)"
proof -
  have l: "length r = 2 * n" "length s = 2 * n" using assms by (simp_all add: gj_inv_def)
  have d: "length (drop n r) = length (drop n s)" using l by simp
  have "take n (map2 (\<lambda>a b. a - c * b) r s) = map2 (\<lambda>a b. a - c * b) (take n r) (take n s)"
    by (simp add: take_map take_zip)
  also have "\<dots> = map2 (\<lambda>a b. a - c * b) (vm (drop n r) A) (vm (drop n s) A)"
    using assms by (simp add: gj_inv_def)
  also have "\<dots> = vm (map2 (\<lambda>a b. a - c * b) (drop n r) (drop n s)) A"
    by (rule nth_equalityI) (simp_all add: vm_def dot_axpy[OF d])
  also have "\<dots> = vm (drop n (map2 (\<lambda>a b. a - c * b) r s)) A"
    by (simp add: drop_map drop_zip)
  finally show ?thesis using l by (simp add: gj_inv_def)
qed

lemma eliminate_inv:
  assumes "eliminate j rows = Some rows'" and "\<forall>r \<in> set rows. gj_inv A n r"
  shows "(\<forall>r \<in> set rows'. gj_inv A n r) \<and> length rows' = length rows"
proof -
  from assms(1) obtain p where
    p: "find (\<lambda>p. rows ! p ! j \<noteq> 0) [j..<length rows] = Some p"
    by (auto simp: eliminate_def split: option.splits)
  then have "p \<in> set [j..<length rows]"
    by (auto simp: find_Some_iff in_set_conv_nth)
  then have jp: "j \<le> p" "p < length rows" by simp_all
  define rows1 where "rows1 = rows[j := rows ! p, p := rows ! j]"
  define prow where "prow = map (\<lambda>v. v / (rows1 ! j ! j)) (rows1 ! j)"
  have rows': "rows' = map (\<lambda>i. if i = j then prow
                 else map2 (\<lambda>a b. a - (rows1 ! i ! j) * b) (rows1 ! i) prow) [0..<length rows]"
    using assms(1) p unfolding eliminate_def rows1_def prow_def by (auto simp: Let_def)
  have sub: "set rows1 \<subseteq> set rows"
  proof -
    have "set rows1 \<subseteq> insert (rows ! j) (set (rows[j := rows ! p]))"
      unfolding rows1_def by (rule set_update_subset_insert)
    also have "\<dots> \<subseteq> insert (rows ! j) (insert (rows ! p) (set rows))"
      using set_update_subset_insert[of rows j "rows ! p"] by auto
    also have "\<dots> = set rows" using jp by auto
    finally show ?thesis .
  qed
  have len1: "length rows1 = length rows" by (simp add: rows1_def)
  have r1: "\<And>i. i < length rows \<Longrightarrow> gj_inv A n (rows1 ! i)"
    using sub assms(2) len1 by (metis nth_mem subsetD)
  have pr: "gj_inv A n prow"
    unfolding prow_def using jp by (intro gj_inv_scale r1) simp
  have "\<And>i. i < length rows \<Longrightarrow> gj_inv A n (rows' ! i)"
    by (simp add: rows' pr gj_inv_axpy r1)
  moreover have "length rows' = length rows" by (simp add: rows')
  ultimately show ?thesis by (auto simp: in_set_conv_nth)
qed

lemma gauss_jordan_inv:
  "gauss_jordan js rows = Some rows' \<Longrightarrow> \<forall>r \<in> set rows. gj_inv A n r
     \<Longrightarrow> (\<forall>r \<in> set rows'. gj_inv A n r) \<and> length rows' = length rows"
proof (induction js arbitrary: rows)
  case Nil then show ?case by simp
next
  case (Cons j js)
  then obtain rows1 where e: "eliminate j rows = Some rows1" and g: "gauss_jordan js rows1 = Some rows'"
    by (auto split: option.splits)
  from eliminate_inv[OF e Cons.prems(2)] Cons.IH[OF g] show ?case by simp
qed

lemma dot_unit:
  assumes "i < n" "length u = n"
  shows "dot (map (\<lambda>j. if i = j then 1 else 0) [0..<n]) u = u ! i"
proof -
  have "dot (map (\<lambda>j. if i = j then 1 else 0) [0..<n]) u
          = (\<Sum>k<n. (if i = k then 1 else 0) * u ! k)"
    using assms by (subst dot_sum) (auto intro!: sum.cong)
  also have "\<dots> = (\<Sum>k<n. if k = i then u ! k else 0)"
    by (intro sum.cong refl) auto
  also have "\<dots> = u ! i" using assms by simp
  finally show ?thesis .
qed

lemma gj_inv_init:
  assumes A: "is_mat n n A"
  shows "\<forall>r \<in> set (map2 (@) A (eye n)). gj_inv A n r"
proof -
  have "gj_inv A n (map2 (@) A (eye n) ! i)" if i: "i < n" for i
  proof -
    have n: "0 < n" using i by simp
    have row: "map2 (@) A (eye n) ! i = A ! i @ eye n ! i"
      using i A by (simp add: is_mat_length eye_def)
    have la: "length (A ! i) = n" using A i by (rule is_mat_row)
    have le: "length (eye n ! i) = n" using i by (simp add: eye_def)
    have "vm (eye n ! i) A = A ! i"
    proof (rule nth_equalityI)
      show "length (vm (eye n ! i) A) = length (A ! i)"
        using la A n by (simp add: vm_def is_mat_ncols)
    next
      fix j assume "j < length (vm (eye n ! i) A)"
      then have j: "j < n" using A n by (simp add: vm_def is_mat_ncols)
      have "dot (eye n ! i) (col A j) = col A j ! i"
        using i A by (simp add: eye_def dot_unit length_col is_mat_length)
      then show "vm (eye n ! i) A ! j = A ! i ! j"
        using j i A n by (simp add: vm_def is_mat_ncols col_nth is_mat_length)
    qed
    then show ?thesis using la le by (simp add: gj_inv_def row)
  qed
  moreover have "length (map2 (@) A (eye n)) = n"
    using A by (simp add: is_mat_length eye_def)
  ultimately show ?thesis by (auto simp: in_set_conv_nth)
qed

lemma eliminate_reduced:
  assumes j: "j < n" and r: "reduced n j rows" and e: "eliminate j rows = Some rows'"
  shows "reduced n (Suc j) rows'"
proof -
  from r have len: "length rows = n" and rl: "\<And>i. i < n \<Longrightarrow> length (rows ! i) = 2 * n"
    and col: "\<And>i c. i < n \<Longrightarrow> c < j \<Longrightarrow> rows ! i ! c = (if i = c then 1 else 0)"
    by (simp_all add: reduced_def)
  from e obtain p where
    p: "find (\<lambda>p. rows ! p ! j \<noteq> 0) [j..<length rows] = Some p"
    by (auto simp: eliminate_def split: option.splits)
  then have pj: "j \<le> p" "p < n" and piv: "rows ! p ! j \<noteq> 0"
    using len by (auto simp: find_Some_iff)
  define rows1 where "rows1 = rows[j := rows ! p, p := rows ! j]"
  define prow where "prow = map (\<lambda>v. v / (rows1 ! j ! j)) (rows1 ! j)"
  have rows': "rows' = map (\<lambda>i. if i = j then prow
                 else map2 (\<lambda>a b. a - (rows1 ! i ! j) * b) (rows1 ! i) prow) [0..<n]"
    using e p len unfolding eliminate_def rows1_def prow_def by (auto simp: Let_def)
  have r1: "\<And>i. i < n \<Longrightarrow> rows1 ! i = (if i = p then rows ! j else if i = j then rows ! p else rows ! i)"
    using len j pj by (auto simp: rows1_def nth_list_update)
  have r1j: "rows1 ! j = rows ! p" using r1[OF j] pj by auto
  have l1: "\<And>i. i < n \<Longrightarrow> length (rows1 ! i) = 2 * n"
    using r1 rl j pj by auto
  have lp: "length prow = 2 * n" by (simp add: prow_def l1[OF j])
  have pc: "\<And>c. c < j \<Longrightarrow> prow ! c = 0"
  proof -
    fix c assume c: "c < j"
    then have "rows ! p ! c = 0" using col[OF pj(2) c] pj by simp
    then show "prow ! c = 0" using c j by (simp add: prow_def r1j rl[OF pj(2)])
  qed
  have pjj: "prow ! j = 1"
    using piv j by (simp add: prow_def r1j rl[OF pj(2)])
  have c1: "\<And>i c. i < n \<Longrightarrow> i \<noteq> j \<Longrightarrow> c < j \<Longrightarrow> rows1 ! i ! c = (if i = c then 1 else 0)"
  proof -
    fix i c assume i: "i < n" "i \<noteq> j" and c: "c < j"
    show "rows1 ! i ! c = (if i = c then 1 else 0)"
    proof (cases "i = p")
      case True
      then have "rows1 ! i ! c = rows ! j ! c" using r1[OF i(1)] by simp
      also have "\<dots> = 0" using col[OF j c] c by simp
      finally show ?thesis using True pj c by simp
    next
      case False
      then show ?thesis using r1[OF i(1)] i col[OF i(1) c] by simp
    qed
  qed
  have "length rows' = n" by (simp add: rows')
  moreover have "\<forall>i<n. length (rows' ! i) = 2 * n"
    by (simp add: rows' lp l1)
  moreover have "\<forall>i<n. \<forall>c<Suc j. rows' ! i ! c = (if i = c then 1 else 0)"
  proof (intro allI impI)
    fix i c assume i: "i < n" and c: "c < Suc j"
    have c2: "c < 2 * n" using c j by simp
    show "rows' ! i ! c = (if i = c then 1 else 0)"
    proof (cases "i = j")
      case True
      then show ?thesis using i c pc pjj by (cases "c = j") (simp_all add: rows')
    next
      case False
      have "rows' ! i ! c = rows1 ! i ! c - rows1 ! i ! j * prow ! c"
        using i False c2 by (simp add: rows' lp l1)
      also have "\<dots> = (if i = c then 1 else 0)"
      proof (cases "c = j")
        case True
        then show ?thesis using pjj False by simp
      next
        case cj: False
        then have "c < j" using c by simp
        then show ?thesis using pc c1[OF i False] by simp
      qed
      finally show ?thesis .
    qed
  qed
  ultimately show ?thesis by (simp add: reduced_def)
qed

lemma gauss_jordan_reduced:
  "j \<le> n \<Longrightarrow> reduced n j rows \<Longrightarrow> gauss_jordan [j..<n] rows = Some rows'
     \<Longrightarrow> reduced n n rows'"
proof (induction "n - j" arbitrary: j rows)
  case 0
  then show ?case by simp
next
  case (Suc d)
  then have j: "j < n" by simp
  then have u: "[j..<n] = j # [Suc j..<n]" by (simp add: upt_conv_Cons)
  from Suc.prems(3) obtain rows1 where e: "eliminate j rows = Some rows1"
    and g: "gauss_jordan [Suc j..<n] rows1 = Some rows'"
    by (auto simp: u split: option.splits)
  have "reduced n (Suc j) rows1" by (rule eliminate_reduced[OF j Suc.prems(2) e])
  moreover have "d = n - Suc j" using Suc.hyps(2) by simp
  ultimately show ?case using Suc.hyps(1)[of "Suc j" rows1] j g by simp
qed

lemma reduced_init:
  assumes "is_mat n n A"
  shows "reduced n 0 (map2 (@) A (eye n))"
  using assms by (simp add: reduced_def is_mat_def eye_def)

lemma reduced_identity:
  assumes "reduced n n rows"
  shows "map (take n) rows = eye n"
proof (rule mat_eqI[where n = n and m = n])
  show "is_mat n n (map (take n) rows)"
    using assms by (intro is_matI) (simp_all add: reduced_def)
  show "is_mat n n (eye n)" by (rule is_mat_eye)
next
  fix i j assume "i < n" "j < n"
  then show "map (take n) rows ! i ! j = eye n ! i ! j"
    using assms by (simp add: reduced_def eye_nth)
qed

lemma gauss_jordan_identity:
  assumes "is_mat n n A" and "gauss_jordan [0..<n] (map2 (@) A (eye n)) = Some rows"
  shows "map (take n) rows = eye n"
  by (rule reduced_identity[OF gauss_jordan_reduced[OF _ reduced_init[OF assms(1)] assms(2)]]) simp

lemma linalg_inv_left:
  assumes "linalg_inv A = Inr B"
  shows "is_mat (length A) (length A) A \<and> is_mat (length A) (length A) B
         \<and> matmul B A = eye (length A)"
proof -
  define n where "n = length A"
  from assms have sq: "\<forall>r \<in> set A. length r = n"
    by (auto simp: linalg_inv_def Let_def n_def list_all_iff split: if_splits)
  then have A: "is_mat n n A" by (simp add: is_mat_def n_def)
  from assms sq obtain rows where
    g: "gauss_jordan [0..<n] (map2 (@) A (eye n)) = Some rows"
    and B: "B = map (drop n) rows"
    by (auto simp: linalg_inv_def Let_def n_def list_all_iff split: if_splits option.splits)
  have e: "map (take n) rows = eye n" by (rule gauss_jordan_identity[OF A g])
  from gauss_jordan_inv[OF g gj_inv_init[OF A]]
  have inv: "\<forall>r \<in> set rows. gj_inv A n r" and len: "length rows = n"
    using A by (simp_all add: is_mat_length eye_def)
  have "is_mat n n B"
    using inv len by (auto simp: B is_mat_def gj_inv_def)
  moreover have "matmul B A = eye n"
  proof -
    have "matmul B A = map (\<lambda>r. vm (drop n r) A) rows"
      by (simp add: matmul_vm B comp_def)
    also have "\<dots> = map (take n) rows"
      using inv by (intro map_cong refl) (simp add: gj_inv_def)
    finally show ?thesis using e by simp
  qed
  ultimately show ?thesis using A by (simp add: n_def)
qed


section \<open>The pseudoinverse of a matrix of full column rank\<close>


lemma gram_symmetric:
  assumes x: "is_mat n k x" and n: "0 < n" and k: "0 < k"
  shows "T (matmul (T x) x) = matmul (T x) x"
  using T_matmul[OF is_mat_T[OF x n] x k n k] by (simp add: T_T[OF x n k])

lemma symmetric_left_inverse_is_right:
  assumes S: "is_mat k k S" and B: "is_mat k k B" and k: "0 < k"
    and sym: "T S = S" and left: "matmul B S = eye k"
  shows "matmul S B = eye k"
proof -
  have "matmul (T S) (T B) = T (matmul B S)"
    by (rule T_matmul[OF B S k k k, symmetric])
  then have r: "matmul S (T B) = eye k"
    using sym left k by (simp add: T_eye)
  have TB: "is_mat k k (T B)" by (rule is_mat_T[OF B k])
  have "B = matmul B (matmul S (T B))"
    using r B k by (simp add: matmul_eye_right)
  also have "\<dots> = matmul (matmul B S) (T B)"
    by (rule matmul_assoc[OF B S TB k k, symmetric])
  also have "\<dots> = T B"
    using left TB k by (simp add: matmul_eye_left)
  finally have "T B = B" by simp
  with r show ?thesis by simp
qed

lemma pinv_full_rank_projection:
  assumes x: "is_mat n k x" and y: "is_mat n q y" and n: "0 < n" and k: "0 < k"
    and inv: "linalg_inv (matmul (T x) x) = Inr B"
  shows "matmul (matmul (T x) x) (matmul (linalg_pinv x) y) = matmul (T x) y"
proof -
  let ?S = "matmul (T x) x"
  have Tx: "is_mat k n (T x)" by (rule is_mat_T[OF x n])
  have S: "is_mat k k ?S" by (rule is_mat_matmul[OF Tx x n])
  from linalg_inv_left[OF inv] S
  have B: "is_mat k k B" and left: "matmul B ?S = eye k"
    by (simp_all add: is_mat_length)
  have right: "matmul ?S B = eye k"
    by (rule symmetric_left_inverse_is_right[OF S B k gram_symmetric[OF x n k] left])
  have Txy: "is_mat k q (matmul (T x) y)" by (rule is_mat_matmul[OF Tx y n])
  have "matmul ?S (matmul (linalg_pinv x) y) = matmul ?S (matmul (matmul B (T x)) y)"
    by (simp add: linalg_pinv_def inv)
  also have "\<dots> = matmul ?S (matmul B (matmul (T x) y))"
    by (simp add: matmul_assoc[OF B Tx y k n])
  also have "\<dots> = matmul (matmul ?S B) (matmul (T x) y)"
    by (rule matmul_assoc[OF S B Txy k k, symmetric])
  also have "\<dots> = matmul (T x) y"
    by (simp add: right matmul_eye_left[OF Txy k])
  finally show ?thesis .
qed

lemma pinv_full_rank_left_inverse:
  assumes x: "is_mat n k x" and n: "0 < n" and k: "0 < k"
    and inv: "linalg_inv (matmul (T x) x) = Inr B"
  shows "matmul (linalg_pinv x) x = eye k"
proof -
  have Tx: "is_mat k n (T x)" by (rule is_mat_T[OF x n])
  have S: "is_mat k k (matmul (T x) x)" by (rule is_mat_matmul[OF Tx x n])
  from linalg_inv_left[OF inv] S
  have B: "is_mat k k B" and left: "matmul B (matmul (T x) x) = eye k"
    by (simp_all add: is_mat_length)
  show ?thesis
    by (simp add: linalg_pinv_def inv matmul_assoc[OF B Tx x k n] left)
qed



section \<open>Broadcast products and the homoskedastic weight matrix\<close>

lemma dot_smul: "dot (map (\<lambda>v. c * v) r) u = c * dot r u"
  unfolding dot_def
proof (induction r arbitrary: u)
  case Nil then show ?case by simp
next
  case (Cons a r) then show ?case by (cases u) (simp_all add: algebra_simps)
qed

lemma matmul_scale_left: "matmul (scale c A) B = scale c (matmul A B)"
  by (simp add: matmul_def scale_def dot_smul comp_def)

lemma one_by_one: "is_mat 1 1 A \<Longrightarrow> A = [[item A]]"
  by (cases A; cases "hd A") (auto simp: is_mat_def item_def)

lemma bmul_one_by_one:
  assumes B: "is_mat p q B" and p: "0 < p" and q: "0 < q"
  shows "bmul [[c]] B = scale c B"
proof (rule mat_eqI[where n = p and m = q])
  have c1: "ncols [[c]] = 1" by (simp add: ncols_def)
  have mx: "max (ncols [[c]]) (ncols B) = q" "max (Suc 0) (length B) = p"
    using B p q by (simp_all add: c1 is_mat_ncols is_mat_length max_def)
  show "is_mat p q (bmul [[c]] B)"
    by (rule is_matI) (simp_all add: bmul_def mx)
  show "is_mat p q (scale c B)"
    using B by (auto simp: is_mat_def scale_def)
  fix i j assume i: "i < p" and j: "j < q"
  have "bget B i j = B ! i ! j"
    using B p i j by (auto simp: bget_def is_mat_length is_mat_ncols)
  moreover have "bget [[c]] i j = c" by (simp add: bget_def c1)
  ultimately show "bmul [[c]] B ! i ! j = scale c B ! i ! j"
    using i j B by (simp add: bmul_def mx scale_def is_mat_length is_mat_row)
qed

lemma homoskedastic_weight_matrix_formula:
  assumes z: "is_mat n m z" and eps: "is_mat n 1 eps" and x: "length x = n"
    and n: "0 < n" and m: "0 < m"
  shows "homoskedastic_weight_matrix x z eps
         = divide_by (scale (item (matmul (T eps) eps) / real n) (matmul (T z) z)) (real n)"
proof -
  have ee: "is_mat 1 1 (matmul (T eps) eps)"
    by (rule is_mat_matmul[OF is_mat_T[OF eps n] eps n])
  have "divide_by (matmul (T eps) eps) (real n) = divide_by [[item (matmul (T eps) eps)]] (real n)"
    using one_by_one[OF ee] by simp
  then have s2: "divide_by (matmul (T eps) eps) (real n) = [[item (matmul (T eps) eps) / real n]]"
    by (simp add: divide_by_def)
  show ?thesis
    by (simp add: homoskedastic_weight_matrix_def Let_def x s2
        bmul_one_by_one[OF is_mat_T[OF z n] m n] matmul_scale_left)
qed


section \<open>Clusters of one observation\<close>

lemma demean_False: "demean False A = A"
  by (simp add: demean_def map_idI)

lemma is_mat_bmul_column:
  assumes z: "is_mat n m z" and e: "is_mat n 1 eps" and n: "0 < n" and m: "0 < m"
  shows "is_mat n m (bmul z eps)"
proof -
  have "ncols z = m" "ncols eps = 1" using z e n by (simp_all add: is_mat_ncols)
  moreover have "length z = n" "length eps = n" using z e by (simp_all add: is_mat_length)
  ultimately show ?thesis using m by (intro is_matI) (simp_all add: bmul_def max_def)
qed

lemma mset_argsort: "mset (argsort cs) = mset [0..<length cs]"
  by (simp add: argsort_def)

lemma set_argsort: "set (argsort cs) = {0..<length cs}"
  using mset_argsort[of cs] by (metis mset_eq_setD set_upt)

lemma length_argsort: "length (argsort cs) = length cs"
  using mset_argsort[of cs] by (metis size_mset length_upt diff_zero)

lemma distinct_argsort: "distinct (argsort cs)"
  using mset_argsort[of cs] by (metis distinct_upt mset_eq_imp_distinct_iff)

lemma distinct_sorted_labels:
  assumes "distinct cs"
  shows "distinct (map (\<lambda>i. cs ! i) (argsort cs))"
proof -
  have "inj_on (\<lambda>i. cs ! i) (set (argsort cs))"
    using assms by (auto simp: set_argsort inj_on_def nth_eq_iff_index_eq)
  then show ?thesis by (simp add: distinct_map distinct_argsort)
qed

lemma adjacent_distinct:
  assumes "distinct c"
  shows "map2 (\<lambda>a b. a \<noteq> b) (tl c) (butlast c) = replicate (length c - 1) True"
proof (rule nth_equalityI)
  show "length (map2 (\<lambda>a b. a \<noteq> b) (tl c) (butlast c)) = length (replicate (length c - 1) True)"
    by simp
next
  fix i assume "i < length (map2 (\<lambda>a b. a \<noteq> b) (tl c) (butlast c))"
  then have i: "i < length c - 1" by simp
  then have "tl c ! i = c ! Suc i" "butlast c ! i = c ! i"
    by (simp_all add: nth_tl nth_butlast)
  moreover have "c ! Suc i \<noteq> c ! i"
    using assms i by (simp add: nth_eq_iff_index_eq)
  ultimately show "map2 (\<lambda>a b. a \<noteq> b) (tl c) (butlast c) ! i = replicate (length c - 1) True ! i"
    using i by simp
qed

lemma nonzero_all_True: "nonzero (replicate k True) = [0..<k]"
proof -
  have "filter (\<lambda>i. replicate k True ! i) [0..<k] = filter (\<lambda>i. True) [0..<k]"
    by (rule filter_cong) simp_all
  then show ?thesis by (simp add: nonzero_def)
qed

lemma cluster_boundaries:
  assumes "distinct c" and "0 < length c"
  shows "nonzero (True # map2 (\<lambda>a b. a \<noteq> b) (tl c) (butlast c) @ [True]) = [0..<Suc (length c)]"
proof -
  have "True # replicate (length c - 1) True @ [True] = replicate (Suc (length c)) True"
    using assms(2) by (cases "length c") (simp_all add: replicate_append_same)
  then show ?thesis
    using nonzero_all_True[of "Suc (length c)"] by (simp add: adjacent_distinct[OF assms(1)])
qed

lemma zip_boundaries:
  "zip (butlast [0..<Suc n]) (tl [0..<Suc n]) = map (\<lambda>i. (i, Suc i)) [0..<n]"
proof -
  have "butlast [0..<Suc n] = [0..<n]" by simp
  moreover have "tl [0..<Suc n] = map Suc [0..<n]"
    by (simp add: map_Suc_upt upt_conv_Cons del: upt_Suc)
  ultimately show ?thesis by (simp add: zip_map2 zip_same_conv_map)
qed

lemma single_row_block: "i < length A \<Longrightarrow> take (Suc 0) (drop i A) = [A ! i]"
  by (simp add: take_Suc_conv_app_nth)

lemma is_mat_madd: "is_mat n m A \<Longrightarrow> is_mat n m B \<Longrightarrow> is_mat n m (madd A B)"
  by (rule is_matI) (simp_all add: madd_def is_mat_def)

lemma madd_nth:
  "is_mat n m A \<Longrightarrow> is_mat n m B \<Longrightarrow> i < n \<Longrightarrow> j < m \<Longrightarrow> madd A B ! i ! j = A ! i ! j + B ! i ! j"
  by (simp add: madd_def is_mat_def)

lemma is_mat_zeros: "is_mat n m (zeros n m)"
  by (simp add: is_mat_def zeros_def)

lemma zeros_nth: "i < n \<Longrightarrow> j < m \<Longrightarrow> zeros n m ! i ! j = 0"
  by (simp add: zeros_def)

lemma outer_row:
  assumes r: "length r = m" and m: "0 < m"
  shows "is_mat m m (matmul (T [r]) [r])"
    and "a < m \<Longrightarrow> b < m \<Longrightarrow> matmul (T [r]) [r] ! a ! b = r ! a * r ! b"
proof -
  have R: "is_mat 1 m [r]" using r by (simp add: is_mat_def)
  have TR: "is_mat m 1 (T [r])" by (rule is_mat_T[OF R]) simp
  show "is_mat m m (matmul (T [r]) [r])" by (rule is_mat_matmul[OF TR R]) simp
  assume ab: "a < m" "b < m"
  have "matmul (T [r]) [r] ! a ! b = (\<Sum>k<1. T [r] ! a ! k * [r] ! k ! b)"
    by (rule matmul_nth[OF TR R _ ab]) simp
  also have "\<dots> = r ! a * r ! b"
    using ab by (simp add: T_nth[OF R])
  finally show "matmul (T [r]) [r] ! a ! b = r ! a * r ! b" .
qed

lemma foldl_madd:
  assumes "is_mat m m S" and "\<forall>M \<in> set Ms. is_mat m m M"
  shows "is_mat m m (foldl madd S Ms) \<and>
         (\<forall>a<m. \<forall>b<m. foldl madd S Ms ! a ! b = S ! a ! b + sum_list (map (\<lambda>M. M ! a ! b) Ms))"
  using assms
proof (induction Ms arbitrary: S)
  case Nil then show ?case by simp
next
  case (Cons M Ms)
  have M: "is_mat m m M" using Cons.prems(2) by simp
  have SM: "is_mat m m (madd S M)" by (rule is_mat_madd[OF Cons.prems(1) M])
  from Cons.IH[OF SM] Cons.prems(2)
  have "is_mat m m (foldl madd (madd S M) Ms)"
    and "\<forall>a<m. \<forall>b<m. foldl madd (madd S M) Ms ! a ! b
            = madd S M ! a ! b + sum_list (map (\<lambda>M. M ! a ! b) Ms)"
    by simp_all
  then show ?case
    by (simp add: madd_nth[OF Cons.prems(1) M] add.assoc)
qed

lemma sum_list_permuted:
  fixes f :: "nat \<Rightarrow> real"
  assumes "mset ind = mset [0..<n]"
  shows "sum_list (map f ind) = (\<Sum>k<n. f k)"
proof -
  have "sum_list (map f ind) = sum_mset (image_mset f (mset ind))"
    by (simp add: sum_mset_sum_list[symmetric])
  also have "\<dots> = sum_mset (image_mset f (mset [0..<n]))"
    by (simp add: assms)
  also have "\<dots> = sum_list (map f [0..<n])"
    by (simp add: sum_mset_sum_list[symmetric])
  also have "\<dots> = (\<Sum>k<n. f k)"
    by (simp add: interv_sum_list_conv_sum_set_nat atLeast0LessThan)
  finally show ?thesis .
qed

lemma clustered_sum_singletons:
  assumes ze: "is_mat n m ze" and n: "0 < n" and m: "0 < m"
    and d: "distinct ls" and l: "length ls = n"
  shows "foldl (\<lambda>s se. let zec = take (snd se - fst se) (drop (fst se) (map (\<lambda>i. ze ! i) (argsort ls)))
                       in madd s (matmul (T zec) zec))
           (zeros m m)
           (zip (butlast (nonzero (True # map2 (\<lambda>a b. a \<noteq> b)
                                   (tl (map (\<lambda>i. ls ! i) (argsort ls)))
                                   (butlast (map (\<lambda>i. ls ! i) (argsort ls))) @ [True])))
                (tl (nonzero (True # map2 (\<lambda>a b. a \<noteq> b)
                                   (tl (map (\<lambda>i. ls ! i) (argsort ls)))
                                   (butlast (map (\<lambda>i. ls ! i) (argsort ls))) @ [True]))))
         = matmul (T ze) ze"
proof -
  define ind where "ind = argsort ls"
  define ze1 where "ze1 = map (\<lambda>i. ze ! i) ind"
  define c1 where "c1 = map (\<lambda>i. ls ! i) ind"
  define outer where "outer = (\<lambda>r::vec. matmul (T [r]) [r])"
  have li: "length ind = n" by (simp add: ind_def length_argsort l)
  have mi: "mset ind = mset [0..<n]" by (simp add: ind_def mset_argsort l)
  have si: "set ind = {0..<n}" by (simp add: ind_def set_argsort l)
  have dc: "distinct c1" unfolding c1_def ind_def by (rule distinct_sorted_labels[OF d])
  have lc: "length c1 = n" by (simp add: c1_def li)
  have locs: "nonzero (True # map2 (\<lambda>a b. a \<noteq> b) (tl c1) (butlast c1) @ [True]) = [0..<Suc n]"
    using cluster_boundaries[OF dc] n lc by simp
  have l1: "length ze1 = n" by (simp add: ze1_def li)
  have rows: "\<And>i. i < n \<Longrightarrow> length (ze1 ! i) = m"
    using ze si li by (simp add: ze1_def is_mat_def) (metis atLeastLessThan_iff nth_mem)
  have fold_eq:
    "foldl (\<lambda>s se. let zec = take (snd se - fst se) (drop (fst se) ze1)
                   in madd s (matmul (T zec) zec))
       (zeros m m) (map (\<lambda>i. (i, Suc i)) [0..<n])
     = foldl madd (zeros m m) (map (\<lambda>i. outer (ze1 ! i)) [0..<n])"
  proof -
    have "foldl (\<lambda>s se. let zec = take (snd se - fst se) (drop (fst se) ze1)
                   in madd s (matmul (T zec) zec))
            S (map (\<lambda>i. (i, Suc i)) js)
          = foldl madd S (map (\<lambda>i. outer (ze1 ! i)) js)"
      if "set js \<subseteq> {0..<n}" for S js
      using that
    proof (induction js arbitrary: S)
      case Nil then show ?case by simp
    next
      case (Cons j js)
      then have j: "j < length ze1" by (simp add: l1)
      show ?case using Cons by (simp add: single_row_block[OF j] outer_def Let_def)
    qed
    then show ?thesis by simp
  qed
  have outs: "\<forall>M \<in> set (map (\<lambda>i. outer (ze1 ! i)) [0..<n]). is_mat m m M"
    using outer_row(1)[OF rows m] by (auto simp: outer_def)
  from foldl_madd[OF is_mat_zeros outs]
  have S: "is_mat m m (foldl madd (zeros m m) (map (\<lambda>i. outer (ze1 ! i)) [0..<n]))"
    and Sab: "\<And>a b. a < m \<Longrightarrow> b < m \<Longrightarrow>
        foldl madd (zeros m m) (map (\<lambda>i. outer (ze1 ! i)) [0..<n]) ! a ! b
          = zeros m m ! a ! b + sum_list (map (\<lambda>M. M ! a ! b) (map (\<lambda>i. outer (ze1 ! i)) [0..<n]))"
    by blast+
  have Tze: "is_mat m n (T ze)" by (rule is_mat_T[OF ze n])
  have "foldl madd (zeros m m) (map (\<lambda>i. outer (ze1 ! i)) [0..<n]) = matmul (T ze) ze"
  proof (rule mat_eqI[OF S is_mat_matmul[OF Tze ze n]])
    fix a b assume a: "a < m" and b: "b < m"
    have "foldl madd (zeros m m) (map (\<lambda>i. outer (ze1 ! i)) [0..<n]) ! a ! b
            = sum_list (map (\<lambda>i. outer (ze1 ! i) ! a ! b) [0..<n])"
      using Sab[OF a b] a b by (simp add: zeros_nth comp_def)
    also have "\<dots> = sum_list (map (\<lambda>i. ze1 ! i ! a * ze1 ! i ! b) [0..<n])"
      using outer_row(2)[OF rows m a b] by (intro arg_cong[of _ _ sum_list] map_cong refl) (simp add: outer_def)
    also have "\<dots> = sum_list (map (\<lambda>k. ze ! k ! a * ze ! k ! b) ind)"
    proof -
      have "map (\<lambda>i. ze1 ! i ! a * ze1 ! i ! b) [0..<n]
              = map (\<lambda>i. ze ! (ind ! i) ! a * ze ! (ind ! i) ! b) [0..<length ind]"
        using li by (intro map_cong) (simp_all add: ze1_def)
      also have "\<dots> = map (\<lambda>k. ze ! k ! a * ze ! k ! b) (map (\<lambda>i. ind ! i) [0..<length ind])"
        by (simp add: comp_def)
      also have "\<dots> = map (\<lambda>k. ze ! k ! a * ze ! k ! b) ind"
        by (simp only: map_nth)
      finally show ?thesis by simp
    qed
    also have "\<dots> = (\<Sum>k<n. ze ! k ! a * ze ! k ! b)"
      by (rule sum_list_permuted[OF mi])
    also have "\<dots> = (\<Sum>k<n. T ze ! a ! k * ze ! k ! b)"
      using a by (intro sum.cong refl) (simp add: T_nth[OF ze n])
    also have "\<dots> = matmul (T ze) ze ! a ! b"
      by (rule matmul_nth[OF Tze ze n a b, symmetric])
    finally show "foldl madd (zeros m m) (map (\<lambda>i. outer (ze1 ! i)) [0..<n]) ! a ! b
                    = matmul (T ze) ze ! a ! b" .
  qed
  then have "foldl (\<lambda>s se. let zec = take (snd se - fst se) (drop (fst se) ze1)
                       in madd s (matmul (T zec) zec))
           (zeros m m)
           (zip (butlast (nonzero (True # map2 (\<lambda>a b. a \<noteq> b) (tl c1) (butlast c1) @ [True])))
                (tl (nonzero (True # map2 (\<lambda>a b. a \<noteq> b) (tl c1) (butlast c1) @ [True]))))
         = matmul (T ze) ze"
    by (simp only: locs zip_boundaries fold_eq)
  then show ?thesis by (simp only: ze1_def c1_def ind_def)
qed

lemma one_way_clustered_distinct_labels:
  assumes z: "is_mat n m z" and e: "is_mat n 1 eps" and n: "0 < n" and m: "0 < m"
    and c: "getitem wc ''center'' = Inr (CBool False)"
    and cl: "getitem wc ''clusters'' = Inr cv"
    and cv: "(case cv of CNone \<Rightarrow> Inr (arange n) | CLabels ls \<Rightarrow> Inr ls | _ \<Rightarrow> Inl TypeError) = Inr ls"
    and d: "distinct ls" and l: "length ls = n"
  shows "one_way_clustered_weight_matrix wc x z eps
           = Inr (divide_by (matmul (T (bmul z eps)) (bmul z eps)) (real n))"
proof -
  have ze: "is_mat n m (bmul z eps)" by (rule is_mat_bmul_column[OF z e n m])
  have lz: "length z = n" "ncols z = m" using z n by (simp_all add: is_mat_length is_mat_ncols)
  have lze: "length (bmul z eps) = n" using ze by (simp add: is_mat_length)
  have ok: "\<not> list_ex (\<lambda>i. length (bmul z eps) \<le> i) (argsort ls)"
    by (auto simp: list_ex_iff set_argsort l lze)
  show ?thesis
    using cv
    by (simp add: one_way_clustered_weight_matrix_def Let_def bind_e_def c cl truthy_def
        demean_False lz ok clustered_sum_singletons[OF ze n m d l, unfolded Let_def])
qed

lemma distinct_arange: "distinct (arange n)" "length (arange n) = n"
  by (simp_all add: arange_def distinct_map)

lemma heteroskedastic_default:
  assumes "getitem wc ''center'' = Inr (CBool False)" and "length x = n"
  shows "heteroskedastic_weight_matrix wc x z eps
           = Inr (divide_by (matmul (T (bmul z eps)) (bmul z eps)) (real n))"
  using assms
  by (simp add: heteroskedastic_weight_matrix_def Let_def bind_e_def truthy_def demean_False)


section \<open>Shapes of the estimate and the sums of squares\<close>

lemma ncols_matmul: "A \<noteq> [] \<Longrightarrow> ncols (matmul A B) = ncols B"
  by (cases A) (simp_all add: matmul_def ncols_def)

lemma length_greville_fold:
  "length (snd (foldl (greville_step n) st cs)) = length (snd st) + length cs"
  by (induction cs arbitrary: st) (simp_all add: greville_step_def Let_def)

lemma length_greville: "length (greville Z) = ncols Z"
  by (simp add: greville_def length_greville_fold length_T)

lemma length_linalg_pinv: "length (linalg_pinv Z) = ncols Z"
proof (cases "linalg_inv (matmul (T Z) Z)")
  case (Inl e)
  then show ?thesis by (simp add: linalg_pinv_def length_greville)
next
  case (Inr B)
  from linalg_inv_left[OF Inr] have "length B = length (matmul (T Z) Z)"
    by (simp add: is_mat_def)
  with Inr show ?thesis by (simp add: linalg_pinv_def length_matmul length_T)
qed

lemma length_linalg_inv: "linalg_inv A = Inr B \<Longrightarrow> length B = length A"
  using linalg_inv_left[of A B] by (simp add: is_mat_def)

lemma ncols_2sls_params:
  assumes x: "is_mat n k x" and y: "is_mat n 1 y" and z: "is_mat n q z"
    and n: "0 < n" and k: "0 < k" and q: "0 < q"
    and est: "IV2SLS_estimate_parameters x y z = Inr params"
  shows "is_mat k 1 params"
proof -
  let ?P = "linalg_pinv z"
  let ?M = "matmul (matmul (T x) z) (matmul ?P y)"
  from est obtain a where a: "linalg_inv (matmul (matmul (T x) z) (matmul ?P x)) = Inr a"
    and p: "params = matmul a ?M"
    by (auto simp: IV2SLS_estimate_parameters_def Let_def bind_e_def split: sum.splits)
  have la: "length a = k"
    using length_linalg_inv[OF a] x n by (simp add: length_matmul length_T is_mat_ncols)
  have P: "?P \<noteq> []"
    using length_linalg_pinv[of z] z n q by (auto simp: is_mat_ncols)
  have "T x \<noteq> []" using x n k length_T[of x] by (auto simp: is_mat_ncols)
  then have "matmul (T x) z \<noteq> []" using length_matmul[of "T x" z] by auto
  then have "ncols ?M = ncols (matmul ?P y)" by (rule ncols_matmul)
  also have "\<dots> = 1" using P y n by (simp add: ncols_matmul is_mat_ncols)
  finally have "ncols ?M = 1" .
  then show ?thesis
    unfolding p by (intro is_matI) (simp_all add: matmul_def la)
qed

lemma is_mat_msub: "is_mat n m A \<Longrightarrow> is_mat n m B \<Longrightarrow> is_mat n m (msub A B)"
  by (rule is_matI) (simp_all add: msub_def is_mat_def)

lemma is_mat_sub_scalar: "is_mat n m A \<Longrightarrow> is_mat n m (sub_scalar A c)"
  by (auto simp: is_mat_def sub_scalar_def)

lemma item_nth: "is_mat n m A \<Longrightarrow> 0 < n \<Longrightarrow> 0 < m \<Longrightarrow> item A = A ! 0 ! 0"
  by (cases A; cases "hd A") (auto simp: item_def is_mat_def)

lemma sum_of_squares_nonneg:
  assumes e: "is_mat n 1 e" and n: "0 < n"
  shows "is_mat 1 1 (matmul (T e) e) \<and> 0 \<le> item (matmul (T e) e)"
proof -
  have Te: "is_mat 1 n (T e)" by (rule is_mat_T[OF e n])
  have m: "is_mat 1 1 (matmul (T e) e)" by (rule is_mat_matmul[OF Te e n])
  have "item (matmul (T e) e) = matmul (T e) e ! 0 ! 0"
    by (rule item_nth[OF m]) simp_all
  also have "\<dots> = (\<Sum>k<n. T e ! 0 ! k * e ! k ! 0)"
    by (rule matmul_nth[OF Te e n]) simp_all
  also have "\<dots> = (\<Sum>k<n. e ! k ! 0 * e ! k ! 0)"
    by (intro sum.cong refl) (simp add: T_nth[OF e n])
  finally have "item (matmul (T e) e) = (\<Sum>k<n. e ! k ! 0 * e ! k ! 0)" .
  then have "0 \<le> item (matmul (T e) e)" by (simp add: sum_nonneg)
  with m show ?thesis by simp
qed

lemma sums_of_squares_r2:
  assumes y: "is_mat n 1 (endog m)" and e: "is_mat n 1 eps" and n: "0 < n"
    and t: "0 < item (snd (snd (sums_of_squares m eps)))"
  shows "\<exists>v. fst (sums_of_squares m eps) = [[Finite v]] \<and> v \<le> 1"
proof -
  define mu where "mu = (if has_constant m then mean (endog m) else 0)"
  define d where "d = sub_scalar (endog m) mu"
  have d: "is_mat n 1 d" unfolding d_def by (rule is_mat_sub_scalar[OF y])
  from sum_of_squares_nonneg[OF e n] have r1: "is_mat 1 1 (matmul (T eps) eps)"
    and r0: "0 \<le> item (matmul (T eps) eps)" by simp_all
  from sum_of_squares_nonneg[OF d n] have t1: "is_mat 1 1 (matmul (T d) d)" by simp
  have tss: "snd (snd (sums_of_squares m eps)) = matmul (T d) d"
    by (simp add: sums_of_squares_def Let_def d_def mu_def)
  have tpos: "0 < item (matmul (T d) d)" using t tss by simp
  have "fst (sums_of_squares m eps)
          = map2 (map2 (\<lambda>a b. one_minus (fdiv a b))) (matmul (T eps) eps) (matmul (T d) d)"
    by (simp add: sums_of_squares_def Let_def d_def mu_def)
  also have "\<dots> = map2 (map2 (\<lambda>a b. one_minus (fdiv a b)))
                      [[item (matmul (T eps) eps)]] [[item (matmul (T d) d)]]"
    using one_by_one[OF r1] one_by_one[OF t1] by simp
  also have "\<dots> = [[Finite (1 - item (matmul (T eps) eps) / item (matmul (T d) d))]]"
    using tpos by (simp add: fdiv_def one_minus_def)
  finally have "fst (sums_of_squares m eps)
          = [[Finite (1 - item (matmul (T eps) eps) / item (matmul (T d) d))]]" .
  moreover have "1 - item (matmul (T eps) eps) / item (matmul (T d) d) \<le> 1"
    using r0 tpos by simp
  ultimately show ?thesis by blast
qed

lemma pinv_example:
  "linalg_pinv [[1, 1], [1, 0], [1, 2]] = [[1 / 3, 5 / 6, - (1 / 6)], [0, - (1 / 2), 1 / 2]]"
  by code_simp

lemma params_example:
  "IV2SLS_estimate_parameters [[1, 1], [1, 2], [1, 3]] [[0], [1], [0]] [[1, 1], [1, 0], [1, 2]]
     = Inr [[7 / 3], [- 1]]"
  unfolding IV2SLS_estimate_parameters_def pinv_example Let_def by code_simp

lemma sums_example:
  "sums_of_squares
     \<lparr>endog = [[0], [1], [0]], exog = [[1, 1], [1, 2], [1, 3]],
      instruments = [[1, 1], [1, 0], [1, 2]], has_constant = True,
      regressor_is_exog = [True, False]\<rparr>
     [[- (4 / 3)], [2 / 3], [2 / 3]]
   = ([[Finite (- 3)]], [[8 / 3]], [[2 / 3]])"
  unfolding sums_of_squares_def Let_def by code_simp

lemma resids_example:
  "resids
     \<lparr>endog = [[0], [1], [0]], exog = [[1, 1], [1, 2], [1, 3]],
      instruments = [[1, 1], [1, 0], [1, 2]], has_constant = True,
      regressor_is_exog = [True, False]\<rparr>
     [[7 / 3], [- 1]]
   = [[- (4 / 3)], [2 / 3], [2 / 3]]"
  by code_simp

lemma robust_registered: "COVARIANCE_ESTIMATORS ''robust'' = Some HeteroskedasticCovariance"
  by (simp add: COVARIANCE_ESTIMATORS_def)


lemma fit_example:
  "IV2SLS_fit zero_covariance
     \<lparr>endog = [[0], [1], [0]], exog = [[1, 1], [1, 2], [1, 3]],
      instruments = [[1, 1], [1, 0], [1, 2]], has_constant = True,
      regressor_is_exog = [True, False]\<rparr> ''robust'' []
   = Inr \<lparr>r_params = [[7 / 3], [- 1]], r_cov = [[0, 0], [0, 0]],
          rsquared = [[Finite (- 3)]], r_cov_type = ''robust'',
          resid_ss = [[8 / 3]], total_ss = [[2 / 3]],
          r_model = \<lparr>endog = [[0], [1], [0]], exog = [[1, 1], [1, 2], [1, 3]],
                     instruments = [[1, 1], [1, 0], [1, 2]], has_constant = True,
                     regressor_is_exog = [True, False]\<rparr>,
          r_kappa = 1\<rparr>"
proof -
  have c: "zeros (ncols [[1, 1], [1, 2], [1, 3]]) (ncols [[1, 1], [1, 2], [1, 3]]) = [[0, 0], [0, 0]]"
    by code_simp
  show ?thesis
    by (simp add: IV2SLS_fit_def params_example bind_e_def robust_registered resids_example
        sums_example zero_covariance_def Let_def c)
qed

lemma ols_fit_example:
  "IV2SLS_fit zero_covariance
     \<lparr>endog = [[1], [2], [4]], exog = [[1, 0], [1, 1], [1, 2]],
      instruments = [[1, 0], [1, 1], [1, 2]], has_constant = True,
      regressor_is_exog = [True, True]\<rparr> ''robust'' []
   = Inr \<lparr>r_params = [[5 / 6], [3 / 2]], r_cov = [[0, 0], [0, 0]],
          rsquared = [[Finite (27 / 28)]], r_cov_type = ''robust'',
          resid_ss = [[1 / 6]], total_ss = [[14 / 3]],
          r_model = \<lparr>endog = [[1], [2], [4]], exog = [[1, 0], [1, 1], [1, 2]],
                     instruments = [[1, 0], [1, 1], [1, 2]], has_constant = True,
                     regressor_is_exog = [True, True]\<rparr>,
          r_kappa = 1\<rparr>"
proof -
  have p: "linalg_pinv [[1, 0], [1, 1], [1, 2]] = [[5 / 6, 1 / 3, - (1 / 6)], [- (1 / 2), 0, 1 / 2]]"
    by code_simp
  have e: "IV2SLS_estimate_parameters [[1, 0], [1, 1], [1, 2]] [[1], [2], [4]] [[1, 0], [1, 1], [1, 2]]
             = Inr [[5 / 6], [3 / 2]]"
    unfolding IV2SLS_estimate_parameters_def p Let_def by code_simp
  have r: "resids \<lparr>endog = [[1], [2], [4]], exog = [[1, 0], [1, 1], [1, 2]],
      instruments = [[1, 0], [1, 1], [1, 2]], has_constant = True,
      regressor_is_exog = [True, True]\<rparr> [[5 / 6], [3 / 2]] = [[1 / 6], [- (1 / 3)], [1 / 6]]"
    by code_simp
  have s: "sums_of_squares \<lparr>endog = [[1], [2], [4]], exog = [[1, 0], [1, 1], [1, 2]],
      instruments = [[1, 0], [1, 1], [1, 2]], has_constant = True,
      regressor_is_exog = [True, True]\<rparr> [[1 / 6], [- (1 / 3)], [1 / 6]]
      = ([[Finite (27 / 28)]], [[1 / 6]], [[14 / 3]])"
    unfolding sums_of_squares_def Let_def by code_simp
  have c: "zeros (ncols [[1, 0], [1, 1], [1, 2]]) (ncols [[1, 0], [1, 1], [1, 2]]) = [[0, 0], [0, 0]]"
    by code_simp
  show ?thesis
    by (simp add: IV2SLS_fit_def e bind_e_def robust_registered r s zero_covariance_def Let_def c)
qed


section \<open>The validator\<close>

lemma foldl_update_upt:
  "k \<le> length fl \<Longrightarrow>
   foldl (\<lambda>fl j. fl[j := f j]) fl [0..<k] = map f [0..<k] @ drop k fl"
proof (induction k)
  case 0 then show ?case by simp
next
  case (Suc k)
  then have k: "k < length fl" by simp
  have "foldl (\<lambda>fl j. fl[j := f j]) fl [0..<Suc k]
          = (map f [0..<k] @ drop k fl)[k := f k]"
    using Suc by simp
  also have "\<dots> = map f [0..<k] @ (drop k fl)[0 := f k]"
    by (simp add: list_update_append)
  also have "(drop k fl)[0 := f k] = f k # drop (Suc k) fl"
    using k by (simp add: Cons_nth_drop_Suc[symmetric])
  finally show ?case by simp
qed

lemma validate_inputs_flags:
  assumes "validate_inputs has_const x z (replicate (ncols x) True) = Inr (c, flags)"
  shows "flags = map (is_exog_column x z) [0..<ncols x]"
proof -
  from assms have "flags = foldl (\<lambda>fl j. fl[j := is_exog_column x z j])
                              (replicate (ncols x) True) [0..<ncols x]"
    by (auto simp: validate_inputs_def Let_def split: if_splits)
  then show ?thesis by (simp add: foldl_update_upt)
qed

lemma ones_column_is_exog: "list_all (\<lambda>v. v = 1) (col x j) \<Longrightarrow> is_exog_column x z j"
  by (simp add: is_exog_column_def Let_def)

lemma instrument_column_is_exog:
  "j' < ncols z \<Longrightarrow> col z j' = col x j \<Longrightarrow> is_exog_column x z j"
  by (auto simp: is_exog_column_def Let_def list_ex_iff)

lemma validator_example:
  "IV2SLS_init has_constant_column [[1], [2], [4]] [[1, 0], [1, 1], [1, 2]] [[3, 0], [1, 1], [2, 2]]
     = Inr \<lparr>endog = [[1], [2], [4]], exog = [[1, 0], [1, 1], [1, 2]],
            instruments = [[3, 0], [1, 1], [2, 2]], has_constant = True,
            regressor_is_exog = [True, True]\<rparr>"
  by code_simp


section \<open>Registries, construction and the GMM loop\<close>

lemma bogus_weight_unregistered: "WEIGHT_MATRICES ''bogus'' = None"
  by (simp add: WEIGHT_MATRICES_def)

lemma bogus_covariance_unregistered: "COVARIANCE_ESTIMATORS ''bogus'' = None"
  by (simp add: COVARIANCE_ESTIMATORS_def)

lemma gmm_fit_cov_type_label:
  "IVGMM_fit kw gmm_covariance m iter_limit tol cov_type cov_config
     = map_sum id (r_cov_type_update (\<lambda>_. cov_type))
         (IVGMM_fit kw gmm_covariance m iter_limit tol c0 cov_config)"
  by (auto simp: IVGMM_fit_def bind_e_def Let_def split: sum.splits option.splits)

lemma gmm_example_model:
  "IVGMM_init has_constant_column [[1], [2]] [[1], [1]] [[1], [1]] ''robust'' []
     = Inr \<lparr>endog = [[1], [2]], exog = [[1], [1]], instruments = [[1], [1]],
            has_constant = True, regressor_is_exog = [True],
            m_weight = \<lparr>w_class = HeteroskedasticWeightMatrix,
                          w_config = [(''center'', CBool False)], w_bandwidth = 0\<rparr>,
            m_weight_type = ''robust'',
            m_weight_config = [(''center'', CBool False)]\<rparr>"
  by code_simp

lemma gmm_example_fit:
  "IVGMM_fit no_kernel_weights zero_gmm_covariance
     \<lparr>endog = [[1], [2]], exog = [[1], [1]], instruments = [[1], [1]],
      has_constant = True, regressor_is_exog = [True],
      m_weight = \<lparr>w_class = HeteroskedasticWeightMatrix,
                    w_config = [(''center'', CBool False)], w_bandwidth = 0\<rparr>,
      m_weight_type = ''robust'',
      m_weight_config = [(''center'', CBool False)]\<rparr> 2 (1 / 10000) ''robust'' []
   = Inr \<lparr>r_params = [[3 / 2]], r_cov = [[0]], rsquared = [[Finite 0]],
          r_cov_type = ''robust'', resid_ss = [[1 / 2]], total_ss = [[1 / 2]],
          r_model =
            \<lparr>endog = [[1], [2]], exog = [[1], [1]], instruments = [[1], [1]],
             has_constant = True, regressor_is_exog = [True],
             m_weight = \<lparr>w_class = HeteroskedasticWeightMatrix,
                           w_config = [(''center'', CBool False)], w_bandwidth = 0\<rparr>,
             m_weight_type = ''robust'',
             m_weight_config = [(''center'', CBool False)]\<rparr>,
          r_kappa = 1, weight_mat = [[4]], r_weight_type = ''robust'',
          r_weight_config = [(''center'', CBool False)], iterations = 2\<rparr>"
  by code_simp

lemma gmm_loop_done:
  "\<not> (i < iter_limit \<and> st_norm s > tol) \<Longrightarrow> gmm_loop wm x y z iter_limit tol i s = Inr (i, s)"
  by (subst gmm_loop.simps) auto

lemma gmm_fit_no_iteration:
  "iter_limit \<le> 1 \<Longrightarrow>
   IVGMM_fit kw gmm_covariance m iter_limit tol cov_type cov_config
     = bind_e (IVGMM_estimate_parameters (exog m) (endog m) (instruments m)
                 (eye (ncols (instruments m))))
         (\<lambda>params. Inl (UnboundLocalError ''w''))"
  by (simp add: IVGMM_fit_def Let_def gmm_loop_done bind_e_def split: sum.splits)

lemma overidentified_example_model:
  "IVGMM_init has_constant_column [[1], [2], [4]] [[1], [0], [0]] [[1, 0], [0, 1], [1, 1]]
     ''homoskedastic'' []
   = Inr \<lparr>endog = [[1], [2], [4]], exog = [[1], [0], [0]],
          instruments = [[1, 0], [0, 1], [1, 1]],
          has_constant = False, regressor_is_exog = [False],
          m_weight = \<lparr>w_class = HomoskedasticWeightMatrix,
                        w_config = [(''center'', CBool False)], w_bandwidth = 0\<rparr>,
          m_weight_type = ''homoskedastic'',
          m_weight_config = [(''center'', CBool False)]\<rparr>"
  by code_simp

lemma overidentified_example_first_step:
  "IVGMM_estimate_parameters [[1], [0], [0]] [[1], [2], [4]] [[1, 0], [0, 1], [1, 1]] (eye 2)
   = Inr [[5]]"
proof -
  have a: "matmul (T [[1], [0], [0]]) [[1, 0], [0, 1], [1, 1]] = [[1, 0]]"
    by code_simp
  show ?thesis
    unfolding IVGMM_estimate_parameters_def a Let_def by code_simp
qed

lemma overidentified_example_2sls:
  "IV2SLS_estimate_parameters [[1], [0], [0]] [[1], [2], [4]] [[1, 0], [0, 1], [1, 1]]
   = Inr [[2]]"
proof -
  have p: "linalg_pinv [[1, 0], [0, 1], [1, 1]]
            = [[2 / 3, - (1 / 3), 1 / 3], [- (1 / 3), 2 / 3, 1 / 3]]"
    by code_simp
  show ?thesis
    unfolding IV2SLS_estimate_parameters_def p Let_def by code_simp
qed


section \<open>The loop of \<open>IVGMM.fit\<close>\<close>

lemma gmm_loop_iterates:
  "\<exists>k. k \<le> nat (iter_limit - i) \<and>
     gmm_loop wm x y z iter_limit tol i s =
       (case gmm_iterate k wm x y z i s of
          Inl e \<Rightarrow> Inl e
        | Inr s' \<Rightarrow> Inr (i + int k, s'))"
proof (induction wm x y z iter_limit tol i s rule: gmm_loop.induct)
  case (1 wm x y z iter_limit tol i s)
  show ?case
  proof (cases "i < iter_limit \<and> st_norm s > tol")
    case False
    then have "gmm_loop wm x y z iter_limit tol i s = Inr (i, s)"
      by (rule gmm_loop_done)
    then show ?thesis by (intro exI[of _ 0]) simp
  next
    case True
    show ?thesis
    proof (cases "gmm_body wm x y z i s")
      case (Inl e)
      then have "gmm_loop wm x y z iter_limit tol i s = Inl e"
        using True by (subst gmm_loop.simps) simp
      moreover have "1 \<le> nat (iter_limit - i)" using True by linarith
      ultimately show ?thesis using Inl by (intro exI[of _ 1]) simp
    next
      case (Inr s1)
      from "1.IH"[OF True Inr] obtain k where
        k: "k \<le> nat (iter_limit - (i + 1))"
        and l: "gmm_loop wm x y z iter_limit tol (i + 1) s1 =
                  (case gmm_iterate k wm x y z (i + 1) s1 of
                     Inl e \<Rightarrow> Inl e | Inr s' \<Rightarrow> Inr (i + 1 + int k, s'))"
        by blast
      have "gmm_loop wm x y z iter_limit tol i s = gmm_loop wm x y z iter_limit tol (i + 1) s1"
        using True Inr by (subst gmm_loop.simps) simp
      then have "gmm_loop wm x y z iter_limit tol i s =
                  (case gmm_iterate (Suc k) wm x y z i s of
                     Inl e \<Rightarrow> Inl e | Inr s' \<Rightarrow> Inr (i + int (Suc k), s'))"
        using l Inr by (simp add: add.assoc add.commute split: sum.splits)
      moreover have "Suc k \<le> nat (iter_limit - i)" using k True by linarith
      ultimately show ?thesis by blast
    qed
  qed
qed

lemma gmm_loop_exit:
  "gmm_loop wm x y z iter_limit tol i s = Inr (i', s')
     \<Longrightarrow> i \<le> i' \<and> \<not> (i' < iter_limit \<and> st_norm s' > tol) \<and> (i' \<le> iter_limit \<or> i' = i)"
proof (induction wm x y z iter_limit tol i s rule: gmm_loop.induct)
  case (1 wm x y z iter_limit tol i s)
  show ?case
  proof (cases "i < iter_limit \<and> st_norm s > tol")
    case False
    then have "gmm_loop wm x y z iter_limit tol i s = Inr (i, s)"
      by (rule gmm_loop_done)
    with "1.prems" False show ?thesis by auto
  next
    case True
    from "1.prems" True obtain s1 where b: "gmm_body wm x y z i s = Inr s1"
      and l: "gmm_loop wm x y z iter_limit tol (i + 1) s1 = Inr (i', s')"
      by (subst (asm) gmm_loop.simps) (auto split: sum.splits)
    from "1.IH"[OF True b l] True show ?thesis by auto
  qed
qed

lemma gmm_body_keeps_vinv:
  assumes "i \<noteq> 1" and "gmm_body wm x y z i s = Inr s'"
  shows "st_vinv s' = st_vinv s
         \<and> (\<exists>v. st_vinv s = Some v
               \<and> st_norm s' = item (matmul (matmul (T (msub (st_params s') (st_prev_params s))) v)
                                      (msub (st_params s') (st_prev_params s))))"
  using assms
  by (auto simp: gmm_body_def Let_def bind_e_def split: sum.splits option.splits)

lemma gmm_loop_keeps_vinv:
  "1 < i \<Longrightarrow> gmm_loop wm x y z iter_limit tol i s = Inr (i', s') \<Longrightarrow> st_vinv s' = st_vinv s"
proof (induction wm x y z iter_limit tol i s rule: gmm_loop.induct)
  case (1 wm x y z iter_limit tol i s)
  show ?case
  proof (cases "i < iter_limit \<and> st_norm s > tol")
    case False
    then have "gmm_loop wm x y z iter_limit tol i s = Inr (i, s)"
      by (rule gmm_loop_done)
    with "1.prems" show ?thesis by simp
  next
    case True
    from "1.prems" True obtain s1 where b: "gmm_body wm x y z i s = Inr s1"
      and l: "gmm_loop wm x y z iter_limit tol (i + 1) s1 = Inr (i', s')"
      by (subst (asm) gmm_loop.simps) (auto split: sum.splits)
    have "st_vinv s1 = st_vinv s"
      using gmm_body_keeps_vinv[OF _ b] "1.prems"(1) by simp
    moreover have "st_vinv s' = st_vinv s1"
      using "1.IH"[OF True b _ l] "1.prems"(1) by simp
    ultimately show ?thesis by simp
  qed
qed

lemma gmm_loop_same_counter:
  "gmm_loop wm x y z iter_limit tol i s = Inr (i', s') \<Longrightarrow> i' = i \<Longrightarrow> s' = s"
proof -
  assume l: "gmm_loop wm x y z iter_limit tol i s = Inr (i', s')" and e: "i' = i"
  show "s' = s"
  proof (cases "i < iter_limit \<and> st_norm s > tol")
    case False
    then have "gmm_loop wm x y z iter_limit tol i s = Inr (i, s)" by (rule gmm_loop_done)
    with l show ?thesis by simp
  next
    case True
    from l True obtain s1 where
      "gmm_loop wm x y z iter_limit tol (i + 1) s1 = Inr (i', s')"
      by (subst (asm) gmm_loop.simps) (auto split: sum.splits)
    from gmm_loop_exit[OF this] e show ?thesis by simp
  qed
qed

lemma gmm_body_first_vinv:
  assumes "gmm_body wm x y z 1 s = Inr s'"
  shows "\<exists>w V. st_w s' = Some w \<and> st_vinv s' = Some V \<and>
           linalg_inv (divide_by
             (matmul (matmul (divide_by (matmul (T x) z) (real (length y))) w)
                (T (divide_by (matmul (T x) z) (real (length y)))))
             (real (length y))) = Inr V"
  using assms
  by (auto simp: gmm_body_def Let_def bind_e_def split: sum.splits)

lemma gmm_fit_iterations:
  assumes L: "1 \<le> iter_limit"
    and fit: "IVGMM_fit kw gmm_covariance m iter_limit tol cov_type cov_config = Inr res"
  shows "2 \<le> iterations res \<and> iterations res \<le> iter_limit"
proof -
  from fit obtain p0 i' s' w where
    l: "gmm_loop (weight_matrix kw (m_weight m)) (exog m) (endog m) (instruments m) iter_limit tol 1
          \<lparr>st_norm = 10 * tol, st_params = p0, st_prev_params = p0,
           st_eps = None, st_w = None, st_vinv = None\<rparr> = Inr (i', s')"
    and w: "st_w s' = Some w" and it: "iterations res = i'"
    by (auto simp: IVGMM_fit_def Let_def bind_e_def split: sum.splits option.splits)
  from gmm_loop_exit[OF l] L have b: "1 \<le> i'" "i' \<le> iter_limit" by auto
  have "i' \<noteq> 1"
  proof
    assume "i' = 1"
    from gmm_loop_same_counter[OF l this] w show False by simp
  qed
  with b it show ?thesis by simp
qed

text \<open>
  The number of passes is the first \<open>k\<close> at which the condition of the \<open>while\<close> fails: every
  state before it has \<open>norm > tol\<close>, and the state the loop is left with has \<open>norm \<le> tol\<close> or
  the counter at \<open>iter_limit\<close>.
\<close>

lemma gmm_loop_first_exit:
  "\<exists>k. k \<le> nat (iter_limit - i)
     \<and> (\<forall>j<k. \<exists>sj. gmm_iterate j wm x y z i s = Inr sj \<and> tol < st_norm sj)
     \<and> (case gmm_iterate k wm x y z i s of
          Inl e \<Rightarrow> gmm_loop wm x y z iter_limit tol i s = Inl e
        | Inr s' \<Rightarrow> gmm_loop wm x y z iter_limit tol i s = Inr (i + int k, s')
                    \<and> \<not> (i + int k < iter_limit \<and> tol < st_norm s'))"
proof (induction wm x y z iter_limit tol i s rule: gmm_loop.induct)
  case (1 wm x y z iter_limit tol i s)
  show ?case
  proof (cases "i < iter_limit \<and> st_norm s > tol")
    case False
    then have "gmm_loop wm x y z iter_limit tol i s = Inr (i, s)"
      by (rule gmm_loop_done)
    with False show ?thesis by (intro exI[of _ 0]) simp
  next
    case True
    then have one: "1 \<le> nat (iter_limit - i)" by linarith
    show ?thesis
    proof (cases "gmm_body wm x y z i s")
      case (Inl e)
      then have "gmm_loop wm x y z iter_limit tol i s = Inl e"
        using True by (subst gmm_loop.simps) simp
      with one True Inl show ?thesis by (intro exI[of _ 1]) simp
    next
      case (Inr s1)
      from "1.IH"[OF True Inr] obtain k where
        k: "k \<le> nat (iter_limit - (i + 1))"
        and before: "\<forall>j<k. \<exists>sj. gmm_iterate j wm x y z (i + 1) s1 = Inr sj \<and> tol < st_norm sj"
        and l: "case gmm_iterate k wm x y z (i + 1) s1 of
                  Inl e \<Rightarrow> gmm_loop wm x y z iter_limit tol (i + 1) s1 = Inl e
                | Inr s' \<Rightarrow> gmm_loop wm x y z iter_limit tol (i + 1) s1 = Inr (i + 1 + int k, s')
                    \<and> \<not> (i + 1 + int k < iter_limit \<and> tol < st_norm s')"
        by blast
      have step: "gmm_loop wm x y z iter_limit tol i s = gmm_loop wm x y z iter_limit tol (i + 1) s1"
        using True Inr by (subst gmm_loop.simps) simp
      have "Suc k \<le> nat (iter_limit - i)" using k True by linarith
      moreover have "\<forall>j<Suc k. \<exists>sj. gmm_iterate j wm x y z i s = Inr sj \<and> tol < st_norm sj"
      proof (intro allI impI)
        fix j assume j: "j < Suc k"
        show "\<exists>sj. gmm_iterate j wm x y z i s = Inr sj \<and> tol < st_norm sj"
        proof (cases j)
          case 0
          with True show ?thesis by simp
        next
          case (Suc j')
          with j before Inr show ?thesis by simp
        qed
      qed
      moreover have "case gmm_iterate (Suc k) wm x y z i s of
          Inl e \<Rightarrow> gmm_loop wm x y z iter_limit tol i s = Inl e
        | Inr s' \<Rightarrow> gmm_loop wm x y z iter_limit tol i s = Inr (i + int (Suc k), s')
                    \<and> \<not> (i + int (Suc k) < iter_limit \<and> tol < st_norm s')"
        using l Inr step by (simp add: add.assoc add.commute split: sum.splits)
      ultimately show ?thesis by blast
    qed
  qed
qed

lemma gmm_body_prev_params:
  "gmm_body wm x y z i s = Inr s' \<Longrightarrow> st_prev_params s' = st_params s'"
  by (auto simp: gmm_body_def Let_def bind_e_def split: sum.splits option.splits if_splits)

lemma gmm_body_first_norm:
  assumes "gmm_body wm x y z 1 s = Inr s'"
  shows "\<exists>w V. st_w s' = Some w \<and> st_vinv s' = Some V
           \<and> linalg_inv (divide_by
               (matmul (matmul (divide_by (matmul (T x) z) (real (length y))) w)
                  (T (divide_by (matmul (T x) z) (real (length y)))))
               (real (length y))) = Inr V
           \<and> st_norm s' = item (matmul (matmul (T (msub (st_params s') (st_prev_params s))) V)
                                  (msub (st_params s') (st_prev_params s)))"
  using assms
  by (auto simp: gmm_body_def Let_def bind_e_def split: sum.splits)

lemma gmm_iterate_invariant:
  "1 < i \<Longrightarrow> gmm_iterate j wm x y z i s = Inr sj \<Longrightarrow> st_prev_params s = st_params s
     \<Longrightarrow> st_vinv sj = st_vinv s \<and> st_prev_params sj = st_params sj"
proof (induction j arbitrary: i s)
  case 0
  then show ?case by simp
next
  case (Suc j)
  from Suc.prems(2) obtain s1 where b: "gmm_body wm x y z i s = Inr s1"
    and r: "gmm_iterate j wm x y z (i + 1) s1 = Inr sj"
    by (auto split: sum.splits)
  from gmm_body_keeps_vinv[OF _ b] Suc.prems(1) have v: "st_vinv s1 = st_vinv s" by simp
  from Suc.IH[OF _ r gmm_body_prev_params[OF b]] Suc.prems(1) v show ?case by simp
qed


lemma gmm_pass_norm:
  assumes it: "gmm_iterate j wm x y z 1 s = Inr sj"
    and b: "gmm_body wm x y z (1 + int j) sj = Inr s'"
    and p: "st_prev_params s = st_params s"
  shows "\<exists>s1 w1 V. gmm_body wm x y z 1 s = Inr s1 \<and> st_w s1 = Some w1
           \<and> linalg_inv (divide_by
               (matmul (matmul (divide_by (matmul (T x) z) (real (length y))) w1)
                  (T (divide_by (matmul (T x) z) (real (length y)))))
               (real (length y))) = Inr V
           \<and> st_vinv s' = Some V
           \<and> st_norm s' = item (matmul (matmul (T (msub (st_params s') (st_params sj))) V)
                                  (msub (st_params s') (st_params sj)))"
proof (cases j)
  case 0
  with it have sj: "sj = s" by simp
  from b 0 sj have b1: "gmm_body wm x y z 1 s = Inr s'" by simp
  from gmm_body_first_norm[OF b1] p b1 sj show ?thesis by auto
next
  case (Suc j')
  from it Suc obtain s1 where b1: "gmm_body wm x y z 1 s = Inr s1"
    and r: "gmm_iterate j' wm x y z 2 s1 = Inr sj"
    by (auto split: sum.splits)
  from gmm_body_first_norm[OF b1] obtain w1 V where
    w1: "st_w s1 = Some w1" and V: "st_vinv s1 = Some V"
    and inv: "linalg_inv (divide_by
               (matmul (matmul (divide_by (matmul (T x) z) (real (length y))) w1)
                  (T (divide_by (matmul (T x) z) (real (length y)))))
               (real (length y))) = Inr V"
    by blast
  from gmm_iterate_invariant[OF _ r gmm_body_prev_params[OF b1]]
  have keep: "st_vinv sj = st_vinv s1" and pj: "st_prev_params sj = st_params sj" by simp_all
  have "1 + int j \<noteq> 1" using Suc by simp
  from gmm_body_keeps_vinv[OF this b] keep V pj
  have "st_vinv s' = Some V"
    and "st_norm s' = item (matmul (matmul (T (msub (st_params s') (st_params sj))) V)
                                  (msub (st_params s') (st_params sj)))"
    by auto
  with b1 w1 inv show ?thesis by blast
qed

lemma gmm_fit_after_loop:
  assumes p0: "IVGMM_estimate_parameters (exog m) (endog m) (instruments m)
                 (eye (ncols (instruments m))) = Inr p0"
    and l: "gmm_loop (weight_matrix kw (m_weight m)) (exog m) (endog m) (instruments m)
              iter_limit tol 1
              \<lparr>st_norm = 10 * tol, st_params = p0, st_prev_params = p0,
               st_eps = None, st_w = None, st_vinv = None\<rparr> = r"
  shows "(\<forall>e. r = Inl e \<longrightarrow>
            IVGMM_fit kw gmm_covariance m iter_limit tol cov_type cov_config = Inl e)
       \<and> (\<forall>i' s'. r = Inr (i', s') \<longrightarrow>
            (st_w s' = None \<longrightarrow>
               IVGMM_fit kw gmm_covariance m iter_limit tol cov_type cov_config
                 = Inl (UnboundLocalError ''w''))
          \<and> (\<forall>res. IVGMM_fit kw gmm_covariance m iter_limit tol cov_type cov_config = Inr res
                \<longrightarrow> iterations res = i' \<and> r_params res = st_params s'))"
  using p0 l
  by (auto simp: IVGMM_fit_def Let_def bind_e_def split: sum.splits option.splits)

lemma gmm_fit_returns:
  assumes "IVGMM_estimate_parameters (exog m) (endog m) (instruments m)
             (eye (ncols (instruments m))) = Inr p0"
    and "gmm_loop (weight_matrix kw (m_weight m)) (exog m) (endog m) (instruments m)
           iter_limit tol 1
           \<lparr>st_norm = 10 * tol, st_params = p0, st_prev_params = p0,
            st_eps = None, st_w = None, st_vinv = None\<rparr> = Inr (i', s')"
    and "st_w s' = Some w" and "st_eps s' = Some eps"
  shows "\<exists>res. IVGMM_fit kw zero_gmm_covariance m iter_limit tol cov_type cov_config = Inr res"
  using assms by (simp add: IVGMM_fit_def Let_def bind_e_def zero_gmm_covariance_def)

lemma gmm_body_estimate:
  assumes "gmm_body wm x y z i s = Inr s'"
  shows "\<exists>wmat w. wm x z (msub y (matmul x (st_params s))) = Inr wmat
           \<and> linalg_inv wmat = Inr w \<and> st_w s' = Some w
           \<and> st_eps s' = Some (msub y (matmul x (st_params s)))
           \<and> IVGMM_estimate_parameters x y z w = Inr (st_params s')"
  using assms
  by (auto simp: gmm_body_def Let_def bind_e_def split: sum.splits option.splits if_splits)

lemma gmm_fit_first_estimate_raises:
  "IVGMM_estimate_parameters (exog m) (endog m) (instruments m)
     (eye (ncols (instruments m))) = Inl e
   \<Longrightarrow> IVGMM_fit kw gmm_covariance m iter_limit tol cov_type cov_config = Inl e"
  by (simp add: IVGMM_fit_def Let_def bind_e_def)

lemma gmm_fit_loop_passes:
  assumes L: "1 \<le> iter_limit" and tol: "0 < tol"
    and p0: "IVGMM_estimate_parameters (exog m) (endog m) (instruments m)
               (eye (ncols (instruments m))) = Inr p0"
  shows
    "let x = exog m; y = endog m; z = instruments m;
         wm = weight_matrix kw (m_weight m);
         s0 = \<lparr>st_norm = 10 * tol, st_params = p0, st_prev_params = p0,
               st_eps = None, st_w = None, st_vinv = None\<rparr>;
         xpz = divide_by (matmul (T x) z) (real (length y));
         fit = IVGMM_fit kw gmm_covariance m iter_limit tol cov_type cov_config
     in
     (\<exists>k. int k < iter_limit \<and> (1 < iter_limit \<longrightarrow> 0 < k)
        \<and> (\<forall>j<k. \<exists>sj. gmm_iterate j wm x y z 1 s0 = Inr sj \<and> tol < st_norm sj)
        \<and> (case gmm_iterate k wm x y z 1 s0 of
             Inl e \<Rightarrow> gmm_loop wm x y z iter_limit tol 1 s0 = Inl e \<and> fit = Inl e
           | Inr s' \<Rightarrow>
               gmm_loop wm x y z iter_limit tol 1 s0 = Inr (1 + int k, s')
             \<and> (st_norm s' \<le> tol \<or> 1 + int k = iter_limit)
             \<and> (k = 0 \<longrightarrow> fit = Inl (UnboundLocalError ''w''))
             \<and> (\<forall>res. fit = Inr res \<longrightarrow>
                   iterations res = 1 + int k \<and> r_params res = st_params s')))
   \<and> (\<forall>j sj s'. gmm_iterate j wm x y z 1 s0 = Inr sj \<longrightarrow>
         gmm_body wm x y z (1 + int j) sj = Inr s' \<longrightarrow>
         (\<exists>s1 w1 V. gmm_body wm x y z 1 s0 = Inr s1 \<and> st_w s1 = Some w1
            \<and> linalg_inv (divide_by (matmul (matmul xpz w1) (T xpz)) (real (length y))) = Inr V
            \<and> st_vinv s' = Some V
            \<and> st_norm s' = item (matmul (matmul (T (msub (st_params s') (st_params sj))) V)
                                   (msub (st_params s') (st_params sj)))))"
proof -
  define x where "x = exog m"
  define y where "y = endog m"
  define z where "z = instruments m"
  define wm where "wm = weight_matrix kw (m_weight m)"
  define s0 where "s0 = \<lparr>st_norm = 10 * tol, st_params = p0, st_prev_params = p0,
               st_eps = None, st_w = None, st_vinv = None\<rparr>"
  define fit where "fit = IVGMM_fit kw gmm_covariance m iter_limit tol cov_type cov_config"
  note defs = x_def y_def z_def wm_def s0_def fit_def
  from gmm_loop_first_exit[of iter_limit 1 wm x y z s0 tol] obtain k where
    k: "k \<le> nat (iter_limit - 1)"
    and before: "\<forall>j<k. \<exists>sj. gmm_iterate j wm x y z 1 s0 = Inr sj \<and> tol < st_norm sj"
    and l: "case gmm_iterate k wm x y z 1 s0 of
              Inl e \<Rightarrow> gmm_loop wm x y z iter_limit tol 1 s0 = Inl e
            | Inr s' \<Rightarrow> gmm_loop wm x y z iter_limit tol 1 s0 = Inr (1 + int k, s')
                    \<and> \<not> (1 + int k < iter_limit \<and> tol < st_norm s')"
    by blast
  from k L have kb: "int k < iter_limit" by linarith
  have pos: "1 < iter_limit \<longrightarrow> 0 < k"
  proof (intro impI, rule ccontr)
    assume a: "1 < iter_limit" and "\<not> 0 < k"
    then have "k = 0" by simp
    with l a have "\<not> tol < st_norm s0" by simp
    with tol show False by (simp add: s0_def)
  qed
  have after: "case gmm_iterate k wm x y z 1 s0 of
             Inl e \<Rightarrow> gmm_loop wm x y z iter_limit tol 1 s0 = Inl e \<and> fit = Inl e
           | Inr s' \<Rightarrow>
               gmm_loop wm x y z iter_limit tol 1 s0 = Inr (1 + int k, s')
             \<and> (st_norm s' \<le> tol \<or> 1 + int k = iter_limit)
             \<and> (k = 0 \<longrightarrow> fit = Inl (UnboundLocalError ''w''))
             \<and> (\<forall>res. fit = Inr res \<longrightarrow>
                   iterations res = 1 + int k \<and> r_params res = st_params s')"
  proof (cases "gmm_iterate k wm x y z 1 s0")
    case (Inl e)
    with l have le: "gmm_loop wm x y z iter_limit tol 1 s0 = Inl e" by simp
    from gmm_fit_after_loop[OF p0 le[unfolded defs], of gmm_covariance cov_type cov_config]
    have "fit = Inl e" by (simp add: fit_def)
    with Inl le show ?thesis by simp
  next
    case (Inr s')
    with l have le: "gmm_loop wm x y z iter_limit tol 1 s0 = Inr (1 + int k, s')"
      and ex: "\<not> (1 + int k < iter_limit \<and> tol < st_norm s')" by simp_all
    from ex kb have c: "st_norm s' \<le> tol \<or> 1 + int k = iter_limit" by linarith
    note f = gmm_fit_after_loop[OF p0 le[unfolded defs], of gmm_covariance cov_type cov_config,
        folded fit_def]
    have "k = 0 \<longrightarrow> fit = Inl (UnboundLocalError ''w'')"
    proof
      assume "k = 0"
      with Inr have "s' = s0" by simp
      then have "st_w s' = None" by (simp add: s0_def)
      with f show "fit = Inl (UnboundLocalError ''w'')" by simp
    qed
    moreover from f have "\<forall>res. fit = Inr res \<longrightarrow>
                   iterations res = 1 + int k \<and> r_params res = st_params s'" by simp
    ultimately show ?thesis using Inr le c by simp
  qed
  have norm: "\<forall>j sj s'. gmm_iterate j wm x y z 1 s0 = Inr sj \<longrightarrow>
         gmm_body wm x y z (1 + int j) sj = Inr s' \<longrightarrow>
         (\<exists>s1 w1 V. gmm_body wm x y z 1 s0 = Inr s1 \<and> st_w s1 = Some w1
            \<and> linalg_inv (divide_by
                (matmul (matmul (divide_by (matmul (T x) z) (real (length y))) w1)
                   (T (divide_by (matmul (T x) z) (real (length y)))))
                (real (length y))) = Inr V
            \<and> st_vinv s' = Some V
            \<and> st_norm s' = item (matmul (matmul (T (msub (st_params s') (st_params sj))) V)
                                   (msub (st_params s') (st_params sj))))"
  proof (intro allI impI)
    fix j sj s'
    assume it: "gmm_iterate j wm x y z 1 s0 = Inr sj"
      and b: "gmm_body wm x y z (1 + int j) sj = Inr s'"
    have "st_prev_params s0 = st_params s0" by (simp add: s0_def)
    from gmm_pass_norm[OF it b this]
    show "\<exists>s1 w1 V. gmm_body wm x y z 1 s0 = Inr s1 \<and> st_w s1 = Some w1
            \<and> linalg_inv (divide_by
                (matmul (matmul (divide_by (matmul (T x) z) (real (length y))) w1)
                   (T (divide_by (matmul (T x) z) (real (length y)))))
                (real (length y))) = Inr V
            \<and> st_vinv s' = Some V
            \<and> st_norm s' = item (matmul (matmul (T (msub (st_params s') (st_params sj))) V)
                                   (msub (st_params s') (st_params sj)))" .
  qed
  from kb pos before after have "\<exists>k. int k < iter_limit \<and> (1 < iter_limit \<longrightarrow> 0 < k)
        \<and> (\<forall>j<k. \<exists>sj. gmm_iterate j wm x y z 1 s0 = Inr sj \<and> tol < st_norm sj)
        \<and> (case gmm_iterate k wm x y z 1 s0 of
             Inl e \<Rightarrow> gmm_loop wm x y z iter_limit tol 1 s0 = Inl e \<and> fit = Inl e
           | Inr s' \<Rightarrow>
               gmm_loop wm x y z iter_limit tol 1 s0 = Inr (1 + int k, s')
             \<and> (st_norm s' \<le> tol \<or> 1 + int k = iter_limit)
             \<and> (k = 0 \<longrightarrow> fit = Inl (UnboundLocalError ''w''))
             \<and> (\<forall>res. fit = Inr res \<longrightarrow>
                   iterations res = 1 + int k \<and> r_params res = st_params s'))"
    by blast
  with norm show ?thesis
    unfolding Let_def defs by blast
qed


section \<open>Two-step GMM with homoskedastic weights\<close>

lemma is_mat_scale: "is_mat n m A \<Longrightarrow> is_mat n m (scale c A)"
  by (auto simp: is_mat_def scale_def)

lemma scale_nth: "is_mat n m A \<Longrightarrow> i < n \<Longrightarrow> j < m \<Longrightarrow> scale c A ! i ! j = c * A ! i ! j"
  by (simp add: is_mat_def scale_def)

lemma scale_scale: "scale c (scale d A) = scale (c * d) A"
  by (simp add: scale_def comp_def mult.assoc)

lemma scale_one: "scale 1 A = A"
  by (simp add: scale_def map_idI)

lemma divide_by_scale: "divide_by A c = scale (1 / c) A"
  by (simp add: divide_by_def scale_def)

lemma matmul_scale_right:
  assumes A: "is_mat n p A" and B: "is_mat p q B" and p: "0 < p"
  shows "matmul A (scale c B) = scale c (matmul A B)"
proof (rule mat_eqI)
  show "is_mat n q (matmul A (scale c B))"
    by (rule is_mat_matmul[OF A is_mat_scale[OF B] p])
  show "is_mat n q (scale c (matmul A B))"
    by (rule is_mat_scale[OF is_mat_matmul[OF A B p]])
next
  fix i j assume i: "i < n" and j: "j < q"
  have "matmul A (scale c B) ! i ! j = (\<Sum>k<p. A ! i ! k * scale c B ! k ! j)"
    by (rule matmul_nth[OF A is_mat_scale[OF B] p i j])
  also have "\<dots> = (\<Sum>k<p. c * (A ! i ! k * B ! k ! j))"
    using j by (intro sum.cong refl) (simp add: scale_nth[OF B])
  also have "\<dots> = c * matmul A B ! i ! j"
    by (simp add: matmul_nth[OF A B p i j] sum_distrib_left)
  also have "\<dots> = scale c (matmul A B) ! i ! j"
    by (simp add: scale_nth[OF is_mat_matmul[OF A B p] i j])
  finally show "matmul A (scale c B) ! i ! j = scale c (matmul A B) ! i ! j" .
qed

lemma symmetric_left_inverse_symmetric:
  assumes S: "is_mat k k S" and B: "is_mat k k B" and k: "0 < k"
    and sym: "T S = S" and left: "matmul B S = eye k"
  shows "T B = B"
proof -
  have r: "matmul S B = eye k"
    by (rule symmetric_left_inverse_is_right[OF S B k sym left])
  have "T (matmul S B) = matmul (T B) (T S)" by (rule T_matmul[OF S B k k k])
  then have l2: "matmul (T B) S = eye k" using r sym k by (simp add: T_eye)
  have TB: "is_mat k k (T B)" by (rule is_mat_T[OF B k])
  have "T B = matmul (T B) (matmul S B)"
    using r TB k by (simp add: matmul_eye_right)
  also have "\<dots> = matmul (matmul (T B) S) B"
    by (rule matmul_assoc[OF TB S B k k, symmetric])
  also have "\<dots> = B" using l2 B k by (simp add: matmul_eye_left)
  finally show ?thesis .
qed

lemma left_right_inverse_equal:
  assumes L: "is_mat k k L" and A: "is_mat k k A" and R: "is_mat k k R" and k: "0 < k"
    and l: "matmul L A = eye k" and r: "matmul A R = eye k"
  shows "L = R"
proof -
  have "L = matmul L (matmul A R)" using r L k by (simp add: matmul_eye_right)
  also have "\<dots> = matmul (matmul L A) R" by (rule matmul_assoc[OF L A R k k, symmetric])
  also have "\<dots> = R" using l R k by (simp add: matmul_eye_left)
  finally show ?thesis .
qed

lemma scaled_inverse:
  assumes A: "is_mat k k A" and a: "is_mat k k a" and aw: "is_mat k k aw" and k: "0 < k"
    and sym: "T A = A" and la: "matmul a A = eye k"
    and lw: "matmul aw (scale g A) = eye k"
  shows "g \<noteq> 0 \<and> aw = scale (1 / g) a"
proof -
  have e: "scale g (matmul aw A) = eye k"
    using lw by (simp add: matmul_scale_right[OF aw A k])
  have g: "g \<noteq> 0"
  proof
    assume "g = 0"
    then have "scale g (matmul aw A) ! 0 ! 0 = 0"
      using scale_nth[OF is_mat_matmul[OF aw A k] k k] by simp
    moreover have "eye k ! 0 ! 0 = 1" using k by (simp add: eye_nth)
    ultimately show False using e by simp
  qed
  have "matmul (scale g aw) A = eye k" using e by (simp add: matmul_scale_left)
  moreover have "matmul A a = eye k"
    by (rule symmetric_left_inverse_is_right[OF A a k sym la])
  ultimately have "scale g aw = a"
    by (intro left_right_inverse_equal[OF is_mat_scale[OF aw] A a k])
  then have "scale (1 / g) (scale g aw) = scale (1 / g) a" by simp
  then have "aw = scale (1 / g) a" using g by (simp add: scale_scale scale_one)
  with g show ?thesis by simp
qed

lemma T_cross:
  assumes x: "is_mat n k x" and z: "is_mat n q z" and n: "0 < n" and k: "0 < k" and q: "0 < q"
  shows "T (matmul (T x) z) = matmul (T z) x"
  using T_matmul[OF is_mat_T[OF x n] z k n q] by (simp add: T_T[OF x n k])

lemma is_mat_gmm_params:
  assumes x: "is_mat n k x" and y: "is_mat n 1 y" and z: "is_mat n q z"
    and n: "0 < n" and k: "0 < k" and q: "0 < q"
    and est: "IVGMM_estimate_parameters x y z w = Inr params"
  shows "is_mat k 1 params"
proof -
  let ?xpz = "matmul (T x) z"
  let ?M = "matmul (matmul ?xpz w) (matmul (T z) y)"
  from est obtain a where a: "linalg_inv (matmul (matmul ?xpz w) (T ?xpz)) = Inr a"
    and p: "params = matmul a ?M"
    by (auto simp: IVGMM_estimate_parameters_def Let_def bind_e_def split: sum.splits)
  have la: "length a = k"
    using length_linalg_inv[OF a] x n by (simp add: length_matmul length_T is_mat_ncols)
  have "T x \<noteq> []" using x n k length_T[of x] by (auto simp: is_mat_ncols)
  then have "matmul ?xpz w \<noteq> []" using length_matmul[of "T x"] length_matmul[of ?xpz w]
    by (metis length_0_conv)
  then have "ncols ?M = ncols (matmul (T z) y)" by (rule ncols_matmul)
  also have "\<dots> = 1"
  proof -
    have "T z \<noteq> []" using z n q length_T[of z] by (auto simp: is_mat_ncols)
    then show ?thesis using y n by (simp add: ncols_matmul is_mat_ncols)
  qed
  finally have "ncols ?M = 1" .
  then show ?thesis
    unfolding p by (intro is_matI) (simp_all add: matmul_def la)
qed

lemma homoskedastic_second_step_is_2sls:
  assumes x: "is_mat n k x" and y: "is_mat n 1 y" and z: "is_mat n q z"
    and n: "0 < n" and k: "0 < k" and q: "0 < q"
    and e: "is_mat n 1 eps"
    and B: "linalg_inv (matmul (T z) z) = Inr B"
    and w: "linalg_inv (homoskedastic_weight_matrix x z eps) = Inr w"
    and gmm: "IVGMM_estimate_parameters x y z w = Inr params"
    and tsls: "IV2SLS_estimate_parameters x y z = Inr b"
  shows "params = b"
proof -
  let ?S = "matmul (T z) z"
  let ?xpz = "matmul (T x) z"
  let ?zpy = "matmul (T z) y"
  define g where "g = 1 / real n * (item (matmul (T eps) eps) / real n)"
  have Tz: "is_mat q n (T z)" by (rule is_mat_T[OF z n])
  have Tx: "is_mat k n (T x)" by (rule is_mat_T[OF x n])
  have S: "is_mat q q ?S" by (rule is_mat_matmul[OF Tz z n])
  have Ssym: "T ?S = ?S" by (rule gram_symmetric[OF z n q])
  from linalg_inv_left[OF B] S have Bm: "is_mat q q B" and BS: "matmul B ?S = eye q"
    by (simp_all add: is_mat_length)
  have TB: "T B = B" by (rule symmetric_left_inverse_symmetric[OF S Bm q Ssym BS])
  have xpz: "is_mat k q ?xpz" by (rule is_mat_matmul[OF Tx z n])
  have Txpz: "T ?xpz = matmul (T z) x" by (rule T_cross[OF x z n k q])
  have Txpz_m: "is_mat q k (T ?xpz)" by (rule is_mat_T[OF xpz k])
  have zpy: "is_mat q 1 ?zpy" by (rule is_mat_matmul[OF Tz y n])
  have xB: "is_mat k q (matmul ?xpz B)" by (rule is_mat_matmul[OF xpz Bm q])
  \<comment> \<open>the weight matrix is a multiple of \<open>Z\<^sup>t Z\<close>, and its inverse a multiple of \<open>B\<close>\<close>
  have Wm: "homoskedastic_weight_matrix x z eps = scale g ?S"
    using homoskedastic_weight_matrix_formula[OF z e _ n q, of x] x
    by (simp add: is_mat_length divide_by_scale scale_scale g_def)
  from linalg_inv_left[OF w] have wm: "is_mat q q w" and wS: "matmul w (scale g ?S) = eye q"
    using S by (simp_all add: Wm is_mat_length scale_def)
  from scaled_inverse[OF S Bm wm q Ssym BS wS]
  have g: "g \<noteq> 0" and w_eq: "w = scale (1 / g) B" by simp_all
  \<comment> \<open>the two matrices that are inverted, and the two right-hand sides\<close>
  define A where "A = matmul (matmul ?xpz B) (T ?xpz)"
  define bb where "bb = matmul (matmul ?xpz B) ?zpy"
  have A: "is_mat k k A" unfolding A_def by (rule is_mat_matmul[OF xB Txpz_m q])
  have bbm: "is_mat k 1 bb" unfolding bb_def by (rule is_mat_matmul[OF xB zpy q])
  have pinv: "linalg_pinv z = matmul B (T z)" by (simp add: linalg_pinv_def B)
  have arg2: "matmul ?xpz (matmul (linalg_pinv z) x) = A"
  proof -
    have "matmul ?xpz (matmul (matmul B (T z)) x) = matmul ?xpz (matmul B (matmul (T z) x))"
      by (simp add: matmul_assoc[OF Bm Tz x q n])
    also have "\<dots> = matmul (matmul ?xpz B) (matmul (T z) x)"
      by (rule matmul_assoc[OF xpz Bm is_mat_matmul[OF Tz x n] q q, symmetric])
    finally show ?thesis by (simp add: pinv A_def Txpz)
  qed
  have rhs2: "matmul ?xpz (matmul (linalg_pinv z) y) = bb"
  proof -
    have "matmul ?xpz (matmul (matmul B (T z)) y) = matmul ?xpz (matmul B ?zpy)"
      by (simp add: matmul_assoc[OF Bm Tz y q n])
    also have "\<dots> = matmul (matmul ?xpz B) ?zpy"
      by (rule matmul_assoc[OF xpz Bm zpy q q, symmetric])
    finally show ?thesis by (simp add: pinv bb_def)
  qed
  have xw: "matmul ?xpz w = scale (1 / g) (matmul ?xpz B)"
    by (simp add: w_eq matmul_scale_right[OF xpz Bm q])
  have argw: "matmul (matmul ?xpz w) (T ?xpz) = scale (1 / g) A"
    by (simp add: xw matmul_scale_left A_def)
  have rhsw: "matmul (matmul ?xpz w) ?zpy = scale (1 / g) bb"
    by (simp add: xw matmul_scale_left bb_def)
  from tsls obtain a where a: "linalg_inv A = Inr a" and b: "b = matmul a bb"
    by (auto simp: IV2SLS_estimate_parameters_def Let_def bind_e_def arg2 rhs2 split: sum.splits)
  from gmm obtain aw where aw: "linalg_inv (scale (1 / g) A) = Inr aw"
    and p: "params = matmul aw (scale (1 / g) bb)"
    by (auto simp: IVGMM_estimate_parameters_def Let_def bind_e_def argw rhsw split: sum.splits)
  from linalg_inv_left[OF a] A have am: "is_mat k k a" and aA: "matmul a A = eye k"
    by (simp_all add: is_mat_length)
  from linalg_inv_left[OF aw] A have awm: "is_mat k k aw"
    and awA: "matmul aw (scale (1 / g) A) = eye k"
    by (simp_all add: is_mat_length scale_def)
  have Asym: "T A = A"
  proof -
    have "T A = matmul (T (T ?xpz)) (T (matmul ?xpz B))"
      unfolding A_def by (rule T_matmul[OF xB Txpz_m k q k])
    also have "\<dots> = matmul ?xpz (matmul (T B) (T ?xpz))"
      by (simp add: T_T[OF xpz k q] T_matmul[OF xpz Bm k q q])
    also have "\<dots> = matmul (matmul ?xpz B) (T ?xpz)"
      by (simp add: TB matmul_assoc[OF xpz Bm Txpz_m q q])
    finally show ?thesis by (simp add: A_def)
  qed
  from scaled_inverse[OF A am awm k Asym aA awA]
  have aw_eq: "aw = scale (1 / (1 / g)) a" by simp
  have "params = matmul (scale g a) (scale (1 / g) bb)"
    using p aw_eq by simp
  also have "\<dots> = scale g (scale (1 / g) (matmul a bb))"
    by (simp add: matmul_scale_left matmul_scale_right[OF am bbm k])
  also have "\<dots> = matmul a bb" using g by (simp add: scale_scale scale_one)
  finally show ?thesis by (simp add: b)
qed

lemma gmm_loop_two:
  assumes "0 < tol" and "st_norm s = 10 * tol"
  shows "gmm_loop wm x y z 2 tol 1 s =
           (case gmm_body wm x y z 1 s of Inl e \<Rightarrow> Inl e | Inr s' \<Rightarrow> Inr (2, s'))"
proof -
  have "gmm_loop wm x y z 2 tol 1 s =
          (case gmm_body wm x y z 1 s of
             Inl e \<Rightarrow> Inl e | Inr s' \<Rightarrow> gmm_loop wm x y z 2 tol (1 + 1) s')"
    using assms by (subst gmm_loop.simps) simp
  then show ?thesis by (simp add: gmm_loop_done split: sum.splits)
qed

lemma gmm_init_fields:
  assumes "IVGMM_init has_const y x z weight_type weight_config = Inr m"
    and "WEIGHT_MATRICES weight_type = Some c"
  shows "endog m = y \<and> exog m = x \<and> instruments m = z \<and> w_class (m_weight m) = c"
  using assms
  by (auto simp: IVGMM_init_def IV2SLS_init_def WeightMatrix_init_def bind_e_def iv_model.defs
      split: sum.splits option.splits)

lemma iv2sls_init_fields:
  assumes "IV2SLS_init has_const y x z = Inr m"
  shows "endog m = y \<and> exog m = x \<and> instruments m = z"
  using assms by (auto simp: IV2SLS_init_def bind_e_def split: sum.splits)


lemma two_step_example_body:
  "gmm_body (weight_matrix no_kernel_weights
               \<lparr>w_class = HomoskedasticWeightMatrix,
                w_config = [(''center'', CBool False)], w_bandwidth = 0\<rparr>)
     [[1], [0], [0]] [[1], [2], [4]] [[1, 0], [0, 1], [1, 1]] 1
     \<lparr>st_norm = 10 * (1 / 10000), st_params = [[5]], st_prev_params = [[5]],
      st_eps = None, st_w = None, st_vinv = None\<rparr>
   = Inr \<lparr>st_norm = 1458, st_params = [[2]], st_prev_params = [[2]],
          st_eps = Some [[- 4], [2], [4]],
          st_w = Some [[1 / 6, - (1 / 12)], [- (1 / 12), 1 / 6]],
          st_vinv = Some [[162]]\<rparr>"
proof -
  have e: "msub [[1], [2], [4]] (matmul [[1], [0], [0]] [[5]]) = [[- 4], [2], [4]]"
    by code_simp
  have h: "homoskedastic_weight_matrix [[1], [0], [0]] [[1, 0], [0, 1], [1, 1]] [[- 4], [2], [4]]
             = [[8, 4], [4, 8]]"
    unfolding homoskedastic_weight_matrix_def Let_def by code_simp
  have iw: "linalg_inv [[8, 4], [4, 8]] = Inr [[1 / 6, - (1 / 12)], [- (1 / 12), 1 / 6]]"
    by code_simp
  have xpz: "matmul (T [[1], [0], [0]]) [[1, 0], [0, 1], [1, 1]] = [[1, 0]]"
    by code_simp
  have est: "IVGMM_estimate_parameters [[1], [0], [0]] [[1], [2], [4]] [[1, 0], [0, 1], [1, 1]]
               [[1 / 6, - (1 / 12)], [- (1 / 12), 1 / 6]] = Inr [[2]]"
    unfolding IVGMM_estimate_parameters_def xpz Let_def by code_simp
  have d: "msub [[2]] [[5]] = [[- 3]]"
    by code_simp
  have v: "linalg_inv (divide_by (matmul (matmul (divide_by [[1, 0]] 3)
              [[1 / 6, - (1 / 12)], [- (1 / 12), 1 / 6]]) (T (divide_by [[1, 0]] 3))) 3)
            = Inr [[162]]"
    by code_simp
  have nrm: "item (matmul (matmul (T [[- 3]]) [[162]]) [[- 3]]) = 1458"
    by code_simp
  show ?thesis
    by (simp add: gmm_body_def Let_def bind_e_def weight_matrix_def e h iw xpz est d v nrm)
qed

lemma two_step_example_fit:
  "IVGMM_fit no_kernel_weights zero_gmm_covariance
     \<lparr>endog = [[1], [2], [4]], exog = [[1], [0], [0]],
      instruments = [[1, 0], [0, 1], [1, 1]],
      has_constant = False, regressor_is_exog = [False],
      m_weight = \<lparr>w_class = HomoskedasticWeightMatrix,
                    w_config = [(''center'', CBool False)], w_bandwidth = 0\<rparr>,
      m_weight_type = ''homoskedastic'',
      m_weight_config = [(''center'', CBool False)]\<rparr> 2 (1 / 10000) ''robust'' []
   = Inr \<lparr>r_params = [[2]], r_cov = [[0]], rsquared = [[Finite (- (5 / 7))]],
          r_cov_type = ''robust'', resid_ss = [[36]], total_ss = [[21]],
          r_model =
            \<lparr>endog = [[1], [2], [4]], exog = [[1], [0], [0]],
             instruments = [[1, 0], [0, 1], [1, 1]],
             has_constant = False, regressor_is_exog = [False],
             m_weight = \<lparr>w_class = HomoskedasticWeightMatrix,
                           w_config = [(''center'', CBool False)], w_bandwidth = 0\<rparr>,
             m_weight_type = ''homoskedastic'',
             m_weight_config = [(''center'', CBool False)]\<rparr>,
          r_kappa = 1,
          weight_mat = [[1 / 6, - (1 / 12)], [- (1 / 12), 1 / 6]],
          r_weight_type = ''homoskedastic'',
          r_weight_config = [(''center'', CBool False)], iterations = 2\<rparr>"
proof -
  have n: "ncols [[1, 0], [0, 1], [1, 1::real]] = 2" by code_simp
  have c: "zeros (ncols [[1], [0], [0::real]]) (ncols [[1], [0], [0::real]]) = [[0]]"
    by code_simp
  have l: "gmm_loop (weight_matrix no_kernel_weights
               \<lparr>w_class = HomoskedasticWeightMatrix,
                w_config = [(''center'', CBool False)], w_bandwidth = 0\<rparr>)
     [[1], [0], [0]] [[1], [2], [4]] [[1, 0], [0, 1], [1, 1]] 2 (1 / 10000) 1
     \<lparr>st_norm = 10 * (1 / 10000), st_params = [[5]], st_prev_params = [[5]],
      st_eps = None, st_w = None, st_vinv = None\<rparr>
     = Inr (2, \<lparr>st_norm = 1458, st_params = [[2]], st_prev_params = [[2]],
          st_eps = Some [[- 4], [2], [4]],
          st_w = Some [[1 / 6, - (1 / 12)], [- (1 / 12), 1 / 6]],
          st_vinv = Some [[162]]\<rparr>)"
  proof -
    have "gmm_loop (weight_matrix no_kernel_weights
               \<lparr>w_class = HomoskedasticWeightMatrix,
                w_config = [(''center'', CBool False)], w_bandwidth = 0\<rparr>)
     [[1], [0], [0]] [[1], [2], [4]] [[1, 0], [0, 1], [1, 1]] 2 (1 / 10000) 1
     \<lparr>st_norm = 10 * (1 / 10000), st_params = [[5]], st_prev_params = [[5]],
      st_eps = None, st_w = None, st_vinv = None\<rparr>
     = (case gmm_body (weight_matrix no_kernel_weights
               \<lparr>w_class = HomoskedasticWeightMatrix,
                w_config = [(''center'', CBool False)], w_bandwidth = 0\<rparr>)
     [[1], [0], [0]] [[1], [2], [4]] [[1, 0], [0, 1], [1, 1]] 1
     \<lparr>st_norm = 10 * (1 / 10000), st_params = [[5]], st_prev_params = [[5]],
      st_eps = None, st_w = None, st_vinv = None\<rparr> of Inl e \<Rightarrow> Inl e | Inr s' \<Rightarrow> Inr (2, s'))"
      by (rule gmm_loop_two) simp_all
    then show ?thesis by (simp only: two_step_example_body sum.case)
  qed
  have s: "sums_of_squares
     \<lparr>endog = [[1], [2], [4]], exog = [[1], [0], [0]],
      instruments = [[1, 0], [0, 1], [1, 1]],
      has_constant = False, regressor_is_exog = [False],
      m_weight = \<lparr>w_class = HomoskedasticWeightMatrix,
                    w_config = [(''center'', CBool False)], w_bandwidth = 0\<rparr>,
      m_weight_type = ''homoskedastic'',
      m_weight_config = [(''center'', CBool False)]\<rparr> [[- 4], [2], [4]]
     = ([[Finite (- (5 / 7))]], [[36]], [[21]])"
    unfolding sums_of_squares_def Let_def by code_simp
  have l': "gmm_loop (weight_matrix no_kernel_weights
               \<lparr>w_class = HomoskedasticWeightMatrix,
                w_config = [(''center'', CBool False)], w_bandwidth = 0\<rparr>)
     [[1], [0], [0]] [[1], [2], [4]] [[1, 0], [0, 1], [1, 1]] 2 (1 / 10000) 1
     \<lparr>st_norm = 1 / 1000, st_params = [[5]], st_prev_params = [[5]],
      st_eps = None, st_w = None, st_vinv = None\<rparr>
     = Inr (2, \<lparr>st_norm = 1458, st_params = [[2]], st_prev_params = [[2]],
          st_eps = Some [[- 4], [2], [4]],
          st_w = Some [[1 / 6, - (1 / 12)], [- (1 / 12), 1 / 6]],
          st_vinv = Some [[162]]\<rparr>)"
    using l by simp
  show ?thesis
    by (simp add: IVGMM_fit_def Let_def bind_e_def n overidentified_example_first_step l' c s
        zero_gmm_covariance_def)
qed

lemma iv2sls_fit_succeeds:
  assumes "IV2SLS_estimate_parameters (exog m) (endog m) (instruments m) = Inr p"
    and "COVARIANCE_ESTIMATORS cov_type = Some c"
  shows "\<exists>res. IV2SLS_fit zero_covariance m cov_type cov_config = Inr res \<and> r_params res = p"
  using assms by (simp add: IV2SLS_fit_def Let_def bind_e_def zero_covariance_def)

lemma overidentified_example_iv2sls_model:
  "IV2SLS_init has_constant_column [[1], [2], [4]] [[1], [0], [0]] [[1, 0], [0, 1], [1, 1]]
     = Inr \<lparr>endog = [[1], [2], [4]], exog = [[1], [0], [0]],
            instruments = [[1, 0], [0, 1], [1, 1]], has_constant = False,
            regressor_is_exog = [False]\<rparr>"
  by code_simp

lemma homoskedastic_registered:
  "WEIGHT_MATRICES ''homoskedastic'' = Some HomoskedasticWeightMatrix"
  by (simp add: WEIGHT_MATRICES_def)

lemma two_step_example_second_body:
  "gmm_body (weight_matrix no_kernel_weights
               \<lparr>w_class = HomoskedasticWeightMatrix,
                w_config = [(''center'', CBool False)], w_bandwidth = 0\<rparr>)
     [[1], [0], [0]] [[1], [2], [4]] [[1, 0], [0, 1], [1, 1]] 2
     \<lparr>st_norm = 1458, st_params = [[2]], st_prev_params = [[2]],
      st_eps = Some [[- 4], [2], [4]],
      st_w = Some [[1 / 6, - (1 / 12)], [- (1 / 12), 1 / 6]],
      st_vinv = Some [[162]]\<rparr>
   = Inr \<lparr>st_norm = 0, st_params = [[2]], st_prev_params = [[2]],
          st_eps = Some [[- 1], [2], [4]],
          st_w = Some [[2 / 7, - (1 / 7)], [- (1 / 7), 2 / 7]],
          st_vinv = Some [[162]]\<rparr>"
proof -
  have e: "msub [[1], [2], [4]] (matmul [[1], [0], [0]] [[2]]) = [[- 1], [2], [4]]"
    by code_simp
  have h: "homoskedastic_weight_matrix [[1], [0], [0]] [[1, 0], [0, 1], [1, 1]] [[- 1], [2], [4]]
             = [[14 / 3, 7 / 3], [7 / 3, 14 / 3]]"
    unfolding homoskedastic_weight_matrix_def Let_def by code_simp
  have iw: "linalg_inv [[14 / 3, 7 / 3], [7 / 3, 14 / 3]]
              = Inr [[2 / 7, - (1 / 7)], [- (1 / 7), 2 / 7]]"
    by code_simp
  have xpz: "matmul (T [[1], [0], [0]]) [[1, 0], [0, 1], [1, 1]] = [[1, 0]]"
    by code_simp
  have est: "IVGMM_estimate_parameters [[1], [0], [0]] [[1], [2], [4]] [[1, 0], [0, 1], [1, 1]]
               [[2 / 7, - (1 / 7)], [- (1 / 7), 2 / 7]] = Inr [[2]]"
    unfolding IVGMM_estimate_parameters_def xpz Let_def by code_simp
  have d: "msub [[2]] [[2]] = [[0]]"
    by code_simp
  have nrm: "item (matmul (matmul (T [[0]]) [[162]]) [[0]]) = 0"
    by code_simp
  show ?thesis
    by (simp add: gmm_body_def Let_def bind_e_def weight_matrix_def e h iw xpz est d nrm)
qed

text \<open>
  With \<open>iter_limit = 2\<close>, the default, the loop makes one pass: the estimate with the identity
  weight is re-weighted once with \<open>(s\<^sup>2 Z\<^sup>t Z / n)\<^sup>-\<^sup>1\<close>, and on inputs with \<open>Z\<^sup>t Z\<close> invertible
  the parameter vector of \<open>IVGMM.fit\<close> is that of \<open>IV2SLS.fit\<close>.
\<close>

lemma gmm_two_step_homoskedastic_is_2sls:
  assumes x: "is_mat n k x" and y: "is_mat n 1 y" and z: "is_mat n q z"
    and n: "0 < n" and k: "0 < k" and q: "0 < q"
    and tol: "0 < tol"
    and wt: "WEIGHT_MATRICES weight_type = Some HomoskedasticWeightMatrix"
    and init: "IVGMM_init has_const y x z weight_type weight_config = Inr m"
    and B: "linalg_inv (matmul (T z) z) = Inr B"
    and fit: "IVGMM_fit kw gmm_covariance m 2 tol cov_type cov_config = Inr res"
    and init2: "IV2SLS_init has_const y x z = Inr m2"
    and fit2: "IV2SLS_fit covariance m2 cov_type2 cov_config2 = Inr res2"
  shows "r_params res = r_params res2"
proof -
  from gmm_init_fields[OF init wt]
  have m: "endog m = y" "exog m = x" "instruments m = z"
    and wc: "w_class (m_weight m) = HomoskedasticWeightMatrix" by simp_all
  from iv2sls_init_fields[OF init2]
  have m2: "endog m2 = y" "exog m2 = x" "instruments m2 = z" by simp_all
  from fit2 have tsls: "IV2SLS_estimate_parameters x y z = Inr (r_params res2)"
    by (auto simp: IV2SLS_fit_def Let_def bind_e_def m2 split: sum.splits option.splits)
  let ?wm = "weight_matrix kw (m_weight m)"
  from fit obtain p0 s1 where
    p0: "IVGMM_estimate_parameters x y z (eye (ncols z)) = Inr p0"
    and body: "gmm_body ?wm x y z 1
                 \<lparr>st_norm = 10 * tol, st_params = p0, st_prev_params = p0,
                  st_eps = None, st_w = None, st_vinv = None\<rparr> = Inr s1"
    and res: "r_params res = st_params s1"
    by (auto simp: IVGMM_fit_def Let_def bind_e_def m gmm_loop_two[OF tol]
        split: sum.splits option.splits)
  define eps where "eps = msub y (matmul x p0)"
  have p0m: "is_mat k 1 p0" by (rule is_mat_gmm_params[OF x y z n k q p0])
  have e: "is_mat n 1 eps"
    unfolding eps_def by (rule is_mat_msub[OF y is_mat_matmul[OF x p0m k]])
  have wm: "?wm x z eps = Inr (homoskedastic_weight_matrix x z eps)"
    by (simp add: weight_matrix_def wc)
  from body obtain w where
    w: "linalg_inv (homoskedastic_weight_matrix x z eps) = Inr w"
    and gmm: "IVGMM_estimate_parameters x y z w = Inr (st_params s1)"
    by (auto simp: gmm_body_def Let_def bind_e_def wm eps_def[symmetric] split: sum.splits)
  from homoskedastic_second_step_is_2sls[OF x y z n k q e B w gmm tsls] res
  show ?thesis by simp
qed

lemma two_step_example_agrees:
  "\<exists>res res2.
     IVGMM_fit no_kernel_weights zero_gmm_covariance
       \<lparr>endog = [[1], [2], [4]], exog = [[1], [0], [0]],
        instruments = [[1, 0], [0, 1], [1, 1]],
        has_constant = False, regressor_is_exog = [False],
        m_weight = \<lparr>w_class = HomoskedasticWeightMatrix,
                      w_config = [(''center'', CBool False)], w_bandwidth = 0\<rparr>,
        m_weight_type = ''homoskedastic'',
        m_weight_config = [(''center'', CBool False)]\<rparr> 2 (1 / 10000) ''robust'' [] = Inr res
     \<and> IV2SLS_fit zero_covariance
         \<lparr>endog = [[1], [2], [4]], exog = [[1], [0], [0]],
          instruments = [[1, 0], [0, 1], [1, 1]], has_constant = False,
          regressor_is_exog = [False]\<rparr> ''robust'' [] = Inr res2
     \<and> r_params res = r_params res2 \<and> r_params res2 = [[2]]"
proof -
  let ?m2 = "\<lparr>endog = [[1], [2], [4]], exog = [[1], [0], [0]],
          instruments = [[1, 0], [0, 1], [1, 1]], has_constant = False,
          regressor_is_exog = [False]\<rparr>"
  have x: "is_mat 3 1 [[1], [0], [0::real]]" and y: "is_mat 3 1 [[1], [2], [4::real]]"
    and z: "is_mat 3 2 [[1, 0], [0, 1], [1, 1::real]]"
    by (simp_all add: is_mat_def)
  have B: "linalg_inv (matmul (T [[1, 0], [0, 1], [1, 1]]) [[1, 0], [0, 1], [1, 1]])
             = Inr [[2 / 3, - (1 / 3)], [- (1 / 3), 2 / 3]]"
    by code_simp
  have tol: "(0::real) < 1 / 10000" by simp
  obtain res where fit: "IVGMM_fit no_kernel_weights zero_gmm_covariance
       \<lparr>endog = [[1], [2], [4]], exog = [[1], [0], [0]],
        instruments = [[1, 0], [0, 1], [1, 1]],
        has_constant = False, regressor_is_exog = [False],
        m_weight = \<lparr>w_class = HomoskedasticWeightMatrix,
                      w_config = [(''center'', CBool False)], w_bandwidth = 0\<rparr>,
        m_weight_type = ''homoskedastic'',
        m_weight_config = [(''center'', CBool False)]\<rparr> 2 (1 / 10000) ''robust'' [] = Inr res"
    using two_step_example_fit by blast
  obtain res2 where fit2: "IV2SLS_fit zero_covariance ?m2 ''robust'' [] = Inr res2"
    and p2: "r_params res2 = [[2]]"
    using iv2sls_fit_succeeds[of ?m2 "[[2]]" "''robust''", OF _ robust_registered]
      overidentified_example_2sls by auto
  have "r_params res = r_params res2"
    by (rule gmm_two_step_homoskedastic_is_2sls[OF x y z _ _ _ tol homoskedastic_registered
          overidentified_example_model B fit overidentified_example_iv2sls_model fit2]) simp_all
  with fit fit2 p2 show ?thesis by blast
qed


section \<open>The pseudoinverse of a matrix of full column rank is the Moore-Penrose inverse\<close>

text \<open>
  The four equations that determine the pseudoinverse, for \<open>linalg_pinv\<close> on a matrix whose
  Gram matrix \<open>X\<^sup>t X\<close> is invertible.
\<close>

lemma linalg_pinv_moore_penrose:
  assumes x: "is_mat n k x" and n: "0 < n" and k: "0 < k"
    and inv: "linalg_inv (matmul (T x) x) = Inr B"
  shows "matmul (matmul x (linalg_pinv x)) x = x"
    and "matmul (matmul (linalg_pinv x) x) (linalg_pinv x) = linalg_pinv x"
    and "T (matmul x (linalg_pinv x)) = matmul x (linalg_pinv x)"
    and "T (matmul (linalg_pinv x) x) = matmul (linalg_pinv x) x"
proof -
  let ?P = "linalg_pinv x"
  have Tx: "is_mat k n (T x)" by (rule is_mat_T[OF x n])
  have S: "is_mat k k (matmul (T x) x)" by (rule is_mat_matmul[OF Tx x n])
  from linalg_inv_left[OF inv] S
  have B: "is_mat k k B" and left: "matmul B (matmul (T x) x) = eye k"
    by (simp_all add: is_mat_length)
  have TB: "T B = B"
    by (rule symmetric_left_inverse_symmetric[OF S B k gram_symmetric[OF x n k] left])
  have P: "?P = matmul B (T x)" by (simp add: linalg_pinv_def inv)
  have Pm: "is_mat k n ?P" unfolding P by (rule is_mat_matmul[OF B Tx k])
  have Px: "matmul ?P x = eye k" by (rule pinv_full_rank_left_inverse[OF x n k inv])
  show "matmul (matmul x ?P) x = x"
    by (simp add: matmul_assoc[OF x Pm x k n] Px matmul_eye_right[OF x k])
  show "matmul (matmul ?P x) ?P = ?P"
    by (simp add: Px matmul_eye_left[OF Pm k])
  show "T (matmul ?P x) = matmul ?P x"
    using k by (simp add: Px T_eye)
  have "T (matmul x (matmul B (T x))) = matmul (T (matmul B (T x))) (T x)"
    by (rule T_matmul[OF x is_mat_matmul[OF B Tx k] n k n])
  also have "\<dots> = matmul (matmul (T (T x)) (T B)) (T x)"
    by (simp add: T_matmul[OF B Tx k k n])
  also have "\<dots> = matmul (matmul x B) (T x)"
    by (simp add: T_T[OF x n k] TB)
  also have "\<dots> = matmul x (matmul B (T x))"
    by (rule matmul_assoc[OF x B Tx k k])
  finally show "T (matmul x ?P) = matmul x ?P" by (simp add: P)
qed
section \<open>The claims\<close>

text \<open>
  C1.  The claim is that \<open>IVGMM.fit\<close> with \<open>iter_limit = 1\<close> and homoskedastic weights returns
  the parameter vector of \<open>IV2SLS.fit\<close>.  The counter \<open>i\<close> of \<open>fit\<close> starts at 1, so with
  \<open>iter_limit = 1\<close> the condition \<open>i < iter_limit\<close> fails at once and the body of the loop, the
  only place that assigns \<open>w\<close> and \<open>eps\<close>, does not run; \<open>fit\<close> then reads \<open>w\<close> and raises
  \<open>UnboundLocalError\<close>.  On \<open>y = (1, 2, 4)\<close>, \<open>x = (1, 0, 0)\<close> and the instruments
  \<open>(1, 0), (0, 1), (1, 1)\<close> the constructor accepts the data, \<open>fit\<close> raises, and the 2SLS
  estimate the claim asks for is 2.
\<close>

theorem gmm_fit_iter_limit_one_raises:
  "IVGMM_init has_constant_column [[1], [2], [4]] [[1], [0], [0]] [[1, 0], [0, 1], [1, 1]]
     ''homoskedastic'' []
   = Inr \<lparr>endog = [[1], [2], [4]], exog = [[1], [0], [0]],
          instruments = [[1, 0], [0, 1], [1, 1]],
          has_constant = False, regressor_is_exog = [False],
          m_weight = \<lparr>w_class = HomoskedasticWeightMatrix,
                        w_config = [(''center'', CBool False)], w_bandwidth = 0\<rparr>,
          m_weight_type = ''homoskedastic'',
          m_weight_config = [(''center'', CBool False)]\<rparr>
   \<and> IVGMM_fit no_kernel_weights zero_gmm_covariance
       \<lparr>endog = [[1], [2], [4]], exog = [[1], [0], [0]],
          instruments = [[1, 0], [0, 1], [1, 1]],
          has_constant = False, regressor_is_exog = [False],
          m_weight = \<lparr>w_class = HomoskedasticWeightMatrix,
                        w_config = [(''center'', CBool False)], w_bandwidth = 0\<rparr>,
          m_weight_type = ''homoskedastic'',
          m_weight_config = [(''center'', CBool False)]\<rparr> 1 (1 / 10000) ''robust'' []
     = Inl (UnboundLocalError ''w'')
   \<and> IV2SLS_init has_constant_column [[1], [2], [4]] [[1], [0], [0]] [[1, 0], [0, 1], [1, 1]]
     = Inr \<lparr>endog = [[1], [2], [4]], exog = [[1], [0], [0]],
            instruments = [[1, 0], [0, 1], [1, 1]], has_constant = False,
            regressor_is_exog = [False]\<rparr>
   \<and> (\<exists>res2. IV2SLS_fit zero_covariance
          \<lparr>endog = [[1], [2], [4]], exog = [[1], [0], [0]],
           instruments = [[1, 0], [0, 1], [1, 1]], has_constant = False,
           regressor_is_exog = [False]\<rparr> ''robust'' [] = Inr res2
        \<and> r_params res2 = [[2]])"
proof -
  let ?m2 = "\<lparr>endog = [[1], [2], [4]], exog = [[1], [0], [0]],
          instruments = [[1, 0], [0, 1], [1, 1]], has_constant = False,
          regressor_is_exog = [False]\<rparr>"
  have n: "ncols [[1, 0], [0, 1], [1, 1::real]] = 2" by code_simp
  have raises: "IVGMM_fit no_kernel_weights zero_gmm_covariance
       \<lparr>endog = [[1], [2], [4]], exog = [[1], [0], [0]],
          instruments = [[1, 0], [0, 1], [1, 1]],
          has_constant = False, regressor_is_exog = [False],
          m_weight = \<lparr>w_class = HomoskedasticWeightMatrix,
                        w_config = [(''center'', CBool False)], w_bandwidth = 0\<rparr>,
          m_weight_type = ''homoskedastic'',
          m_weight_config = [(''center'', CBool False)]\<rparr> 1 (1 / 10000) ''robust'' []
     = Inl (UnboundLocalError ''w'')"
    by (simp add: gmm_fit_no_iteration n overidentified_example_first_step bind_e_def)
  have tsls: "\<exists>res2. IV2SLS_fit zero_covariance ?m2 ''robust'' [] = Inr res2
                \<and> r_params res2 = [[2]]"
    using iv2sls_fit_succeeds[of ?m2 "[[2]]" "''robust''", OF _ robust_registered]
      overidentified_example_2sls by auto
  from overidentified_example_model raises overidentified_example_iv2sls_model tsls
  show ?thesis by (intro conjI)
qed

text \<open>
  C2 (as amended).  Constructing \<open>IVGMM\<close> with a \<open>weight_type\<close> that is not a key of
  \<open>WEIGHT_MATRICES\<close> always fails, and never reaches the weight matrix class.  The base class
  constructor runs first, with its rank checks: on inputs of full column rank the failure is
  \<open>KeyError\<close>, on a rank-deficient \<open>exog\<close> or \<open>instruments\<close> it is the rank error.
\<close>

theorem gmm_init_unknown_weight_type:
  assumes "WEIGHT_MATRICES weight_type = None"
  shows "IVGMM_init has_const y x z weight_type weight_config =
           (if matrix_rank x < ncols x \<or> matrix_rank z < ncols z
            then Inl (ValueError ''exogenous data does not have full column rank'')
            else Inl (KeyError weight_type))"
  using assms
  by (simp add: IVGMM_init_def IV2SLS_init_def validate_inputs_def bind_e_def Let_def)

theorem gmm_init_unknown_weight_type_witness:
  "WEIGHT_MATRICES ''bogus'' = None
   \<and> IVGMM_init has_constant_column [[1], [2]] [[1], [1]] [[1], [1]] ''bogus'' []
       = Inl (KeyError ''bogus'')"
proof -
  have r: "matrix_rank [[1], [1]] = 1" "ncols [[1], [1::real]] = 1" by code_simp+
  show ?thesis
    using gmm_init_unknown_weight_type[OF bogus_weight_unregistered,
        of has_constant_column "[[1], [2]]" "[[1], [1]]" "[[1], [1]]" "[]"]
    by (simp add: r bogus_weight_unregistered)
qed

theorem gmm_init_rank_error_first_counterexample:
  "WEIGHT_MATRICES ''bogus'' = None
   \<and> IVGMM_init has_constant_column [[1], [2]] [[1, 2], [2, 4]] [[1], [1]] ''bogus'' []
       = Inl (ValueError ''exogenous data does not have full column rank'')"
proof -
  have r: "matrix_rank [[1, 2], [2, 4]] = 1" "ncols [[1, 2], [2, 4::real]] = 2" by code_simp+
  show ?thesis
    by (simp add: IVGMM_init_def IV2SLS_init_def validate_inputs_def bind_e_def Let_def r
        bogus_weight_unregistered)
qed


text \<open>
  C3 (as amended).  With a \<open>cov_type\<close> that is not a key of \<open>COVARIANCE_ESTIMATORS\<close>,
  \<open>IV2SLS.fit\<close> and \<open>IVLIML.fit\<close> raise \<open>KeyError\<close> as soon as the parameters are estimated
  (an error of the estimation itself comes first).  \<open>IVGMM.fit\<close> never looks \<open>cov_type\<close> up: it
  uses \<open>IVGMMCovariance\<close> and copies the name into the results, so it returns what it returns
  for \<open>'robust'\<close>, and only the label differs.
\<close>

theorem fit_unknown_cov_type:
  assumes "COVARIANCE_ESTIMATORS cov_type = None"
  shows "IV2SLS_fit covariance m cov_type cov_config
           = bind_e (IV2SLS_estimate_parameters (exog m) (endog m) (instruments m))
               (\<lambda>params. Inl (KeyError cov_type))
         \<and> IVLIML_fit inv_sqrth eigvalsh covariance lm cov_type cov_config
           = bind_e (case m_kappa lm of None \<Rightarrow> liml_kappa inv_sqrth eigvalsh lm | Some k \<Rightarrow> Inr k)
               (\<lambda>kappa. bind_e (IVLIML_estimate_parameters (exog lm) (endog lm) (instruments lm) kappa)
                  (\<lambda>params. Inl (KeyError cov_type)))
         \<and> IVGMM_fit kw gmm_covariance gm iter_limit tol cov_type cov_config
           = map_sum id (r_cov_type_update (\<lambda>_. cov_type))
               (IVGMM_fit kw gmm_covariance gm iter_limit tol ''robust'' cov_config)"
proof (intro conjI)
  show "IV2SLS_fit covariance m cov_type cov_config
           = bind_e (IV2SLS_estimate_parameters (exog m) (endog m) (instruments m))
               (\<lambda>params. Inl (KeyError cov_type))"
    using assms by (simp add: IV2SLS_fit_def Let_def)
  show "IVLIML_fit inv_sqrth eigvalsh covariance lm cov_type cov_config
           = bind_e (case m_kappa lm of None \<Rightarrow> liml_kappa inv_sqrth eigvalsh lm | Some k \<Rightarrow> Inr k)
               (\<lambda>kappa. bind_e (IVLIML_estimate_parameters (exog lm) (endog lm) (instruments lm) kappa)
                  (\<lambda>params. Inl (KeyError cov_type)))"
    using assms by (simp add: IVLIML_fit_def Let_def)
  show "IVGMM_fit kw gmm_covariance gm iter_limit tol cov_type cov_config
           = map_sum id (r_cov_type_update (\<lambda>_. cov_type))
               (IVGMM_fit kw gmm_covariance gm iter_limit tol ''robust'' cov_config)"
    by (rule gmm_fit_cov_type_label)
qed

theorem fit_unknown_cov_type_witness:
  "COVARIANCE_ESTIMATORS ''bogus'' = None
   \<and> IV2SLS_fit zero_covariance
       \<lparr>endog = [[0], [1], [0]], exog = [[1, 1], [1, 2], [1, 3]],
        instruments = [[1, 1], [1, 0], [1, 2]], has_constant = True,
        regressor_is_exog = [True, False]\<rparr> ''bogus'' [] = Inl (KeyError ''bogus'')"
  using fit_unknown_cov_type[OF bogus_covariance_unregistered,
      of zero_covariance "\<lparr>endog = [[0], [1], [0]], exog = [[1, 1], [1, 2], [1, 3]],
        instruments = [[1, 1], [1, 0], [1, 2]], has_constant = True,
        regressor_is_exog = [True, False]\<rparr>" "[]"]
  by (simp add: bogus_covariance_unregistered params_example bind_e_def)

theorem gmm_fit_ignores_cov_type_counterexample:
  "COVARIANCE_ESTIMATORS ''bogus'' = None
   \<and> IVGMM_init has_constant_column [[1], [2]] [[1], [1]] [[1], [1]] ''robust'' []
     = Inr \<lparr>endog = [[1], [2]], exog = [[1], [1]], instruments = [[1], [1]],
            has_constant = True, regressor_is_exog = [True],
            m_weight = \<lparr>w_class = HeteroskedasticWeightMatrix,
                          w_config = [(''center'', CBool False)], w_bandwidth = 0\<rparr>,
            m_weight_type = ''robust'',
            m_weight_config = [(''center'', CBool False)]\<rparr>
   \<and> map_sum id r_cov_type
       (IVGMM_fit no_kernel_weights zero_gmm_covariance
          \<lparr>endog = [[1], [2]], exog = [[1], [1]], instruments = [[1], [1]],
           has_constant = True, regressor_is_exog = [True],
           m_weight = \<lparr>w_class = HeteroskedasticWeightMatrix,
                         w_config = [(''center'', CBool False)], w_bandwidth = 0\<rparr>,
           m_weight_type = ''robust'',
           m_weight_config = [(''center'', CBool False)]\<rparr> 2 (1 / 10000) ''bogus'' [])
     = Inr ''bogus''"
proof -
  have "map_sum id r_cov_type
       (IVGMM_fit no_kernel_weights zero_gmm_covariance
          \<lparr>endog = [[1], [2]], exog = [[1], [1]], instruments = [[1], [1]],
           has_constant = True, regressor_is_exog = [True],
           m_weight = \<lparr>w_class = HeteroskedasticWeightMatrix,
                         w_config = [(''center'', CBool False)], w_bandwidth = 0\<rparr>,
           m_weight_type = ''robust'',
           m_weight_config = [(''center'', CBool False)]\<rparr> 2 (1 / 10000) ''bogus'' [])
     = Inr ''bogus''"
    by (subst gmm_fit_cov_type_label[where ?c0.0 = "''robust''"]) (simp add: gmm_example_fit)
  then show ?thesis
    by (simp add: bogus_covariance_unregistered gmm_example_model)
qed


text \<open>
  C4.  \<open>IVLIML.estimate_parameters\<close> with \<open>kappa = 1\<close> returns what
  \<open>IV2SLS.estimate_parameters\<close> returns on the same \<open>(x, y, z)\<close>: the same parameter vector,
  and the same \<open>LinAlgError\<close> where the matrix to invert is singular.  The weights
  \<open>1 - kappa = 0\<close> and \<open>kappa = 1\<close> leave exactly the 2SLS terms.
\<close>

theorem liml_kappa_one_is_2sls:
  "IVLIML_estimate_parameters x y z 1 = IV2SLS_estimate_parameters x y z"
  by (simp add: IVLIML_estimate_parameters_def IV2SLS_estimate_parameters_def Let_def
      kappa_one_combination)



text \<open>
  C5.  With the regressors as their own instruments, and \<open>X\<^sup>t X\<close> invertible (\<open>X\<close> of full
  column rank), \<open>IV2SLS.estimate_parameters(X, y, X)\<close> is the ordinary least squares
  solution \<open>(X\<^sup>t X)\<^sup>-\<^sup>1 X\<^sup>t y\<close>.
\<close>

theorem iv2sls_with_own_instruments_is_ols:
  assumes x: "is_mat n k x" and y: "is_mat n 1 y" and n: "0 < n" and k: "0 < k"
    and inv: "linalg_inv (matmul (T x) x) = Inr B"
  shows "IV2SLS_estimate_parameters x y x = ols x y"
proof -
  have Tx: "is_mat k n (T x)" by (rule is_mat_T[OF x n])
  have S: "is_mat k k (matmul (T x) x)" by (rule is_mat_matmul[OF Tx x n])
  have a: "matmul (matmul (T x) x) (matmul (linalg_pinv x) x) = matmul (T x) x"
    by (simp add: pinv_full_rank_left_inverse[OF x n k inv] matmul_eye_right[OF S k])
  have b: "matmul (matmul (T x) x) (matmul (linalg_pinv x) y) = matmul (T x) y"
    by (rule pinv_full_rank_projection[OF x y n k inv])
  show ?thesis
    by (simp add: IV2SLS_estimate_parameters_def ols_def Let_def a b)
qed

theorem iv2sls_with_own_instruments_is_ols_witness:
  "IV2SLS_estimate_parameters [[1, 0], [1, 1], [1, 2]] [[1], [2], [4]] [[1, 0], [1, 1], [1, 2]]
     = ols [[1, 0], [1, 1], [1, 2]] [[1], [2], [4]]
   \<and> ols [[1, 0], [1, 1], [1, 2]] [[1], [2], [4]] = Inr [[5 / 6], [3 / 2]]"
proof -
  have x: "is_mat 3 2 [[1, 0], [1, 1], [1, 2::real]]" by (simp add: is_mat_def)
  have y: "is_mat 3 1 [[1], [2], [4::real]]" by (simp add: is_mat_def)
  have i: "linalg_inv (matmul (T [[1, 0], [1, 1], [1, 2]]) [[1, 0], [1, 1], [1, 2]])
             = Inr [[5 / 6, - 1 / 2], [- 1 / 2, 1 / 2]]"
    by code_simp
  have o: "ols [[1, 0], [1, 1], [1, 2]] [[1], [2], [4]] = Inr [[5 / 6], [3 / 2]]"
    by code_simp
  show ?thesis
    using iv2sls_with_own_instruments_is_ols[OF x y _ _ i] o by simp
qed

text \<open>
  C6 (as amended).  For a model with \<open>n\<close> observations whose total sum of squares is
  positive, the \<open>rsquared\<close> that \<open>IV2SLS.fit\<close> computes is a finite number at most 1.  It need
  not be at least 0: the residuals of an instrumental-variable fit are not orthogonal to the
  regressors, and the residual sum of squares can exceed the total one.
\<close>

theorem rsquared_at_most_one:
  assumes y: "is_mat n 1 (endog m)" and x: "is_mat n k (exog m)" and z: "is_mat n q (instruments m)"
    and n: "0 < n" and k: "0 < k" and q: "0 < q"
    and fit: "IV2SLS_fit covariance m cov_type cov_config = Inr res"
    and t: "0 < item (total_ss res)"
  shows "\<exists>v. rsquared res = [[Finite v]] \<and> v \<le> 1"
proof -
  from fit obtain params ce cov where
    est: "IV2SLS_estimate_parameters (exog m) (endog m) (instruments m) = Inr params"
    and res: "res = \<lparr>r_params = params, r_cov = cov,
                rsquared = fst (sums_of_squares m (resids m params)),
                r_cov_type = cov_type,
                resid_ss = fst (snd (sums_of_squares m (resids m params))),
                total_ss = snd (snd (sums_of_squares m (resids m params))),
                r_model = m, r_kappa = 1\<rparr>"
    by (auto simp: IV2SLS_fit_def Let_def bind_e_def split: sum.splits option.splits)
  have p: "is_mat k 1 params" by (rule ncols_2sls_params[OF x y z n k q est])
  have e: "is_mat n 1 (resids m params)"
    unfolding resids_def by (rule is_mat_msub[OF y is_mat_matmul[OF x p k]])
  have "0 < item (snd (snd (sums_of_squares m (resids m params))))"
    using t by (simp add: res)
  from sums_of_squares_r2[OF y e n this] show ?thesis by (simp add: res)
qed


theorem rsquared_at_most_one_witness:
  "\<exists>res v. IV2SLS_fit zero_covariance
     \<lparr>endog = [[1], [2], [4]], exog = [[1, 0], [1, 1], [1, 2]],
      instruments = [[1, 0], [1, 1], [1, 2]], has_constant = True,
      regressor_is_exog = [True, True]\<rparr> ''robust'' [] = Inr res
    \<and> 0 < item (total_ss res) \<and> rsquared res = [[Finite v]] \<and> v \<le> 1"
proof -
  let ?m = "\<lparr>endog = [[1], [2], [4]], exog = [[1, 0], [1, 1], [1, 2]],
      instruments = [[1, 0], [1, 1], [1, 2]], has_constant = True,
      regressor_is_exog = [True, True]\<rparr>"
  obtain res where fit: "IV2SLS_fit zero_covariance ?m ''robust'' [] = Inr res"
    and t: "total_ss res = [[14 / 3]]"
    using ols_fit_example by simp
  have y: "is_mat 3 1 (endog ?m)" and x: "is_mat 3 2 (exog ?m)" and z: "is_mat 3 2 (instruments ?m)"
    by (simp_all add: is_mat_def)
  have pos: "0 < item (total_ss res)" by (simp add: t item_def)
  from rsquared_at_most_one[OF y x z _ _ _ fit pos]
  obtain v where "rsquared res = [[Finite v]]" "v \<le> 1" by auto
  with fit pos show ?thesis by blast
qed


theorem rsquared_negative_counterexample:
  "IV2SLS_init has_constant_column [[0], [1], [0]] [[1, 1], [1, 2], [1, 3]] [[1, 1], [1, 0], [1, 2]]
     = Inr \<lparr>endog = [[0], [1], [0]], exog = [[1, 1], [1, 2], [1, 3]],
            instruments = [[1, 1], [1, 0], [1, 2]], has_constant = True,
            regressor_is_exog = [True, False]\<rparr>
   \<and> map_sum id total_ss
       (IV2SLS_fit zero_covariance
          \<lparr>endog = [[0], [1], [0]], exog = [[1, 1], [1, 2], [1, 3]],
           instruments = [[1, 1], [1, 0], [1, 2]], has_constant = True,
           regressor_is_exog = [True, False]\<rparr> ''robust'' []) = Inr [[2 / 3]]
   \<and> map_sum id rsquared
       (IV2SLS_fit zero_covariance
          \<lparr>endog = [[0], [1], [0]], exog = [[1, 1], [1, 2], [1, 3]],
           instruments = [[1, 1], [1, 0], [1, 2]], has_constant = True,
           regressor_is_exog = [True, False]\<rparr> ''robust'' []) = Inr [[Finite (- 3)]]"
proof -
  have "IV2SLS_init has_constant_column [[0], [1], [0]] [[1, 1], [1, 2], [1, 3]] [[1, 1], [1, 0], [1, 2]]
     = Inr \<lparr>endog = [[0], [1], [0]], exog = [[1, 1], [1, 2], [1, 3]],
            instruments = [[1, 1], [1, 0], [1, 2]], has_constant = True,
            regressor_is_exog = [True, False]\<rparr>"
    by code_simp
  then show ?thesis by (simp add: fit_example)
qed

text \<open>
  C7.  With \<open>center\<close> left at its default, the one-way clustered weight matrix for cluster
  labels that are all distinct (given as \<open>clusters\<close>, or the default \<open>arange(nobs)\<close>) is the
  heteroskedastic-robust weight matrix \<open>Ze\<^sup>t Ze / n\<close> of the same \<open>(x, z, eps)\<close>, where
  \<open>Ze = z * eps\<close>.
\<close>

theorem one_way_singleton_clusters_is_robust:
  assumes z: "is_mat n m z" and e: "is_mat n 1 eps" and x: "length x = n"
    and n: "0 < n" and m: "0 < m"
    and d: "distinct ls" and l: "length ls = n"
  shows "bind_e (WeightMatrix_init OneWayClusteredWeightMatrix [(''clusters'', CLabels ls)])
           (\<lambda>w. weight_matrix kw w x z eps)
         = Inr (divide_by (matmul (T (bmul z eps)) (bmul z eps)) (real n))
       \<and> bind_e (WeightMatrix_init OneWayClusteredWeightMatrix [])
           (\<lambda>w. weight_matrix kw w x z eps)
         = Inr (divide_by (matmul (T (bmul z eps)) (bmul z eps)) (real n))
       \<and> bind_e (WeightMatrix_init HeteroskedasticWeightMatrix [])
           (\<lambda>w. weight_matrix kw w x z eps)
         = Inr (divide_by (matmul (T (bmul z eps)) (bmul z eps)) (real n))"
proof (intro conjI)
  have "one_way_clustered_weight_matrix [(''clusters'', CLabels ls), (''center'', CBool False)] x z eps
          = Inr (divide_by (matmul (T (bmul z eps)) (bmul z eps)) (real n))"
    by (rule one_way_clustered_distinct_labels[OF z e n m _ _ _ d l, where cv = "CLabels ls"])
       (simp_all add: getitem_def)
  then show "bind_e (WeightMatrix_init OneWayClusteredWeightMatrix [(''clusters'', CLabels ls)])
           (\<lambda>w. weight_matrix kw w x z eps)
         = Inr (divide_by (matmul (T (bmul z eps)) (bmul z eps)) (real n))"
    by (simp add: WeightMatrix_init_def bind_e_def weight_matrix_def)
next
  have "one_way_clustered_weight_matrix [(''clusters'', CNone), (''center'', CBool False)] x z eps
          = Inr (divide_by (matmul (T (bmul z eps)) (bmul z eps)) (real n))"
    by (rule one_way_clustered_distinct_labels[OF z e n m _ _ _ distinct_arange, where cv = CNone])
       (simp_all add: getitem_def)
  then show "bind_e (WeightMatrix_init OneWayClusteredWeightMatrix [])
           (\<lambda>w. weight_matrix kw w x z eps)
         = Inr (divide_by (matmul (T (bmul z eps)) (bmul z eps)) (real n))"
    by (simp add: WeightMatrix_init_def bind_e_def weight_matrix_def)
next
  show "bind_e (WeightMatrix_init HeteroskedasticWeightMatrix [])
           (\<lambda>w. weight_matrix kw w x z eps)
         = Inr (divide_by (matmul (T (bmul z eps)) (bmul z eps)) (real n))"
    by (simp add: WeightMatrix_init_def bind_e_def weight_matrix_def
        heteroskedastic_default[OF _ x] getitem_def)
qed

theorem one_way_singleton_clusters_is_robust_witness:
  "distinct [7, 3, 5 :: int]
   \<and> bind_e (WeightMatrix_init OneWayClusteredWeightMatrix [(''clusters'', CLabels [7, 3, 5])])
       (\<lambda>w. weight_matrix no_kernel_weights w [[1, 1], [1, 2], [1, 3]] [[1, 1], [1, 0], [1, 2]]
              [[1], [- 2], [1]])
     = Inr [[2, 1], [1, 5 / 3]]
   \<and> bind_e (WeightMatrix_init HeteroskedasticWeightMatrix [])
       (\<lambda>w. weight_matrix no_kernel_weights w [[1, 1], [1, 2], [1, 3]] [[1, 1], [1, 0], [1, 2]]
              [[1], [- 2], [1]])
     = Inr [[2, 1], [1, 5 / 3]]"
proof -
  have z: "is_mat 3 2 [[1, 1], [1, 0], [1, 2::real]]" by (simp add: is_mat_def)
  have e: "is_mat 3 1 [[1], [- 2], [1::real]]" by (simp add: is_mat_def)
  have x: "length [[1, 1], [1, 2], [1, 3::real]] = 3" by simp
  have d: "distinct [7, 3, 5 :: int]" "length [7, 3, 5 :: int] = 3" by simp_all
  have v: "divide_by (matmul (T (bmul [[1, 1], [1, 0], [1, 2]] [[1], [- 2], [1]]))
             (bmul [[1, 1], [1, 0], [1, 2]] [[1], [- 2], [1]])) (real 3) = [[2, 1], [1, 5 / 3]]"
    by code_simp
  from one_way_singleton_clusters_is_robust[OF z e x _ _ d, of no_kernel_weights]
  show ?thesis using v d by simp
qed

text \<open>
  C8.  For a regressor column \<open>j\<close> that is all ones, or element-wise equal to some column of
  the instruments, the value the validator's loop stores in \<open>regressor_is_exog[j]\<close> is true,
  whatever the number of observations and the instruments are; and every model the
  constructor returns (the rank checks passed) carries that flag.
\<close>

theorem validator_marks_constant_and_instrument_columns:
  assumes j: "j < ncols x"
    and c: "list_all (\<lambda>v. v = 1) (col x j) \<or> (\<exists>j' < ncols z. col z j' = col x j)"
  shows "is_exog_column x z j
       \<and> (\<forall>m. IV2SLS_init has_const y x z = Inr m \<longrightarrow>
             length (regressor_is_exog m) = ncols x \<and> regressor_is_exog m ! j = True)"
proof (intro conjI allI impI)
  show e: "is_exog_column x z j"
    using c ones_column_is_exog instrument_column_is_exog by blast
  fix m assume init: "IV2SLS_init has_const y x z = Inr m"
  from init obtain cst flags where
    v: "validate_inputs has_const x z (replicate (ncols x) True) = Inr (cst, flags)"
    and m: "regressor_is_exog m = flags"
    by (auto simp: IV2SLS_init_def bind_e_def split: sum.splits)
  have f: "flags = map (is_exog_column x z) [0..<ncols x]"
    by (rule validate_inputs_flags[OF v])
  show "length (regressor_is_exog m) = ncols x" by (simp add: m f)
  show "regressor_is_exog m ! j = True" using e j by (simp add: m f)
qed

theorem validator_marks_constant_and_instrument_columns_witness:
  "IV2SLS_init has_constant_column [[1], [2], [4]] [[1, 0], [1, 1], [1, 2]] [[3, 0], [1, 1], [2, 2]]
     = Inr \<lparr>endog = [[1], [2], [4]], exog = [[1, 0], [1, 1], [1, 2]],
            instruments = [[3, 0], [1, 1], [2, 2]], has_constant = True,
            regressor_is_exog = [True, True]\<rparr>
   \<and> list_all (\<lambda>v. v = 1) (col [[1, 0], [1, 1], [1, 2]] 0)
   \<and> col [[3, 0], [1, 1], [2, 2]] 1 = col [[1, 0], [1, 1], [1, 2]] 1
   \<and> regressor_is_exog \<lparr>endog = [[1], [2], [4]], exog = [[1, 0], [1, 1], [1, 2]],
            instruments = [[3, 0], [1, 1], [2, 2]], has_constant = True,
            regressor_is_exog = [True, True]\<rparr> ! 0 = True
   \<and> regressor_is_exog \<lparr>endog = [[1], [2], [4]], exog = [[1, 0], [1, 1], [1, 2]],
            instruments = [[3, 0], [1, 1], [2, 2]], has_constant = True,
            regressor_is_exog = [True, True]\<rparr> ! 1 = True"
proof -
  have n: "ncols [[1, 0], [1, 1], [1, 2::real]] = 2" "ncols [[3, 0], [1, 1], [2, 2::real]] = 2"
    by (simp_all add: ncols_def)
  have a: "list_all (\<lambda>v. v = 1) (col [[1, 0], [1, 1], [1, 2::real]] 0)"
    by (simp add: col_def)
  have b: "col [[3, 0], [1, 1], [2, 2]] 1 = col [[1, 0], [1, 1], [1, 2::real]] 1"
    by (simp add: col_def)
  have b': "\<exists>j' < ncols [[3, 0], [1, 1], [2, 2::real]].
              col [[3, 0], [1, 1], [2, 2]] j' = col [[1, 0], [1, 1], [1, 2]] 1"
    using b n by (intro exI[of _ 1]) simp
  have j: "0 < ncols [[1, 0], [1, 1], [1, 2::real]]" "1 < ncols [[1, 0], [1, 1], [1, 2::real]]"
    by (simp_all add: n)
  from validator_marks_constant_and_instrument_columns[OF j(1) disjI1[OF a]]
    validator_marks_constant_and_instrument_columns[OF j(2) disjI2[OF b']]
  show ?thesis using validator_example a b by simp
qed


text \<open>
  C9.  For \<open>iter_limit \<ge> 1\<close> and \<open>tol > 0\<close>, \<open>IVGMM.fit\<close> terminates.  If the estimate with the
  identity weight raises, \<open>fit\<close> raises it.  Otherwise its loop, started at counter 1 with
  \<open>norm = 10 tol\<close> and that estimate \<open>p0\<close>, ends after \<open>k\<close> passes of its body for some
  \<open>k < iter_limit\<close>, and \<open>k\<close> is the first pass count at which the loop can be left: every
  state before it has \<open>norm > tol\<close>, and after \<open>k\<close> passes either the last pass has raised, or
  \<open>norm \<le> tol\<close>, or the counter \<open>1 + k\<close> has reached \<open>iter_limit\<close>.  The first pass always runs
  when \<open>iter_limit > 1\<close>.  \<open>fit\<close> raises what a pass raises, raises \<open>UnboundLocalError\<close> when
  no pass ran, and a \<open>fit\<close> that returns reports \<open>1 + k\<close> as its \<open>iterations\<close> and the
  parameters of the last pass.  In every pass \<open>norm\<close> is \<open>\<Delta>\<^sup>t V\<^sup>-\<^sup>1 \<Delta>\<close>, where \<open>\<Delta>\<close> is the
  change of the parameters in that pass and \<open>V\<^sup>-\<^sup>1\<close> is the inverse of \<open>(xpz w\<^sub>1 xpz\<^sup>t) / n\<close>
  computed in the first pass from its weight \<open>w\<^sub>1\<close>; the parameters of a pass are the GMM
  estimate with the inverse of the weight matrix at the residuals of the parameters before
  it.  The counter counts up from 1, so what counts down is the budget \<open>iter_limit - i\<close>.
\<close>

theorem gmm_loop_terminates_within_iter_limit:
  assumes L: "1 \<le> iter_limit" and tol: "0 < tol"
  shows
    "case IVGMM_estimate_parameters (exog m) (endog m) (instruments m)
            (eye (ncols (instruments m))) of
       Inl e \<Rightarrow> IVGMM_fit kw gmm_covariance m iter_limit tol cov_type cov_config = Inl e
     | Inr p0 \<Rightarrow>
     (let x = exog m; y = endog m; z = instruments m;
         wm = weight_matrix kw (m_weight m);
         s0 = \<lparr>st_norm = 10 * tol, st_params = p0, st_prev_params = p0,
               st_eps = None, st_w = None, st_vinv = None\<rparr>;
         xpz = divide_by (matmul (T x) z) (real (length y));
         fit = IVGMM_fit kw gmm_covariance m iter_limit tol cov_type cov_config
     in
     (\<exists>k. int k < iter_limit \<and> (1 < iter_limit \<longrightarrow> 0 < k)
        \<and> (\<forall>j<k. \<exists>sj. gmm_iterate j wm x y z 1 s0 = Inr sj \<and> tol < st_norm sj)
        \<and> (case gmm_iterate k wm x y z 1 s0 of
             Inl e \<Rightarrow> gmm_loop wm x y z iter_limit tol 1 s0 = Inl e \<and> fit = Inl e
           | Inr s' \<Rightarrow>
               gmm_loop wm x y z iter_limit tol 1 s0 = Inr (1 + int k, s')
             \<and> (st_norm s' \<le> tol \<or> 1 + int k = iter_limit)
             \<and> (k = 0 \<longrightarrow> fit = Inl (UnboundLocalError ''w''))
             \<and> (\<forall>res. fit = Inr res \<longrightarrow>
                   iterations res = 1 + int k \<and> r_params res = st_params s')))
   \<and> (\<forall>j sj s'. gmm_iterate j wm x y z 1 s0 = Inr sj \<longrightarrow>
         gmm_body wm x y z (1 + int j) sj = Inr s' \<longrightarrow>
         (\<exists>s1 w1 V. gmm_body wm x y z 1 s0 = Inr s1 \<and> st_w s1 = Some w1
            \<and> linalg_inv (divide_by (matmul (matmul xpz w1) (T xpz)) (real (length y))) = Inr V
            \<and> st_vinv s' = Some V
            \<and> st_norm s' = item (matmul (matmul (T (msub (st_params s') (st_params sj))) V)
                                   (msub (st_params s') (st_params sj)))))
   \<and> (\<forall>j sj s'. gmm_iterate j wm x y z 1 s0 = Inr sj \<longrightarrow>
         gmm_body wm x y z (1 + int j) sj = Inr s' \<longrightarrow>
         (\<exists>wmat w. wm x z (msub y (matmul x (st_params sj))) = Inr wmat
            \<and> linalg_inv wmat = Inr w \<and> st_w s' = Some w
            \<and> IVGMM_estimate_parameters x y z w = Inr (st_params s'))))"
proof (cases "IVGMM_estimate_parameters (exog m) (endog m) (instruments m)
            (eye (ncols (instruments m)))")
  case (Inl e)
  from gmm_fit_first_estimate_raises[OF Inl] Inl show ?thesis by simp
next
  case (Inr p0)
  note passes = gmm_fit_loop_passes[OF L tol Inr, of kw gmm_covariance cov_type cov_config,
      unfolded Let_def]
  have est: "\<forall>j sj s'.
      gmm_iterate j (weight_matrix kw (m_weight m)) (exog m) (endog m) (instruments m) 1
        \<lparr>st_norm = 10 * tol, st_params = p0, st_prev_params = p0,
         st_eps = None, st_w = None, st_vinv = None\<rparr> = Inr sj \<longrightarrow>
      gmm_body (weight_matrix kw (m_weight m)) (exog m) (endog m) (instruments m)
        (1 + int j) sj = Inr s' \<longrightarrow>
      (\<exists>wmat w. weight_matrix kw (m_weight m) (exog m) (instruments m)
                   (msub (endog m) (matmul (exog m) (st_params sj))) = Inr wmat
         \<and> linalg_inv wmat = Inr w \<and> st_w s' = Some w
         \<and> IVGMM_estimate_parameters (exog m) (endog m) (instruments m) w
             = Inr (st_params s'))"
    using gmm_body_estimate by blast
  show ?thesis
    unfolding Inr sum.case Let_def
    by (intro conjI passes[THEN conjunct1] passes[THEN conjunct2] est)
qed


theorem gmm_loop_terminates_within_iter_limit_witness:
  "(1::int) \<le> 10 \<and> (0::real) < 1 / 10000
   \<and> IVGMM_estimate_parameters [[1], [0], [0]] [[1], [2], [4]] [[1, 0], [0, 1], [1, 1]] (eye 2)
       = Inr [[5]]
   \<and> gmm_loop (weight_matrix no_kernel_weights
                 \<lparr>w_class = HomoskedasticWeightMatrix,
                  w_config = [(''center'', CBool False)], w_bandwidth = 0\<rparr>)
       [[1], [0], [0]] [[1], [2], [4]] [[1, 0], [0, 1], [1, 1]] 10 (1 / 10000) 1
       \<lparr>st_norm = 10 * (1 / 10000), st_params = [[5]], st_prev_params = [[5]],
        st_eps = None, st_w = None, st_vinv = None\<rparr>
     = Inr (3, \<lparr>st_norm = 0, st_params = [[2]], st_prev_params = [[2]],
                st_eps = Some [[- 1], [2], [4]],
                st_w = Some [[2 / 7, - (1 / 7)], [- (1 / 7), 2 / 7]],
                st_vinv = Some [[162]]\<rparr>)
   \<and> (\<exists>res. IVGMM_fit no_kernel_weights zero_gmm_covariance
          \<lparr>endog = [[1], [2], [4]], exog = [[1], [0], [0]],
           instruments = [[1, 0], [0, 1], [1, 1]],
           has_constant = False, regressor_is_exog = [False],
           m_weight = \<lparr>w_class = HomoskedasticWeightMatrix,
                         w_config = [(''center'', CBool False)], w_bandwidth = 0\<rparr>,
           m_weight_type = ''homoskedastic'',
           m_weight_config = [(''center'', CBool False)]\<rparr> 10 (1 / 10000) ''robust'' [] = Inr res
        \<and> iterations res = 3 \<and> r_params res = [[2]])"
proof -
  let ?m = "\<lparr>endog = [[1], [2], [4]], exog = [[1], [0], [0]],
           instruments = [[1, 0], [0, 1], [1, 1]],
           has_constant = False, regressor_is_exog = [False],
           m_weight = \<lparr>w_class = HomoskedasticWeightMatrix,
                         w_config = [(''center'', CBool False)], w_bandwidth = 0\<rparr>,
           m_weight_type = ''homoskedastic'',
           m_weight_config = [(''center'', CBool False)]\<rparr>"
  let ?wm = "weight_matrix no_kernel_weights
                 \<lparr>w_class = HomoskedasticWeightMatrix,
                  w_config = [(''center'', CBool False)], w_bandwidth = 0\<rparr>"
  let ?s0 = "\<lparr>st_norm = 10 * (1 / 10000), st_params = [[5]], st_prev_params = [[5]],
        st_eps = None, st_w = None, st_vinv = None\<rparr>"
  let ?s2 = "\<lparr>st_norm = 0, st_params = [[2]], st_prev_params = [[2]],
                st_eps = Some [[- 1], [2], [4]],
                st_w = Some [[2 / 7, - (1 / 7)], [- (1 / 7), 2 / 7]],
                st_vinv = Some [[162]]\<rparr>"
  let ?fit = "IVGMM_fit no_kernel_weights zero_gmm_covariance ?m 10 (1 / 10000) ''robust'' []"
  have L: "(1::int) \<le> 10" and tol: "(0::real) < 1 / 10000" by simp_all
  have n: "ncols [[1, 0], [0, 1], [1, 1::real]] = 2" by code_simp
  have p0: "IVGMM_estimate_parameters [[1], [0], [0]] [[1], [2], [4]] [[1, 0], [0, 1], [1, 1]]
              (eye (ncols [[1, 0], [0, 1], [1, 1]])) = Inr [[5]]"
    by (simp add: n overidentified_example_first_step)
  have i1: "gmm_iterate (Suc 0) ?wm [[1], [0], [0]] [[1], [2], [4]] [[1, 0], [0, 1], [1, 1]] 1 ?s0
              = Inr \<lparr>st_norm = 1458, st_params = [[2]], st_prev_params = [[2]],
                     st_eps = Some [[- 4], [2], [4]],
                     st_w = Some [[1 / 6, - (1 / 12)], [- (1 / 12), 1 / 6]],
                     st_vinv = Some [[162]]\<rparr>"
    by (simp only: gmm_iterate.simps two_step_example_body sum.case)
  have i2: "gmm_iterate (Suc (Suc 0)) ?wm [[1], [0], [0]] [[1], [2], [4]]
              [[1, 0], [0, 1], [1, 1]] 1 ?s0 = Inr ?s2"
    by (simp only: gmm_iterate.simps two_step_example_body sum.case one_add_one
        two_step_example_second_body)
  have sel: "exog ?m = [[1], [0], [0]]" "endog ?m = [[1], [2], [4]]"
    "instruments ?m = [[1, 0], [0, 1], [1, 1]]"
    "m_weight ?m = \<lparr>w_class = HomoskedasticWeightMatrix,
                  w_config = [(''center'', CBool False)], w_bandwidth = 0\<rparr>"
    by simp_all
  note th = gmm_loop_terminates_within_iter_limit[OF L tol,
      where m = ?m and kw = no_kernel_weights and gmm_covariance = zero_gmm_covariance
        and cov_type = "''robust''" and cov_config = "[]",
      unfolded sel p0 sum.case Let_def]
  from th[THEN conjunct1]
  obtain k where pos: "(1::int) < 10 \<longrightarrow> 0 < k"
    and before: "\<forall>j<k. \<exists>sj. gmm_iterate j ?wm [[1], [0], [0]] [[1], [2], [4]]
                    [[1, 0], [0, 1], [1, 1]] 1 ?s0 = Inr sj \<and> 1 / 10000 < st_norm sj"
    and after: "case gmm_iterate k ?wm [[1], [0], [0]] [[1], [2], [4]]
                    [[1, 0], [0, 1], [1, 1]] 1 ?s0 of
             Inl e \<Rightarrow> gmm_loop ?wm [[1], [0], [0]] [[1], [2], [4]] [[1, 0], [0, 1], [1, 1]]
                        10 (1 / 10000) 1 ?s0 = Inl e \<and> ?fit = Inl e
           | Inr s' \<Rightarrow>
               gmm_loop ?wm [[1], [0], [0]] [[1], [2], [4]] [[1, 0], [0, 1], [1, 1]]
                        10 (1 / 10000) 1 ?s0 = Inr (1 + int k, s')
             \<and> (st_norm s' \<le> 1 / 10000 \<or> 1 + int k = 10)
             \<and> (k = 0 \<longrightarrow> ?fit = Inl (UnboundLocalError ''w''))
             \<and> (\<forall>res. ?fit = Inr res \<longrightarrow>
                   iterations res = 1 + int k \<and> r_params res = st_params s')"
    by blast
  from pos have pos: "0 < k" by simp
  have "k \<noteq> Suc 0"
  proof
    assume "k = Suc 0"
    with after i1 show False by simp
  qed
  moreover have "\<not> Suc (Suc 0) < k"
  proof
    assume "Suc (Suc 0) < k"
    with before i2 show False by fastforce
  qed
  ultimately have k: "k = Suc (Suc 0)" using pos by linarith
  from after k i2
  have l: "gmm_loop ?wm [[1], [0], [0]] [[1], [2], [4]] [[1, 0], [0, 1], [1, 1]]
             10 (1 / 10000) 1 ?s0 = Inr (3, ?s2)"
    and r: "\<forall>res. ?fit = Inr res \<longrightarrow> iterations res = 3 \<and> r_params res = [[2]]"
    by simp_all
  have "\<exists>res. ?fit = Inr res"
    by (rule gmm_fit_returns[of ?m "[[5]]" no_kernel_weights 10 "1 / 10000" 3 ?s2,
          unfolded sel, OF p0 l]) simp_all
  with r have "\<exists>res. ?fit = Inr res \<and> iterations res = 3 \<and> r_params res = [[2]]" by blast
  with L tol overidentified_example_first_step l show ?thesis by blast
qed

text \<open>
  C10.  The homoskedastic weight matrix does not depend on the \<open>center\<close> option.  The key is
  accepted at construction with any value \<open>c\<close> (so with true and with false), and the matrix
  returned is \<open>(\<epsilon>\<^sup>t\<epsilon> / n) \<cdot> (Z\<^sup>t Z) / n\<close> every time.
\<close>

theorem homoskedastic_weight_ignores_center:
  assumes z: "is_mat n m z" and eps: "is_mat n 1 eps" and x: "length x = n"
    and n: "0 < n" and m: "0 < m"
  shows "bind_e (WeightMatrix_init HomoskedasticWeightMatrix [(''center'', c)])
           (\<lambda>w. weight_matrix kw w x z eps)
         = Inr (divide_by (scale (item (matmul (T eps) eps) / real n) (matmul (T z) z)) (real n))"
  by (simp add: WeightMatrix_init_def bind_e_def weight_matrix_def
      homoskedastic_weight_matrix_formula[OF z eps x n m])

theorem homoskedastic_weight_ignores_center_witness:
  "bind_e (WeightMatrix_init HomoskedasticWeightMatrix [(''center'', CBool True)])
     (\<lambda>w. weight_matrix (\<lambda>f bw. []) w [[1, 1], [1, 2], [1, 3]] [[1, 1], [1, 0], [1, 2]] [[1], [-2], [1]])
     = Inr [[2, 2], [2, 10 / 3]]
   \<and> bind_e (WeightMatrix_init HomoskedasticWeightMatrix [(''center'', CBool False)])
     (\<lambda>w. weight_matrix (\<lambda>f bw. []) w [[1, 1], [1, 2], [1, 3]] [[1, 1], [1, 0], [1, 2]] [[1], [-2], [1]])
     = Inr [[2, 2], [2, 10 / 3]]"
proof -
  have z: "is_mat 3 2 [[1, 1], [1, 0], [1, 2::real]]" by (simp add: is_mat_def)
  have e: "is_mat 3 1 [[1], [-2], [1::real]]" by (simp add: is_mat_def)
  have x: "length [[1, 1], [1, 2], [1, 3::real]] = 3" by simp
  have v: "divide_by (scale (item (matmul (T [[1], [-2], [1]]) [[1], [-2], [1]]) / real 3)
             (matmul (T [[1, 1], [1, 0], [1, 2]]) [[1, 1], [1, 0], [1, 2]])) (real 3)
           = [[2, 2], [2, 10 / 3]]"
    by code_simp
  show ?thesis
    using homoskedastic_weight_ignores_center[OF z e x, of "CBool True" "\<lambda>f bw. []"]
      homoskedastic_weight_ignores_center[OF z e x, of "CBool False" "\<lambda>f bw. []"] v
    by simp
qed

end
